(* ===== verification/Prelude.thy ===== *)
theory Prelude
  imports Complex_Main "HOL-Library.AList" "HOL-Library.Multiset"
    "HOL-Library.Char_ord" "HOL-Library.List_Lexorder"
begin

text \<open>
  Shared vocabulary of the development: the Python exceptions the modelled code can
  raise, the result type of a mutating method (the object after the call together with
  the exception it raised, if any: a Python exception does not undo the mutations made
  before it), Python's \<open>round\<close> applied to an exact quotient of two naturals, and the
  lemma collections the component theories use.
\<close>

named_theorems exc_simps "evaluation rules for exception-carrying results"

section \<open>Python exceptions\<close>

datatype py_error =
    ZeroDivisionError
  | UnboundLocalError
  | TypeError
  | ValueError
  | IndexError
  | AttributeError
  | AssertionError
  | NameError
  | RecordShapeError
  | KeyError
  | OSError
  | ImportError
  | RecursionError

text \<open>
  A method call on a mutable object returns the object as it is when control leaves the
  method, and \<open>Some e\<close> when it left by raising \<open>e\<close>. Sequencing two calls runs the
  second only when the first returned normally.
\<close>

type_synonym 's exc = "'s \<times> py_error option"

definition exc_bind :: "'s exc \<Rightarrow> ('s \<Rightarrow> 's exc) \<Rightarrow> 's exc" where
  "exc_bind r f = (case r of (s, None) \<Rightarrow> f s | (s, Some e) \<Rightarrow> (s, Some e))"

section \<open>Python's round of an exact quotient\<close>

text \<open>
  \<open>round(a / b)\<close> in Python 3 rounds to the nearest integer and a tie to the even one.
  For naturals \<open>a\<close> and \<open>b > 0\<close> the quotient \<open>a / b\<close> is a tie exactly when
  \<open>2 * (a mod b) = b\<close>.
\<close>

definition py_round_div :: "nat \<Rightarrow> nat \<Rightarrow> nat" where
  "py_round_div a b =
     (let q = a div b; r = a mod b
      in if b < 2 * r \<or> (2 * r = b \<and> odd q) then Suc q else q)"

section \<open>Lemmas on exception-carrying results\<close>

lemma exc_bind_ok [simp, exc_simps]: "exc_bind (s, None) f = f s"
  by (simp add: exc_bind_def)

lemma exc_bind_err [simp, exc_simps]: "exc_bind (s, Some e) f = (s, Some e)"
  by (simp add: exc_bind_def)

lemma exc_bind_return [simp, exc_simps]: "exc_bind r (\<lambda>s. (s, None)) = r"
  by (cases r) (simp add: exc_bind_def split: option.splits)

lemma exc_bind_None_iff:
  "snd (exc_bind r f) = None \<longleftrightarrow> snd r = None \<and> snd (f (fst r)) = None"
  by (cases r) (auto simp: exc_bind_def split: option.splits)

text \<open>An invariant of the object that holds before a call and that every later call keeps
  holds after a sequence, whether or not the first call raised.\<close>

lemma exc_bind_preserves:
  "P (fst r) \<Longrightarrow> (\<And>s. P s \<Longrightarrow> P (fst (f s))) \<Longrightarrow> P (fst (exc_bind r f))"
  by (cases r) (auto simp: exc_bind_def split: option.splits)

section \<open>Lemmas on rounding\<close>

lemma py_round_div_le:
  assumes "0 < b" and "a \<le> k * b"
  shows "py_round_div a b \<le> k"
proof -
  have q: "a div b \<le> k"
    using assms by (metis div_le_mono nonzero_mult_div_cancel_right not_gr0)
  show ?thesis
  proof (cases "a div b = k")
    case True
    then have "a mod b = 0"
      using assms by (metis add_le_same_cancel1 le_zero_eq div_mult_mod_eq)
    with True assms(1) show ?thesis by (simp add: py_round_div_def)
  next
    case False
    with q show ?thesis by (simp add: py_round_div_def Let_def)
  qed
qed

lemma py_round_div_nearest:
  assumes "0 < b"
  shows "\<bar>2 * int a - 2 * int b * int (py_round_div a b)\<bar> \<le> int b"
proof -
  have a: "int a = int b * int (a div b) + int (a mod b)"
    by (metis of_nat_add of_nat_mult div_mult_mod_eq mult.commute)
  have r: "a mod b < b" using assms by simp
  show ?thesis
    using a r by (auto simp: py_round_div_def Let_def algebra_simps)
qed

lemma py_round_div_tie_even:
  assumes "0 < b" and "2 * (a mod b) = b"
  shows "even (py_round_div a b)"
  using assms by (simp add: py_round_div_def Let_def)

lemma py_round_div_exact [simp]: "0 < b \<Longrightarrow> py_round_div (k * b) b = k"
  by (simp add: py_round_div_def)

section \<open>Sums\<close>

lemma map_sum_Inr_iff [simp]: "map_sum f g x = Inr y \<longleftrightarrow> (\<exists>z. x = Inr z \<and> y = g z)"
  by (cases x) auto

lemma map_sum_Inl_iff [simp]: "map_sum f g x = Inl y \<longleftrightarrow> (\<exists>z. x = Inl z \<and> y = f z)"
  by (cases x) auto

section \<open>Association lists\<close>

text \<open>Assigning a key of an insertion-ordered dictionary adds at most that pair.\<close>

lemma set_update_subset: "set (AList.update k v al) \<subseteq> insert (k, v) (set al)"
  by (induct al) auto

text \<open>Assigning a new key appends it at the end.\<close>

lemma update_append_new: "k \<notin> fst ` set al \<Longrightarrow> AList.update k v al = al @ [(k, v)]"
  by (induct al) auto

lemma update_append_last: "k \<notin> fst ` set al \<Longrightarrow> AList.update k v (al @ [(k, w)]) = al @ [(k, v)]"
  by (induct al) auto


section \<open>Lists\<close>

text \<open>Selecting by a key that is unique in the list, and lists built one entry per
  element.\<close>

lemma filter_key_unique: "distinct (map f xs) \<Longrightarrow> x \<in> set xs \<Longrightarrow> filter (\<lambda>y. f y = f x) xs = [x]"
proof (induction xs)
  case (Cons a xs)
  show ?case
  proof (cases "a = x")
    case True
    have "f x \<notin> f ` set xs" using Cons.prems(1) True by simp
    then have "\<forall>y\<in>set xs. f y \<noteq> f x" by (metis image_eqI)
    then have "filter (\<lambda>y. f y = f x) xs = []" by (simp add: filter_empty_conv)
    with True show ?thesis by simp
  next
    case False
    then have "x \<in> set xs" using Cons.prems(2) by simp
    then have "f a \<noteq> f x" using Cons.prems(1) by auto
    with Cons.IH Cons.prems(1) \<open>x \<in> set xs\<close> show ?thesis by simp
  qed
qed simp

lemma concat_map_single: "concat (map (\<lambda>x. if P x then [v] else []) xs) = map (\<lambda>_. v) (filter P xs)"
  by (induction xs) simp_all

lemma map_of_graph: "map_of (map (\<lambda>x. (x, f x)) xs) k = (if k \<in> set xs then Some (f k) else None)"
  by (induction xs) auto

end
