(* ===== verification/Seqio.thy ===== *)
theory Seqio
  imports Prelude
begin

text \<open>
  The read records the statistics and the filters consume. They are built by
  \<open>atropos.io.seqio\<close> and \<open>atropos.align\<close>, which are not part of the sources under
  \<open>src/\<close>; the model follows the record contract of the specification (section 6):
  a name, a symbol sequence, an optional quality string, the merge marker of the
  read-merging step and whether an adapter match was recorded (\<open>read.match is not None\<close>).
  \<open>qual2int\<close> of \<open>atropos.util\<close> converts a Phred+33 quality character to its score.
\<close>

record read =
  name :: string
  sequence :: string
  read_qualities :: "string option"
  merged :: bool
  match_found :: bool

text \<open>\<open>len(read)\<close> is the length of the read's sequence.\<close>

definition read_len :: "read \<Rightarrow> nat" where
  "read_len r = length (sequence r)"

text \<open>Python truthiness of \<open>read.qualities\<close>: \<open>None\<close> and the empty string are false.\<close>

definition has_qualities :: "read \<Rightarrow> bool" where
  "has_qualities r = (case read_qualities r of None \<Rightarrow> False | Some q \<Rightarrow> q \<noteq> [])"

definition qual2int :: "char \<Rightarrow> int" where
  "qual2int q = int (of_char q) - 33"

lemma qual2int_mono: "q1 \<le> q2 \<Longrightarrow> qual2int q1 \<le> qual2int q2"
  by (simp add: qual2int_def less_eq_char_def)

lemma qual2int_strict_mono: "q1 < q2 \<Longrightarrow> qual2int q1 < qual2int q2"
  by (simp add: qual2int_def less_char_def)

lemma qual2int_inj: "qual2int q1 = qual2int q2 \<longleftrightarrow> q1 = q2"
  by (auto simp: qual2int_def)

end
