(* ===== verification/FreqTable.thy ===== *)
theory FreqTable
  imports Seqio
begin

text \<open>
  Frequency tables. \<open>CountingDict\<close> and \<open>NestedDict\<close> come from \<open>atropos.util\<close>
  (not under \<open>src/\<close>; modelled from the specification, section 3): a dictionary whose
  missing keys read as 0, and a dictionary of them that creates a missing inner table on
  access. A Python dictionary keeps its keys in insertion order, so both are association
  lists; \<open>d[k] += 1\<close> overwrites the entry of \<open>k\<close> in place or appends it, which is
  \<open>AList.update\<close>. The positional tables \<open>BaseDicts\<close>, \<open>BaseCountingDicts\<close> and
  \<open>BaseNestedDicts\<close> of \<open>src/atropos/commands/stats.py\<close> are lists of them, grown by
  \<open>extend\<close> and read out by \<open>flatten\<close>.

  The abstraction of a counting table is the multiset of the keys it has counted
  (\<open>cd_mset\<close>); incrementing refines \<open>add_mset\<close> on tables with distinct keys, the
  invariant every operation keeps.
\<close>

section \<open>CountingDict\<close>

type_synonym 'k counting_dict = "('k \<times> nat) list"

definition cd_get :: "'k counting_dict \<Rightarrow> 'k \<Rightarrow> nat" where
  "cd_get d k = (case map_of d k of None \<Rightarrow> 0 | Some n \<Rightarrow> n)"

definition cd_incr :: "'k \<Rightarrow> 'k counting_dict \<Rightarrow> 'k counting_dict" where
  "cd_incr k d = AList.update k (Suc (cd_get d k)) d"

definition sorted_items :: "('k::linorder) counting_dict \<Rightarrow> ('k \<times> nat) list" where
  "sorted_items d = sort_key fst d"

definition cd_keys :: "'k counting_dict \<Rightarrow> 'k list" where
  "cd_keys d = map fst d"

text \<open>Abstraction: the multiset of counted keys, and the invariant of distinct keys.\<close>

definition cd_mset :: "'k counting_dict \<Rightarrow> 'k multiset" where
  "cd_mset d = (\<Sum>(k, n)\<leftarrow>d. replicate_mset n k)"

definition cd_wf :: "'k counting_dict \<Rightarrow> bool" where
  "cd_wf d \<longleftrightarrow> distinct (map fst d)"

section \<open>NestedDict\<close>

type_synonym ('t, 'k) nested_dict = "('t \<times> 'k counting_dict) list"

definition nd_get :: "('t, 'k) nested_dict \<Rightarrow> 't \<Rightarrow> 'k counting_dict" where
  "nd_get nd t = (case map_of nd t of None \<Rightarrow> [] | Some d \<Rightarrow> d)"

text \<open>\<open>nd[t][k] += 1\<close>: the inner table is created (appended) when \<open>t\<close> is new.\<close>

definition nd_incr :: "'t \<Rightarrow> 'k \<Rightarrow> ('t, 'k) nested_dict \<Rightarrow> ('t, 'k) nested_dict" where
  "nd_incr t k nd = AList.update t (cd_incr k (nd_get nd t)) nd"

definition nd_wf :: "('t, 'k) nested_dict \<Rightarrow> bool" where
  "nd_wf nd \<longleftrightarrow> distinct (map fst nd) \<and> (\<forall>d \<in> snd ` set nd. cd_wf d)"

text \<open>\<open>NestedDict.flatten(shape="wide")\<close>: the sorted inner keys, and one row per outer key
  in sorted order with the counts of every inner key.\<close>

definition nd_flatten_wide ::
  "('t::linorder, 'k::linorder) nested_dict \<Rightarrow> 'k list \<times> ('t \<times> nat list) list" where
  "nd_flatten_wide nd =
     (let keys1 = sort (remdups (map fst nd));
          keys2 = sort (remdups (concat (map (cd_keys \<circ> snd) nd)))
      in (keys2, map (\<lambda>k1. (k1, map (cd_get (nd_get nd k1)) keys2)) keys1))"

section \<open>BaseDicts: positional tables\<close>

text \<open>\<open>BaseDicts.extend(size)\<close> appends \<open>size - len(dicts)\<close> fresh tables when that is
  positive; the fresh table is \<open>dict_class()\<close>, an empty table.\<close>

definition extend_dicts :: "nat \<Rightarrow> 'd \<Rightarrow> 'd list \<Rightarrow> 'd list" where
  "extend_dicts sz fresh ds =
     (let n = int sz - int (length ds)
      in if 0 < n then ds @ replicate (nat n) fresh else ds)"

text \<open>\<open>dicts[idx]\<close>: a Python list index, negative indices counting from the end.\<close>

definition dicts_getitem :: "'d list \<Rightarrow> nat \<Rightarrow> py_error + 'd" where
  "dicts_getitem ds i = (if i < length ds then Inr (ds ! i) else Inl IndexError)"

text \<open>\<open>dicts[i][k] += 1\<close> on a \<open>BaseCountingDicts\<close>.\<close>

definition dicts_incr :: "nat \<Rightarrow> 'k \<Rightarrow> 'k counting_dict list \<Rightarrow> py_error + 'k counting_dict list" where
  "dicts_incr i k ds =
     (case dicts_getitem ds i of Inl e \<Rightarrow> Inl e | Inr d \<Rightarrow> Inr (ds[i := cd_incr k d]))"

text \<open>\<open>dicts[i][t][k] += 1\<close> on a \<open>BaseNestedDicts\<close>.\<close>

definition ndicts_incr ::
  "nat \<Rightarrow> 't \<Rightarrow> 'k \<Rightarrow> ('t, 'k) nested_dict list \<Rightarrow> py_error + ('t, 'k) nested_dict list" where
  "ndicts_incr i t k ds =
     (case dicts_getitem ds i of Inl e \<Rightarrow> Inl e | Inr d \<Rightarrow> Inr (ds[i := nd_incr t k d]))"

section \<open>BaseCountingDicts.flatten\<close>

text \<open>
  The \<open>datatype\<close> argument: \<open>None\<close>, \<open>"n"\<close> (bases order: A, C, G, T, the other
  observed symbols, N last when observed) or \<open>"q"\<close> (qualities: sorted characters,
  reported as Phred scores). The code's \<open>datatype == "n"\<close> branch orders the other
  symbols by iterating a Python \<open>set\<close>, whose order is unspecified; the model takes
  them in order of first observation, and the lemmas on the bases header hold for any
  order of that middle segment.
\<close>

datatype flat_kind = FlatNone | FlatN | FlatQ

datatype flat_header = KeyHeader "char list" | QualHeader "int list"

definition all_keys :: "'k counting_dict list \<Rightarrow> 'k list" where
  "all_keys ds = remdups (concat (map cd_keys ds))"

definition acgt :: "char list" where
  "acgt = ''ACGT''"

definition flatten_keys :: "flat_kind \<Rightarrow> char counting_dict list \<Rightarrow> char list" where
  "flatten_keys kind ds =
     (let keys = all_keys ds
      in if kind = FlatN then
           (let n = (if CHR ''N'' \<in> set keys then ''N'' else [])
            in acgt @ filter (\<lambda>k. k \<notin> set (acgt @ n)) keys @ n)
         else sort keys)"

definition flatten ::
  "flat_kind \<Rightarrow> char counting_dict list \<Rightarrow> flat_header \<times> (nat \<times> nat list) list" where
  "flatten kind ds =
     (let keys = flatten_keys kind ds
      in (if kind = FlatQ then QualHeader (map qual2int keys) else KeyHeader keys,
          map (\<lambda>(i, d). (i, map (cd_get d) keys)) (enumerate 1 ds)))"

section \<open>BaseNestedDicts.flatten\<close>

text \<open>One row per tile (sorted) and position: \<open>(i, tile, counts...)\<close>, tile-major.
  Reading \<open>d[k1]\<close> creates an empty inner table in the code; that write is invisible
  in the result and is not modelled.\<close>

definition nflatten ::
  "flat_kind \<Rightarrow> (string, char) nested_dict list \<Rightarrow> flat_header \<times> (nat \<times> string \<times> nat list) list" where
  "nflatten kind ds =
     (let keys1 = sort (remdups (concat (map (map fst) ds)));
          keys2 = sort (remdups (concat (map (\<lambda>d. concat (map (cd_keys \<circ> snd) d)) ds)))
      in (if kind = FlatQ then QualHeader (map qual2int keys2) else KeyHeader keys2,
          concat (map (\<lambda>k1. map (\<lambda>(i, d). (i, k1, map (cd_get (nd_get d k1)) keys2))
                                 (enumerate 1 ds)) keys1)))"

text \<open>Abstraction of a positional table set: the multiset counted at position \<open>j\<close>.\<close>

definition pos_mset :: "'k counting_dict list \<Rightarrow> nat \<Rightarrow> 'k multiset" where
  "pos_mset ds j = (if j < length ds then cd_mset (ds ! j) else {#})"

section \<open>Lemmas on CountingDict\<close>

lemma cd_get_Nil [simp]: "cd_get [] k = 0"
  by (simp add: cd_get_def)

lemma cd_get_incr: "cd_get (cd_incr k d) k' = (if k' = k then Suc (cd_get d k) else cd_get d k')"
  by (simp add: cd_get_def cd_incr_def update_conv')

lemma cd_get_notin: "k \<notin> fst ` set d \<Longrightarrow> cd_get d k = 0"
  using map_of_eq_None_iff [of d k] by (simp add: cd_get_def)

lemma cd_wf_Nil [simp]: "cd_wf []"
  by (simp add: cd_wf_def)

lemma cd_wf_incr: "cd_wf d \<Longrightarrow> cd_wf (cd_incr k d)"
  by (simp add: cd_wf_def cd_incr_def distinct_update)

lemma cd_mset_Nil [simp]: "cd_mset [] = {#}"
  by (simp add: cd_mset_def)

lemma cd_mset_Cons [simp]: "cd_mset ((k, n) # d) = replicate_mset n k + cd_mset d"
  by (simp add: cd_mset_def)

lemma count_cd_mset: "cd_wf d \<Longrightarrow> count (cd_mset d) k = cd_get d k"
proof (induction d)
  case Nil
  then show ?case by simp
next
  case (Cons p d)
  obtain k' n where p: "p = (k', n)" by fastforce
  with Cons.prems have "cd_wf d" and k': "k' \<notin> fst ` set d"
    by (auto simp: cd_wf_def)
  with Cons.IH have ih: "count (cd_mset d) k = cd_get d k" by simp
  have "k' = k \<Longrightarrow> cd_get d k = 0"
    using k' by (simp add: cd_get_notin)
  then show ?case
    using p ih by (auto simp: cd_get_def)
qed

lemma cd_mset_eq_iff: "cd_wf d \<Longrightarrow> cd_wf d' \<Longrightarrow> cd_mset d = cd_mset d' \<longleftrightarrow> cd_get d = cd_get d'"
  by (auto simp: multiset_eq_iff count_cd_mset)

text \<open>Refinement of the counting operations by multiset operations.\<close>

lemma cd_mset_incr: "cd_wf d \<Longrightarrow> cd_mset (cd_incr k d) = add_mset k (cd_mset d)"
  by (auto simp: multiset_eq_iff count_cd_mset cd_wf_incr cd_get_incr)

lemma cd_mset_fold_incr:
  "cd_wf d \<Longrightarrow> cd_mset (fold cd_incr ks d) = cd_mset d + mset ks"
  by (induction ks arbitrary: d) (simp_all add: cd_mset_incr cd_wf_incr)

lemma cd_wf_fold_incr: "cd_wf d \<Longrightarrow> cd_wf (fold cd_incr ks d)"
  by (induction ks arbitrary: d) (simp_all add: cd_wf_incr)

lemma size_cd_mset: "size (cd_mset d) = sum_list (map snd d)"
  by (induction d) auto

lemma set_cd_keys_incr: "set (cd_keys (cd_incr k d)) = insert k (set (cd_keys d))"
  by (auto simp: cd_keys_def cd_incr_def dom_update)

lemma cd_get_notin_keys: "k \<notin> set (cd_keys d) \<Longrightarrow> cd_get d k = 0"
  by (simp add: cd_keys_def cd_get_notin)

lemma sorted_items_keys: "sorted (map fst (sorted_items d))"
  by (simp add: sorted_items_def)

lemma mset_sorted_items: "mset (sorted_items d) = mset d"
  by (simp add: sorted_items_def)

section \<open>Lemmas on NestedDict\<close>

lemma nd_get_incr:
  "nd_get (nd_incr t k nd) t' = (if t' = t then cd_incr k (nd_get nd t) else nd_get nd t')"
  by (simp add: nd_get_def nd_incr_def update_conv')

lemma nd_wf_Nil [simp]: "nd_wf []"
  by (simp add: nd_wf_def)

lemma nd_wf_get: "nd_wf nd \<Longrightarrow> cd_wf (nd_get nd t)"
  by (auto simp: nd_wf_def nd_get_def split: option.splits dest: map_of_SomeD)

lemma nd_wf_incr: "nd_wf nd \<Longrightarrow> nd_wf (nd_incr t k nd)"
proof -
  assume wf: "nd_wf nd"
  then have "cd_wf (cd_incr k (nd_get nd t))" by (simp add: nd_wf_get cd_wf_incr)
  moreover have "set (AList.update t v nd) \<subseteq> insert (t, v) (set nd)" for v :: "'b counting_dict"
    by (induction nd) auto
  ultimately show ?thesis
    using wf by (fastforce simp: nd_wf_def nd_incr_def distinct_update)
qed

section \<open>Lemmas on the positional tables\<close>

lemma sum_cd_get_cover:
  assumes "cd_wf d" and "set (cd_keys d) \<subseteq> A" and "finite A"
  shows "(\<Sum>k\<in>A. cd_get d k) = sum_list (map snd d)"
proof -
  have sub: "set_mset (cd_mset d) \<subseteq> A"
  proof
    fix x assume "x \<in># cd_mset d"
    then have "cd_get d x \<noteq> 0" using assms(1) by (simp add: count_cd_mset[symmetric])
    then have "x \<in> set (cd_keys d)"
      by (rule contrapos_np) (rule cd_get_notin_keys)
    with assms(2) show "x \<in> A" by (rule subsetD)
  qed
  have "(\<Sum>k\<in>A. cd_get d k) = (\<Sum>k\<in>A. count (cd_mset d) k)"
    using assms(1) by (simp add: count_cd_mset)
  also have "\<dots> = (\<Sum>k\<in>set_mset (cd_mset d). count (cd_mset d) k)"
    using sub assms(3) by (intro sum.mono_neutral_right) (auto simp: not_in_iff)
  also have "\<dots> = size (cd_mset d)"
    by (simp add: size_multiset_overloaded_eq)
  finally show ?thesis by (simp add: size_cd_mset)
qed

lemma length_extend_dicts: "length (extend_dicts sz e ds) = max sz (length ds)"
  by (simp add: extend_dicts_def Let_def) arith

lemma nth_extend_dicts:
  "i < max sz (length ds) \<Longrightarrow> extend_dicts sz e ds ! i = (if i < length ds then ds ! i else e)"
  by (auto simp: extend_dicts_def Let_def nth_append)

lemma extend_dicts_prefix: "take (length ds) (extend_dicts sz e ds) = ds"
  by (simp add: extend_dicts_def Let_def)

lemma extend_dicts_idem: "extend_dicts sz e (extend_dicts sz e ds) = extend_dicts sz e ds"
  by (simp add: extend_dicts_def Let_def)

lemma dicts_incr_ok:
  "i < length ds \<Longrightarrow> dicts_incr i k ds = Inr (ds[i := cd_incr k (ds ! i)])"
  by (simp add: dicts_incr_def dicts_getitem_def)

lemma dicts_incr_err:
  "length ds \<le> i \<Longrightarrow> dicts_incr i k ds = Inl IndexError"
  by (simp add: dicts_incr_def dicts_getitem_def)

lemma set_all_keys: "set (all_keys ds) = (\<Union>d\<in>set ds. set (cd_keys d))"
  by (simp add: all_keys_def)

lemma flatten_keys_N:
  "flatten_keys FlatN ds = acgt @ filter (\<lambda>k. k \<notin> set acgt \<and> k \<noteq> CHR ''N'') (all_keys ds)
     @ (if CHR ''N'' \<in> set (all_keys ds) then ''N'' else [])"
  unfolding flatten_keys_def Let_def
  by (cases "CHR ''N'' \<in> set (all_keys ds)") (auto simp: acgt_def intro!: filter_cong)

lemma fkN_take: "take 4 (flatten_keys FlatN ds) = ''ACGT''"
  by (simp add: flatten_keys_N acgt_def)

lemma fkN_distinct: "distinct (flatten_keys FlatN ds)"
  by (simp add: flatten_keys_N acgt_def all_keys_def distinct_filter)

lemma fkN_set: "set (flatten_keys FlatN ds) = set acgt \<union> set (all_keys ds)"
  by (auto simp: flatten_keys_N acgt_def)

lemma fkN_last: "CHR ''N'' \<in> set (all_keys ds) \<Longrightarrow> last (flatten_keys FlatN ds) = CHR ''N''"
  by (simp add: flatten_keys_N)

lemma flatten_keys_other: "kind \<noteq> FlatN \<Longrightarrow> flatten_keys kind ds = sort (all_keys ds)"
  by (simp add: flatten_keys_def)

lemma flatten_keys_covers: "set (all_keys ds) \<subseteq> set (flatten_keys kind ds)"
  by (cases "kind = FlatN") (auto simp: fkN_set flatten_keys_other)

lemma flatten_keys_distinct: "distinct (flatten_keys kind ds)"
  by (cases "kind = FlatN") (simp_all add: fkN_distinct flatten_keys_other all_keys_def)

lemma sorted_qual_header: "sorted_wrt (<) (map qual2int (flatten_keys FlatQ ds))"
proof -
  have "sorted_wrt (<) (sort (all_keys ds))"
    by (simp add: all_keys_def strict_sorted_iff)
  then have "sorted_wrt (\<lambda>x y. qual2int x < qual2int y) (sort (all_keys ds))"
    by (rule sorted_wrt_mono_rel [rotated]) (rule qual2int_strict_mono)
  then show ?thesis
    by (simp add: flatten_keys_other sorted_wrt_map)
qed

lemma flatten_rows:
  "snd (flatten kind ds) = map (\<lambda>(i, d). (i, map (cd_get d) (flatten_keys kind ds))) (enumerate 1 ds)"
  by (simp add: flatten_def Let_def)

lemma set_extend_dicts: "set (extend_dicts n e ds) \<subseteq> insert e (set ds)"
  by (auto simp: extend_dicts_def Let_def)

lemma extend_dicts_all:
  "P e \<Longrightarrow> \<forall>d\<in>set ds. P d \<Longrightarrow> \<forall>d\<in>set (extend_dicts n e ds). P d"
  using set_extend_dicts by fastforce

lemma set_update_all:
  "\<forall>d\<in>set ds. P d \<Longrightarrow> P x \<Longrightarrow> \<forall>d\<in>set (ds[i := x]). P d"
  by (metis insert_iff set_update_subset_insert subsetD)

lemma dicts_incr_Inr:
  "dicts_incr i k ds = Inr ds' \<longleftrightarrow> i < length ds \<and> ds' = ds[i := cd_incr k (ds ! i)]"
  by (auto simp: dicts_incr_def dicts_getitem_def)

lemma dicts_incr_Inl:
  "dicts_incr i k ds = Inl e \<longleftrightarrow> length ds \<le> i \<and> e = IndexError"
  by (auto simp: dicts_incr_def dicts_getitem_def)

lemma ndicts_incr_Inr:
  "ndicts_incr i t k ds = Inr ds' \<longleftrightarrow> i < length ds \<and> ds' = ds[i := nd_incr t k (ds ! i)]"
  by (auto simp: ndicts_incr_def dicts_getitem_def)

lemma ndicts_incr_Inl:
  "ndicts_incr i t k ds = Inl e \<longleftrightarrow> length ds \<le> i \<and> e = IndexError"
  by (auto simp: ndicts_incr_def dicts_getitem_def)

lemma dicts_incr_wf:
  "\<forall>d\<in>set ds. cd_wf d \<Longrightarrow> dicts_incr i k ds = Inr ds' \<Longrightarrow> \<forall>d\<in>set ds'. cd_wf d"
  proof -
  assume all: "\<forall>d\<in>set ds. cd_wf d" and "dicts_incr i k ds = Inr ds'"
  then have i: "i < length ds" and ds': "ds' = ds[i := cd_incr k (ds ! i)]"
    by (simp_all add: dicts_incr_Inr)
  from all i have "cd_wf (cd_incr k (ds ! i))" by (simp add: cd_wf_incr)
  with all show ?thesis unfolding ds' by (rule set_update_all)
qed

lemma ndicts_incr_wf:
  "\<forall>d\<in>set ds. nd_wf d \<Longrightarrow> ndicts_incr i t k ds = Inr ds' \<Longrightarrow> \<forall>d\<in>set ds'. nd_wf d"
  proof -
  assume all: "\<forall>d\<in>set ds. nd_wf d" and "ndicts_incr i t k ds = Inr ds'"
  then have i: "i < length ds" and ds': "ds' = ds[i := nd_incr t k (ds ! i)]"
    by (simp_all add: ndicts_incr_Inr)
  from all i have "nd_wf (nd_incr t k (ds ! i))" by (simp add: nd_wf_incr)
  with all show ?thesis unfolding ds' by (rule set_update_all)
qed

lemma pos_mset_incr:
  assumes "\<forall>d\<in>set ds. cd_wf d" and "i < length ds"
  shows "pos_mset (ds[i := cd_incr k (ds ! i)]) j = pos_mset ds j + (if j = i then {#k#} else {#})"
  using assms by (auto simp: pos_mset_def cd_mset_incr)

lemma pos_mset_extend:
  "pos_mset (extend_dicts n [] ds) j = pos_mset ds j"
  by (auto simp: pos_mset_def nth_extend_dicts length_extend_dicts)

lemma pos_mset_Nil [simp]: "pos_mset [] j = {#}"
  by (simp add: pos_mset_def)

section \<open>Properties of the tables\<close>

text \<open>C24. The bases header of BaseCountingDicts.flatten(datatype="n") starts with A, C,
  G, T, lists every observed symbol exactly once, ends with N when N was observed, and
  contains N only then.\<close>

theorem bases_header_order:
  "fst (flatten FlatN ds) = KeyHeader (flatten_keys FlatN ds) \<and>
   take 4 (flatten_keys FlatN ds) = ''ACGT'' \<and> distinct (flatten_keys FlatN ds) \<and>
   set (flatten_keys FlatN ds) = set acgt \<union> set (all_keys ds) \<and>
   (CHR ''N'' \<in> set (all_keys ds) \<longrightarrow> last (flatten_keys FlatN ds) = CHR ''N'') \<and>
   (CHR ''N'' \<in> set (flatten_keys FlatN ds) \<longleftrightarrow> CHR ''N'' \<in> set (all_keys ds))"
proof -
  have "fst (flatten FlatN ds) = KeyHeader (flatten_keys FlatN ds)" by (simp add: flatten_def Let_def)
  moreover have "CHR ''N'' \<notin> set acgt" by (simp add: acgt_def)
  ultimately show ?thesis by (simp add: fkN_take fkN_distinct fkN_set fkN_last)
qed

theorem bases_header_order_witness:
  "flatten_keys FlatN [[(CHR ''N'', 1), (CHR ''A'', 2)], [(CHR ''X'', 1)]] = ''ACGTXN''"
proof -
  have "last (flatten_keys FlatN [[(CHR ''N'', 1), (CHR ''A'', 2)], [(CHR ''X'', 1)]]) = CHR ''N''"
    using bases_header_order [of "[[(CHR ''N'', 1), (CHR ''A'', 2)], [(CHR ''X'', 1)]]"]
    by (simp add: all_keys_def cd_keys_def)
  then show ?thesis by (simp add: flatten_keys_N all_keys_def cd_keys_def acgt_def)
qed

text \<open>C25. BaseDicts.extend(size) never truncates: the set grows to max(size, current
  length), the existing tables keep their positions, and the new positions hold fresh
  empty tables.\<close>

theorem extend_contract:
  "length (extend_dicts sz e ds) = max sz (length ds) \<and>
   take (length ds) (extend_dicts sz e ds) = ds \<and>
   (\<forall>i. length ds \<le> i \<longrightarrow> i < sz \<longrightarrow> extend_dicts sz e ds ! i = e)"
  by (simp add: length_extend_dicts extend_dicts_prefix nth_extend_dicts)

theorem extend_contract_witness:
  "length (extend_dicts 3 ([] :: char counting_dict) [[(CHR ''A'', 5)]]) = 3 \<and>
   extend_dicts 3 ([] :: char counting_dict) [[(CHR ''A'', 5)]] ! 2 = []"
proof -
  let ?x = "extend_dicts 3 ([] :: char counting_dict) [[(CHR ''A'', 5)]]"
  from extend_contract [of 3 "[] :: char counting_dict" "[[(CHR ''A'', 5)]]"]
  have "length ?x = 3" and "\<forall>i. 1 \<le> i \<longrightarrow> i < 3 \<longrightarrow> ?x ! i = []" by simp_all
  then show ?thesis by simp
qed

text \<open>C26. The update self.bases[i][k] += 1 of a positional table set: at a position
  inside the set it keeps every table well formed and the length unchanged and adds one
  to exactly the count of k at position i; past the end it is an IndexError.\<close>

theorem positional_incr:
  assumes "\<forall>d\<in>set ds. cd_wf d"
  shows "(i < length ds \<longrightarrow>
            (\<exists>ds'. dicts_incr i k ds = Inr ds' \<and> length ds' = length ds \<and> (\<forall>d\<in>set ds'. cd_wf d) \<and>
               (\<forall>j<length ds. \<forall>k'. cd_get (ds' ! j) k' = cd_get (ds ! j) k' + (if j = i \<and> k' = k then 1 else 0)))) \<and>
         (length ds \<le> i \<longrightarrow> dicts_incr i k ds = Inl IndexError)"
proof -
  have "\<exists>ds'. dicts_incr i k ds = Inr ds' \<and> length ds' = length ds \<and> (\<forall>d\<in>set ds'. cd_wf d) \<and>
          (\<forall>j<length ds. \<forall>k'. cd_get (ds' ! j) k' = cd_get (ds ! j) k' + (if j = i \<and> k' = k then 1 else 0))"
    if i: "i < length ds"
  proof -
    have "dicts_incr i k ds = Inr (ds[i := cd_incr k (ds ! i)])" using i by (rule dicts_incr_ok)
    moreover have "\<forall>d\<in>set (ds[i := cd_incr k (ds ! i)]). cd_wf d"
      using assms i by (intro set_update_all) (simp_all add: cd_wf_incr)
    ultimately show ?thesis using i by (auto simp: nth_list_update cd_get_incr)
  qed
  then show ?thesis by (simp add: dicts_incr_err)
qed

theorem positional_incr_witness:
  "dicts_incr 1 (CHR ''G'') [[], [(CHR ''G'', 2)]] = Inr [[], [(CHR ''G'', 3)]] \<and>
   dicts_incr 2 (CHR ''G'') [[], [(CHR ''G'', 2)]] = Inl IndexError"
proof -
  have wf: "\<forall>d\<in>set [[], [(CHR ''G'', 2 :: nat)]]. cd_wf d" by (simp add: cd_wf_def)
  from positional_incr [OF wf, of 2 "CHR ''G''"] have "dicts_incr 2 (CHR ''G'') [[], [(CHR ''G'', 2)]] = Inl IndexError"
    by simp
  moreover have "dicts_incr 1 (CHR ''G'') [[], [(CHR ''G'', 2)]] = Inr [[], [(CHR ''G'', 3)]]"
    by (simp add: dicts_incr_ok cd_incr_def cd_get_def)
  ultimately show ?thesis by blast
qed

text \<open>C27. Every row (i, counts...) of a flattened table set is the 1-based position i of a
  table followed by that table's count for each header key, zero for a key it lacks; the
  counts of a row add up to the table's total.\<close>

theorem flatten_row_counts:
  assumes "\<forall>d \<in> set ds. cd_wf d" and "(i, cs) \<in> set (snd (flatten kind ds))"
  shows "0 < i \<and> i \<le> length ds \<and> cs = map (cd_get (ds ! (i - 1))) (flatten_keys kind ds) \<and>
         sum_list cs = sum_list (map snd (ds ! (i - 1)))"
proof -
  from assms(2) obtain d where d: "(i, d) \<in> set (enumerate 1 ds)"
    and cs: "cs = map (cd_get d) (flatten_keys kind ds)"
    by (auto simp: flatten_rows)
  from d have i: "0 < i" "i - 1 < length ds" "ds ! (i - 1) = d"
    by (auto simp: in_set_enumerate_eq)
  then have "d \<in> set ds" by (metis nth_mem)
  then have "set (cd_keys d) \<subseteq> set (flatten_keys kind ds)"
    using flatten_keys_covers [of ds kind] by (auto simp: set_all_keys)
  with assms(1) \<open>d \<in> set ds\<close> have "sum_list cs = sum_list (map snd d)"
    by (simp add: cs sum_list_distinct_conv_sum_set flatten_keys_distinct sum_cd_get_cover)
  with i cs show ?thesis by auto
qed

theorem flatten_row_counts_witness:
  "(2, [0, 3, 0, 0]) \<in> set (snd (flatten FlatN [[(CHR ''A'', 1)], [(CHR ''C'', 3)]])) \<and>
   sum_list (map snd ([[(CHR ''A'', 1)], [(CHR ''C'', 3 :: nat)]] ! 1)) = 3"
proof -
  have wf: "\<forall>d\<in>set [[(CHR ''A'', 1)], [(CHR ''C'', 3 :: nat)]]. cd_wf d" by (simp add: cd_wf_def)
  have mem: "(2, [0, 3, 0, 0]) \<in> set (snd (flatten FlatN [[(CHR ''A'', 1)], [(CHR ''C'', 3)]]))"
    by (simp add: flatten_rows flatten_keys_N all_keys_def cd_keys_def cd_get_def acgt_def)
  from flatten_row_counts [OF wf mem] mem show ?thesis by simp
qed

end
