(* ===== verification/Collector.thy ===== *)
theory Collector
  imports FreqTable
begin

text \<open>
  \<open>ReadStatCollector\<close> of \<open>src/atropos/commands/stats.py\<close>: the statistics of one
  read stream. The object is the record \<open>collector\<close>; each method is a function from
  the object to the object after the call and the exception the call raised, if any
  (\<open>'s exc\<close> of the prelude), so that the mutations a method makes before it raises stay
  visible, as they do in Python. Attributes that are \<open>None\<close> in the code are \<open>None\<close>
  here; the attribute \<open>tile_sequence_qualities\<close>, which \<open>__init__\<close> never assigns,
  is \<open>None\<close> until \<open>_init_qualities\<close> creates it.

  The tile pattern \<open>tile_key_regexp\<close> is an arbitrary function from a read name to
  the captured group of a match, \<open>None\<close> when the name does not match: the model
  assumes the capturing group takes part in every match, as the single group of a tile
  pattern does. The quality argument \<open>qualities\<close> is a Python value of which only
  \<open>is None\<close> and truthiness are used: \<open>None\<close>, \<open>Some False\<close>, \<open>Some True\<close>.
\<close>

type_synonym tile_regexp = "string \<Rightarrow> string option"

record collector =
  max_read_len :: nat
  read_count :: nat
  sequence_lengths :: "nat counting_dict"
  sequence_gc :: "nat counting_dict"
  bases :: "char counting_dict list"
  tile_key_regexp :: "tile_regexp option"
  qualities :: "bool option"
  sequence_qualities :: "nat counting_dict option"
  base_qualities :: "char counting_dict list option"
  tile_base_qualities :: "(string, char) nested_dict list option"
  tile_sequence_qualities :: "(string, nat) nested_dict option"

section \<open>Construction\<close>

definition init_qualities :: "collector \<Rightarrow> collector" where
  "init_qualities c =
     c\<lparr>sequence_qualities := Some [],
       base_qualities := Some [],
       tile_base_qualities :=
         (if tile_key_regexp c \<noteq> None then Some [] else tile_base_qualities c),
       tile_sequence_qualities :=
         (if tile_key_regexp c \<noteq> None then Some [] else tile_sequence_qualities c)\<rparr>"

definition new_collector :: "bool option \<Rightarrow> tile_regexp option \<Rightarrow> collector" where
  "new_collector q rx =
     (let c = \<lparr>max_read_len = 0, read_count = 0, sequence_lengths = [], sequence_gc = [],
               bases = [], tile_key_regexp = rx, qualities = q, sequence_qualities = None,
               base_qualities = None, tile_base_qualities = None,
               tile_sequence_qualities = None\<rparr>
      in if q = Some True then init_qualities c else c)"

definition track_tiles :: "collector \<Rightarrow> bool" where
  "track_tiles c \<longleftrightarrow> qualities c = Some True \<and> tile_key_regexp c \<noteq> None"

section \<open>Per-base counting\<close>

text \<open>\<open>_extend_bases(new_size)\<close>; a missing table is an \<open>AttributeError\<close> on \<open>None\<close>.\<close>

definition extend_bases :: "collector \<Rightarrow> nat \<Rightarrow> collector exc" where
  "extend_bases c n =
     (let c1 = c\<lparr>bases := extend_dicts n [] (bases c)\<rparr>
      in if qualities c1 = Some True then
           (case base_qualities c1 of
              None \<Rightarrow> (c1, Some AttributeError)
            | Some bq \<Rightarrow>
                let c2 = c1\<lparr>base_qualities := Some (extend_dicts n [] bq)\<rparr>
                in if track_tiles c2 then
                     (case tile_base_qualities c2 of
                        None \<Rightarrow> (c2, Some AttributeError)
                      | Some tb \<Rightarrow> (c2\<lparr>tile_base_qualities := Some (extend_dicts n [] tb)\<rparr>, None))
                   else (c2, None))
         else (c1, None))"

text \<open>\<open>add_base(i, base, qual, tile)\<close>: a quality character is always truthy; a tile is
  truthy when it is a non-empty string. Subscripting a missing table is a
  \<open>TypeError\<close>, an index past the end an \<open>IndexError\<close>.\<close>

definition add_base :: "collector \<Rightarrow> nat \<Rightarrow> char \<Rightarrow> char option \<Rightarrow> string option \<Rightarrow> collector exc" where
  "add_base c i b qual tile =
     (case dicts_incr i b (bases c) of
        Inl e \<Rightarrow> (c, Some e)
      | Inr bs \<Rightarrow>
          (let c1 = c\<lparr>bases := bs\<rparr>
           in (case qual of
                 None \<Rightarrow> (c1, None)
               | Some q \<Rightarrow>
                   (case base_qualities c1 of
                      None \<Rightarrow> (c1, Some TypeError)
                    | Some bq \<Rightarrow>
                        (case dicts_incr i q bq of
                           Inl e \<Rightarrow> (c1, Some e)
                         | Inr bq' \<Rightarrow>
                             (let c2 = c1\<lparr>base_qualities := Some bq'\<rparr>
                              in (case tile of
                                    None \<Rightarrow> (c2, None)
                                  | Some t \<Rightarrow>
                                      (if t = [] then (c2, None)
                                       else (case tile_base_qualities c2 of
                                               None \<Rightarrow> (c2, Some TypeError)
                                             | Some tb \<Rightarrow>
                                                 (case ndicts_incr i t q tb of
                                                    Inl e \<Rightarrow> (c2, Some e)
                                                  | Inr tb' \<Rightarrow>
                                                      (c2\<lparr>tile_base_qualities := Some tb'\<rparr>, None)))))))))))"

text \<open>The loop \<open>for i, (base, qual) in enumerate(zip(seq, quals))\<close>.\<close>

fun add_bases :: "collector \<Rightarrow> nat \<Rightarrow> (char \<times> char) list \<Rightarrow> string option \<Rightarrow> collector exc" where
  "add_bases c i [] tile = (c, None)"
| "add_bases c i ((b, q) # bqs) tile =
     exc_bind (add_base c i b (Some q) tile) (\<lambda>c'. add_bases c' (Suc i) bqs tile)"

section \<open>collect\<close>

definition gc_percent :: "string \<Rightarrow> nat" where
  "gc_percent seq =
     py_round_div ((count_list seq (CHR ''C'') + count_list seq (CHR ''G'')) * 100) (length seq)"

definition mean_quality :: "string \<Rightarrow> nat \<Rightarrow> nat" where
  "mean_quality quals seqlen = py_round_div (\<Sum>q\<leftarrow>quals. of_char q) seqlen"

text \<open>The tile step of \<open>collect\<close>: the captured tile, or the \<open>ValueError\<close> of a name
  that does not match. Returns the collector and the tile variable.\<close>

definition collect_tile ::
  "collector \<Rightarrow> read \<Rightarrow> nat \<Rightarrow> (collector \<times> string option) \<times> py_error option" where
  "collect_tile c r mq =
     (if track_tiles c then
        (case tile_key_regexp c of
           None \<Rightarrow> ((c, None), None)
         | Some rx \<Rightarrow>
             (case rx (name r) of
                None \<Rightarrow> ((c, None), Some ValueError)
              | Some t \<Rightarrow>
                  (case tile_sequence_qualities c of
                     None \<Rightarrow> ((c, None), Some TypeError)
                   | Some ts \<Rightarrow>
                       ((c\<lparr>tile_sequence_qualities := Some (nd_incr t mq ts)\<rparr>, Some t), None))))
      else ((c, None), None))"

text \<open>The quality part of \<open>collect\<close>, run when \<open>self.qualities\<close> is truthy: the mean
  quality, the tile, then the per-base loop over \<open>zip(seq, quals)\<close>. Summing over
  \<open>None\<close> is a \<open>TypeError\<close>.\<close>

definition collect_quals :: "collector \<Rightarrow> read \<Rightarrow> collector exc" where
  "collect_quals c r =
     (let seq = sequence r; seqlen = length seq
      in case read_qualities r of
           None \<Rightarrow> (c, Some TypeError)
         | Some quals \<Rightarrow>
             (let mq = mean_quality quals seqlen
              in case sequence_qualities c of
                   None \<Rightarrow> (c, Some TypeError)
                 | Some sq \<Rightarrow>
                     (case collect_tile (c\<lparr>sequence_qualities := Some (cd_incr mq sq)\<rparr>) r mq of
                        ((c', tile), None) \<Rightarrow> add_bases c' 0 (zip seq quals) tile
                      | ((c', _), Some e) \<Rightarrow> (c', Some e))))"

text \<open>Lines 176--178: quality tracking switches on at the first read with a truthy
  quality string, unless the constructor was given a non-\<open>None\<close> falsy value.\<close>

definition lazy_qualities :: "collector \<Rightarrow> read \<Rightarrow> collector" where
  "lazy_qualities c r = (if qualities c = None \<and> has_qualities r
                         then init_qualities (c\<lparr>qualities := Some True\<rparr>) else c)"

text \<open>Lines 184--186: the read count and the two distributions.\<close>

definition count_read :: "collector \<Rightarrow> read \<Rightarrow> collector" where
  "count_read c r = c\<lparr>read_count := Suc (read_count c),
                       sequence_lengths := cd_incr (length (sequence r)) (sequence_lengths c),
                       sequence_gc := cd_incr (gc_percent (sequence r)) (sequence_gc c)\<rparr>"

text \<open>
  \<open>collect(record)\<close>, line by line: lazy activation of quality tracking; the GC
  percentage, whose division by the length raises on an empty read; the read count
  and the two distributions; \<open>_extend_bases\<close>, guarded by \<open>seqlen > max_read_len\<close>
  (the attribute is never updated, so the guard holds for every non-empty read); and
  the quality part. When \<open>self.qualities\<close> is not truthy the loop reads the local
  \<open>quals\<close>, which was never assigned: \<open>UnboundLocalError\<close>.
\<close>

definition collect :: "collector \<Rightarrow> read \<Rightarrow> collector exc" where
  "collect c0 r =
     (let c1 = lazy_qualities c0 r; seqlen = length (sequence r)
      in if seqlen = 0 then (c1, Some ZeroDivisionError)
         else
           (let c2 = count_read c1 r
            in exc_bind (if max_read_len c2 < seqlen then extend_bases c2 seqlen else (c2, None))
                 (\<lambda>c3. if qualities c3 = Some True then collect_quals c3 r
                        else (c3, Some UnboundLocalError))))"

text \<open>Feeding a stream of reads, one \<open>collect\<close> call after the other; the first
  exception ends the stream.\<close>

fun collect_all :: "collector \<Rightarrow> read list \<Rightarrow> collector exc" where
  "collect_all c [] = (c, None)"
| "collect_all c (r # rs) = exc_bind (collect c r) (\<lambda>c'. collect_all c' rs)"

section \<open>finish\<close>

type_synonym base_rows = "(nat \<times> nat list) list"
type_synonym tile_rows = "(nat \<times> string \<times> nat list) list"

record stats_summary =
  summary_count :: nat
  summary_length :: "(nat \<times> nat) list"
  summary_gc :: "(nat \<times> nat) list"
  summary_bases :: "flat_header \<times> base_rows"
  summary_qualities :: "(nat \<times> nat) list option"
  summary_base_qualities :: "(flat_header \<times> base_rows) option"
  summary_tile_base_qualities :: "(flat_header \<times> tile_rows) option"
  summary_tile_sequence_qualities :: "(nat list \<times> (string \<times> nat list) list) option"

text \<open>\<open>finish()\<close>: an empty \<open>CountingDict\<close> is falsy, a \<open>BaseCountingDicts\<close> object
  is always truthy (it defines neither \<open>__len__\<close> nor \<open>__bool__\<close>).\<close>

definition finish :: "collector \<Rightarrow> py_error + stats_summary" where
  "finish c =
     (let s = \<lparr>summary_count = read_count c,
               summary_length = sorted_items (sequence_lengths c),
               summary_gc = sorted_items (sequence_gc c),
               summary_bases = flatten FlatN (bases c),
               summary_qualities =
                 (case sequence_qualities c of
                    Some sq \<Rightarrow> if sq = [] then None else Some (sorted_items sq)
                  | None \<Rightarrow> None),
               summary_base_qualities = map_option (flatten FlatQ) (base_qualities c),
               summary_tile_base_qualities = None,
               summary_tile_sequence_qualities = None\<rparr>
      in if track_tiles c then
           (case (tile_base_qualities c, tile_sequence_qualities c) of
              (Some tb, Some ts) \<Rightarrow>
                Inr (s\<lparr>summary_tile_base_qualities := Some (nflatten FlatQ tb),
                       summary_tile_sequence_qualities := Some (nd_flatten_wide ts)\<rparr>)
            | _ \<Rightarrow> Inl AttributeError)
         else Inr s)"

section \<open>Derived values and __getattr__\<close>

text \<open>
  The derived values of lines 156--169. \<open>_total_bases\<close> calls \<open>self.bases.items()\<close>,
  but a \<open>BaseCountingDicts\<close> object has no \<open>items\<close> method and no \<open>__getattr__\<close>:
  \<open>AttributeError\<close>. \<open>_gc_pct\<close> first sums the C and G counts over the positions and then
  reads \<open>self.total_bases\<close> through \<open>__getattr__\<close>. \<open>__getattr__(name)\<close> answers from
  the cache \<open>_cache\<close>, otherwise calls the method \<open>'_' + name\<close> and caches its value.
  The cache is passed explicitly; the attributes reachable this way are the four
  \<open>_\<close>-prefixed methods of the class and \<open>_cache\<close> (calling a dictionary is a
  \<open>TypeError\<close>, as is calling \<open>_extend_bases\<close> without its argument). For any other name
  the test \<open>hasattr(self, '_' + name)\<close> itself goes through \<open>__getattr__\<close>, which tests
  \<open>'__' + name\<close>, and so on: the recursion ends in \<open>RecursionError\<close>, which \<open>hasattr\<close>
  does not catch, so the \<open>ValueError\<close> of line 166 is never raised. A name ending in
  \<open>__\<close> may reach a dunder attribute of the object on the way; that is not modelled
  (\<open>None\<close>).
\<close>

datatype attr_val = AttrNum rat | AttrNone

type_synonym attr_cache = "(string \<times> attr_val) list"

definition total_bases_raw :: "collector \<Rightarrow> py_error + rat" where
  "total_bases_raw c = Inl AttributeError"

definition gc_sum :: "collector \<Rightarrow> nat" where
  "gc_sum c = (\<Sum>d\<leftarrow>bases c. cd_get d (CHR ''C'') + cd_get d (CHR ''G''))"

definition cached :: "attr_cache \<Rightarrow> string \<Rightarrow> (py_error + attr_val) \<Rightarrow> attr_cache \<times> (py_error + attr_val)" where
  "cached cache attr v = (case v of Inl e \<Rightarrow> (cache, Inl e) | Inr x \<Rightarrow> (AList.update attr x cache, Inr x))"

definition getattr_total_bases :: "attr_cache \<Rightarrow> collector \<Rightarrow> attr_cache \<times> (py_error + attr_val)" where
  "getattr_total_bases cache c =
     (case map_of cache ''total_bases'' of
        Some v \<Rightarrow> (cache, Inr v)
      | None \<Rightarrow> cached cache ''total_bases'' (map_sum id AttrNum (total_bases_raw c)))"

definition gc_pct_raw :: "attr_cache \<Rightarrow> collector \<Rightarrow> attr_cache \<times> (py_error + attr_val)" where
  "gc_pct_raw cache c =
     (let s = gc_sum c; (cache', t) = getattr_total_bases cache c
      in case t of
           Inl e \<Rightarrow> (cache', Inl e)
         | Inr (AttrNum tot) \<Rightarrow>
             if tot = 0 then (cache', Inl ZeroDivisionError) else (cache', Inr (AttrNum (of_nat s / tot)))
         | Inr AttrNone \<Rightarrow> (cache', Inl TypeError))"

text \<open>The attributes of a collector found by normal lookup, apart from the dunder
  methods every object has: the instance attributes set by \<open>__init__\<close> and
  \<open>_init_qualities\<close>, and the class's methods and property.\<close>

definition collector_attrs :: "string list" where
  "collector_attrs =
     [''max_read_len'', ''count'', ''sequence_lengths'', ''sequence_gc'', ''bases'', ''tile_key_regexp'',
      ''qualities'', ''sequence_qualities'', ''base_qualities'', ''tile_base_qualities'',
      ''tile_sequence_qualities'', ''_cache'', ''_init_qualities'', ''_gc_pct'', ''_total_bases'',
      ''__getattr__'', ''track_tiles'', ''collect'', ''add_base'', ''_extend_bases'', ''finish'', ''__init__'']"

definition ends_dunder :: "string \<Rightarrow> bool" where
  "ends_dunder s = (2 \<le> length s \<and> drop (length s - 2) s = ''__'')"

text \<open>Line 165, \<open>hasattr(self, '_' + name)\<close>: an attribute found by normal lookup
  answers at once; otherwise the lookup calls \<open>__getattr__('_' + name)\<close>, which first
  asks the same question one underscore deeper. \<open>depth\<close> is the number of interpreter
  frames left before the recursion limit; reaching it is a \<open>RecursionError\<close>, which
  \<open>hasattr\<close> does not catch. The result names the attribute the chain reached.\<close>

fun getattr_chain :: "nat \<Rightarrow> string \<Rightarrow> py_error + string" where
  "getattr_chain 0 nm = Inl RecursionError"
| "getattr_chain (Suc k) nm =
     (if CHR ''_'' # nm \<in> set collector_attrs then Inr (CHR ''_'' # nm)
      else getattr_chain k (CHR ''_'' # nm))"

text \<open>Lines 162--169. A hit of the chain at the first level is one of the methods
  \<open>_gc_pct\<close>, \<open>_total_bases\<close>, \<open>_init_qualities\<close>, \<open>_extend_bases\<close> or the dictionary
  \<open>_cache\<close>, each called without arguments. A hit deeper down, or a name ending in
  \<open>__\<close>, reaches the dunder machinery of \<open>object\<close>, which is not modelled (\<open>None\<close>).\<close>

definition collector_getattr ::
  "nat \<Rightarrow> attr_cache \<Rightarrow> collector \<Rightarrow> string \<Rightarrow> ((attr_cache \<times> collector) \<times> (py_error + attr_val)) option" where
  "collector_getattr depth cache c attr =
     (case map_of cache attr of
        Some v \<Rightarrow> Some ((cache, c), Inr v)
      | None \<Rightarrow>
          if ends_dunder attr then None
          else
            (case getattr_chain depth attr of
               Inl e \<Rightarrow> Some ((cache, c), Inl e)
             | Inr f \<Rightarrow>
                 if f = ''_total_bases'' then (let (cache', v) = getattr_total_bases cache c in Some ((cache', c), v))
                 else if f = ''_gc_pct'' then
                   (let (cache', v) = gc_pct_raw cache c in (let (cache'', v') = cached cache' attr v in Some ((cache'', c), v')))
                 else if f = ''_init_qualities'' then Some ((AList.update attr AttrNone cache, init_qualities c), Inr AttrNone)
                 else if f = ''_extend_bases'' \<or> f = ''_cache'' then Some ((cache, c), Inl TypeError)
                 else None))"

section \<open>The collector invariant\<close>

text \<open>
  \<open>col_wf\<close>: \<open>max_read_len\<close> stays 0; every table has distinct keys; once
  quality tracking is on, the quality tables exist, and the tile tables exist when tiles
  are tracked.
\<close>

definition col_wf :: "collector \<Rightarrow> bool" where
  "col_wf c \<longleftrightarrow>
     max_read_len c = 0 \<and> cd_wf (sequence_lengths c) \<and> cd_wf (sequence_gc c)
     \<and> (\<forall>d\<in>set (bases c). cd_wf d)
     \<and> (qualities c = Some True \<longrightarrow> sequence_qualities c \<noteq> None \<and> base_qualities c \<noteq> None)
     \<and> (track_tiles c \<longrightarrow> tile_base_qualities c \<noteq> None \<and> tile_sequence_qualities c \<noteq> None)
     \<and> pred_option cd_wf (sequence_qualities c)
     \<and> pred_option (\<lambda>bq. \<forall>d\<in>set bq. cd_wf d) (base_qualities c)
     \<and> pred_option (\<lambda>tb. \<forall>d\<in>set tb. nd_wf d) (tile_base_qualities c)
     \<and> pred_option nd_wf (tile_sequence_qualities c)"

text \<open>Helpers of the proofs: the fields no per-base step writes, and room in the
  positional tables for positions below \<open>n\<close>.\<close>

definition pos_frame :: "collector \<Rightarrow> collector \<Rightarrow> bool" where
  "pos_frame c c' \<longleftrightarrow>
     max_read_len c' = max_read_len c \<and> read_count c' = read_count c
     \<and> sequence_lengths c' = sequence_lengths c \<and> sequence_gc c' = sequence_gc c
     \<and> tile_key_regexp c' = tile_key_regexp c \<and> qualities c' = qualities c
     \<and> sequence_qualities c' = sequence_qualities c
     \<and> tile_sequence_qualities c' = tile_sequence_qualities c"

definition room :: "collector \<Rightarrow> string option \<Rightarrow> nat \<Rightarrow> bool" where
  "room c tile n \<longleftrightarrow>
     n \<le> length (bases c)
     \<and> (case base_qualities c of None \<Rightarrow> False | Some bq \<Rightarrow> n \<le> length bq)
     \<and> (case tile of
          None \<Rightarrow> True
        | Some t \<Rightarrow> t \<noteq> [] \<longrightarrow>
            (case tile_base_qualities c of None \<Rightarrow> False | Some tb \<Rightarrow> n \<le> length tb))"

text \<open>A read the collector can take without raising: non-empty, with a quality string of
  the sequence's length, and a name the tile pattern matches when one is configured.\<close>

definition good_read :: "tile_regexp option \<Rightarrow> read \<Rightarrow> bool" where
  "good_read rx r \<longleftrightarrow>
     sequence r \<noteq> []
     \<and> (case read_qualities r of None \<Rightarrow> False | Some q \<Rightarrow> length q = length (sequence r))
     \<and> (case rx of None \<Rightarrow> True | Some f \<Rightarrow> f (name r) \<noteq> None)"

definition column :: "nat \<Rightarrow> read list \<Rightarrow> char list" where
  "column j rs = map (\<lambda>r. sequence r ! j) (filter (\<lambda>r. j < length (sequence r)) rs)"

section \<open>Characteristic equations of add_base\<close>

lemma add_base_Inl:
  "dicts_incr i b (bases c) = Inl e \<Longrightarrow> add_base c i b qual tile = (c, Some e)"
  unfolding add_base_def by simp

lemma add_base_no_qual:
  "dicts_incr i b (bases c) = Inr bs \<Longrightarrow> add_base c i b None tile = (c\<lparr>bases := bs\<rparr>, None)"
  unfolding add_base_def by simp

lemma add_base_no_table:
  "dicts_incr i b (bases c) = Inr bs \<Longrightarrow> base_qualities c = None \<Longrightarrow>
   add_base c i b (Some q) tile = (c\<lparr>bases := bs\<rparr>, Some TypeError)"
  unfolding add_base_def by simp

lemma add_base_qual_Inl:
  "dicts_incr i b (bases c) = Inr bs \<Longrightarrow> base_qualities c = Some bq \<Longrightarrow>
   dicts_incr i q bq = Inl e \<Longrightarrow> add_base c i b (Some q) tile = (c\<lparr>bases := bs\<rparr>, Some e)"
  unfolding add_base_def by simp

lemma add_base_no_tile:
  "dicts_incr i b (bases c) = Inr bs \<Longrightarrow> base_qualities c = Some bq \<Longrightarrow>
   dicts_incr i q bq = Inr bq' \<Longrightarrow> tile = None \<or> tile = Some [] \<Longrightarrow>
   add_base c i b (Some q) tile = (c\<lparr>bases := bs, base_qualities := Some bq'\<rparr>, None)"
  unfolding add_base_def by auto

lemma add_base_tile_none:
  "dicts_incr i b (bases c) = Inr bs \<Longrightarrow> base_qualities c = Some bq \<Longrightarrow>
   dicts_incr i q bq = Inr bq' \<Longrightarrow> t \<noteq> [] \<Longrightarrow> tile_base_qualities c = None \<Longrightarrow>
   add_base c i b (Some q) (Some t) = (c\<lparr>bases := bs, base_qualities := Some bq'\<rparr>, Some TypeError)"
  unfolding add_base_def by simp

lemma add_base_tile_Inl:
  "dicts_incr i b (bases c) = Inr bs \<Longrightarrow> base_qualities c = Some bq \<Longrightarrow>
   dicts_incr i q bq = Inr bq' \<Longrightarrow> t \<noteq> [] \<Longrightarrow> tile_base_qualities c = Some tb \<Longrightarrow>
   ndicts_incr i t q tb = Inl e \<Longrightarrow>
   add_base c i b (Some q) (Some t) = (c\<lparr>bases := bs, base_qualities := Some bq'\<rparr>, Some e)"
  unfolding add_base_def by simp

lemma add_base_tile_Inr:
  "dicts_incr i b (bases c) = Inr bs \<Longrightarrow> base_qualities c = Some bq \<Longrightarrow>
   dicts_incr i q bq = Inr bq' \<Longrightarrow> t \<noteq> [] \<Longrightarrow> tile_base_qualities c = Some tb \<Longrightarrow>
   ndicts_incr i t q tb = Inr tb' \<Longrightarrow>
   add_base c i b (Some q) (Some t) =
     (c\<lparr>bases := bs, base_qualities := Some bq', tile_base_qualities := Some tb'\<rparr>, None)"
  unfolding add_base_def by simp

section \<open>Lemmas: the invariant\<close>

lemma new_collector_wf: "col_wf (new_collector q rx)"
  by (simp add: col_wf_def new_collector_def init_qualities_def track_tiles_def Let_def)

lemma init_qualities_wf:
  assumes wf: "col_wf c"
  shows "col_wf (init_qualities (c\<lparr>qualities := Some True\<rparr>))"
proof (cases "tile_key_regexp c = None")
  case True
  with wf show ?thesis by (simp add: col_wf_def init_qualities_def track_tiles_def)
next
  case False
  with wf show ?thesis by (simp add: col_wf_def init_qualities_def track_tiles_def)
qed

lemma col_wf_upd_bases: "col_wf c \<Longrightarrow> \<forall>d\<in>set bs. cd_wf d \<Longrightarrow> col_wf (c\<lparr>bases := bs\<rparr>)"
  by (simp add: col_wf_def track_tiles_def)

lemma col_wf_upd_bq:
  "col_wf c \<Longrightarrow> \<forall>d\<in>set bq. cd_wf d \<Longrightarrow> col_wf (c\<lparr>base_qualities := Some bq\<rparr>)"
  by (simp add: col_wf_def track_tiles_def)

lemma col_wf_upd_tb:
  "col_wf c \<Longrightarrow> \<forall>d\<in>set tb. nd_wf d \<Longrightarrow> col_wf (c\<lparr>tile_base_qualities := Some tb\<rparr>)"
  by (simp add: col_wf_def track_tiles_def)

lemma col_wf_upd_ts:
  "col_wf c \<Longrightarrow> nd_wf ts \<Longrightarrow> col_wf (c\<lparr>tile_sequence_qualities := Some ts\<rparr>)"
  by (simp add: col_wf_def track_tiles_def)

lemma col_wf_upd_sq:
  "col_wf c \<Longrightarrow> cd_wf sq \<Longrightarrow> col_wf (c\<lparr>sequence_qualities := Some sq\<rparr>)"
  by (simp add: col_wf_def track_tiles_def)

lemma col_wf_bases: "col_wf c \<Longrightarrow> \<forall>d\<in>set (bases c). cd_wf d"
  by (simp add: col_wf_def)

lemma col_wf_bq: "col_wf c \<Longrightarrow> base_qualities c = Some bq \<Longrightarrow> \<forall>d\<in>set bq. cd_wf d"
  by (simp add: col_wf_def)

lemma col_wf_tb: "col_wf c \<Longrightarrow> tile_base_qualities c = Some tb \<Longrightarrow> \<forall>d\<in>set tb. nd_wf d"
  by (simp add: col_wf_def)

lemma add_base_wf:
  assumes wf: "col_wf c"
  shows "col_wf (fst (add_base c i b qual tile))"
proof (cases "dicts_incr i b (bases c)")
  case (Inl e)
  show ?thesis using wf by (simp add: add_base_Inl [OF Inl])
next
  case (Inr bs)
  have "\<forall>d\<in>set bs. cd_wf d"
    using col_wf_bases [OF wf] Inr by (rule dicts_incr_wf)
  with wf have wf1: "col_wf (c\<lparr>bases := bs\<rparr>)" by (rule col_wf_upd_bases)
  show ?thesis
  proof (cases qual)
    case None
    with Inr wf1 show ?thesis by (simp add: add_base_no_qual)
  next
    case (Some q)
    show ?thesis
    proof (cases "base_qualities c")
      case None
      with Inr wf1 \<open>qual = Some q\<close> show ?thesis by (simp add: add_base_no_table)
    next
      case (Some bq)
      note bq = this
      show ?thesis
      proof (cases "dicts_incr i q bq")
        case (Inl e)
        with Inr wf1 \<open>qual = Some q\<close> bq show ?thesis by (simp add: add_base_qual_Inl)
      next
        case (Inr bq')
        have "\<forall>d\<in>set bq'. cd_wf d"
          using col_wf_bq [OF wf bq] Inr by (rule dicts_incr_wf)
        with wf1 have wf2: "col_wf (c\<lparr>bases := bs, base_qualities := Some bq'\<rparr>)"
          by (rule col_wf_upd_bq)
        show ?thesis
        proof (cases "tile = None \<or> tile = Some []")
          case True
          with \<open>dicts_incr i b (bases c) = Inr bs\<close> \<open>qual = Some q\<close> bq Inr wf2
          show ?thesis by (simp add: add_base_no_tile)
        next
          case False
          then obtain t where t: "tile = Some t" "t \<noteq> []" by auto
          show ?thesis
          proof (cases "tile_base_qualities c")
            case None
            with \<open>dicts_incr i b (bases c) = Inr bs\<close> \<open>qual = Some q\<close> bq Inr wf2 t
            show ?thesis by (simp add: add_base_tile_none)
          next
            case (Some tb)
            note tb = this
            show ?thesis
            proof (cases "ndicts_incr i t q tb")
              case (Inl e)
              with \<open>dicts_incr i b (bases c) = Inr bs\<close> \<open>qual = Some q\<close> bq
                \<open>dicts_incr i q bq = Inr bq'\<close> wf2 t tb
              show ?thesis by (simp add: add_base_tile_Inl)
            next
              case (Inr tb')
              have "\<forall>d\<in>set tb'. nd_wf d"
                using col_wf_tb [OF wf tb] Inr by (rule ndicts_incr_wf)
              with wf2 have "col_wf (c\<lparr>bases := bs, base_qualities := Some bq',
                                       tile_base_qualities := Some tb'\<rparr>)"
                by (rule col_wf_upd_tb)
              with \<open>dicts_incr i b (bases c) = Inr bs\<close> \<open>qual = Some q\<close> bq
                \<open>dicts_incr i q bq = Inr bq'\<close> t tb Inr
              show ?thesis by (simp add: add_base_tile_Inr)
            qed
          qed
        qed
      qed
    qed
  qed
qed

lemma extend_bases_wf:
  assumes wf: "col_wf c"
  shows "col_wf (fst (extend_bases c n))"
proof -
  let ?c1 = "c\<lparr>bases := extend_dicts n [] (bases c)\<rparr>"
  have wf1: "col_wf ?c1"
    using wf extend_dicts_all [OF cd_wf_Nil col_wf_bases [OF wf]] by (rule col_wf_upd_bases)
  have wf2: "col_wf (?c1\<lparr>base_qualities := Some (extend_dicts n [] bq)\<rparr>)"
    if "base_qualities c = Some bq" for bq
    using wf1 extend_dicts_all [OF cd_wf_Nil col_wf_bq [OF wf that]] by (rule col_wf_upd_bq)
  have wf3: "col_wf (?c1\<lparr>base_qualities := Some (extend_dicts n [] bq),
                           tile_base_qualities := Some (extend_dicts n [] tb)\<rparr>)"
    if "base_qualities c = Some bq" and "tile_base_qualities c = Some tb" for bq tb
    using wf2 [OF that(1)] extend_dicts_all [OF nd_wf_Nil col_wf_tb [OF wf that(2)]]
    by (rule col_wf_upd_tb)
  show ?thesis
  proof (cases "base_qualities c")
    case None
    with wf1 show ?thesis by (simp add: extend_bases_def Let_def)
  next
    case (Some bq)
    with wf1 wf2 [OF Some] wf3 [OF Some] show ?thesis
      by (cases "tile_base_qualities c") (simp_all add: extend_bases_def Let_def)
  qed
qed

lemma add_bases_wf: "col_wf c \<Longrightarrow> col_wf (fst (add_bases c i bqs tile))"
proof (induction c i bqs tile rule: add_bases.induct)
  case (1 c i tile)
  then show ?case by simp
next
  case (2 c i b q bqs tile)
  have "col_wf (fst (add_base c i b (Some q) tile))"
    using "2.prems" by (rule add_base_wf)
  then show ?case
    by (simp add: "2.IH" exc_bind_preserves [where P = col_wf])
qed

lemma col_wf_upd_counts:
  "col_wf c \<Longrightarrow> cd_wf l \<Longrightarrow> cd_wf g \<Longrightarrow>
   col_wf (c\<lparr>read_count := n, sequence_lengths := l, sequence_gc := g\<rparr>)"
  by (simp add: col_wf_def track_tiles_def)

lemma col_wf_sq: "col_wf c \<Longrightarrow> sequence_qualities c = Some sq \<Longrightarrow> cd_wf sq"
  by (simp add: col_wf_def)

lemma col_wf_ts: "col_wf c \<Longrightarrow> tile_sequence_qualities c = Some ts \<Longrightarrow> nd_wf ts"
  by (simp add: col_wf_def)

lemma collect_tile_wf:
  assumes wf: "col_wf c"
  shows "col_wf (fst (fst (collect_tile c r mq)))"
proof -
  have "col_wf (c\<lparr>tile_sequence_qualities := Some (nd_incr t mq ts)\<rparr>)"
    if "tile_sequence_qualities c = Some ts" for t ts
    using wf nd_wf_incr [OF col_wf_ts [OF wf that]] by (rule col_wf_upd_ts)
  with wf show ?thesis
    by (simp add: collect_tile_def split: option.split)
qed

lemma collect_quals_wf:
  assumes wf: "col_wf c"
  shows "col_wf (fst (collect_quals c r))"
proof (cases "\<exists>quals sq. read_qualities r = Some quals \<and> sequence_qualities c = Some sq")
  case False
  with wf show ?thesis by (auto simp: collect_quals_def Let_def split: option.split)
next
  case True
  then obtain quals sq where q: "read_qualities r = Some quals"
    and sq: "sequence_qualities c = Some sq" by blast
  let ?c1 = "c\<lparr>sequence_qualities := Some (cd_incr (mean_quality quals (length (sequence r))) sq)\<rparr>"
  have wf1: "col_wf ?c1"
    using wf cd_wf_incr [OF col_wf_sq [OF wf sq]] by (rule col_wf_upd_sq)
  then have wf2: "col_wf (fst (fst (collect_tile ?c1 r m)))" for m
    by (rule collect_tile_wf)
  obtain c' tile e where ct: "collect_tile ?c1 r (mean_quality quals (length (sequence r))) = ((c', tile), e)"
    by (metis prod.exhaust)
  with wf2 [of "mean_quality quals (length (sequence r))"] have "col_wf c'" by simp
  with ct q sq show ?thesis
    by (cases e) (simp_all add: collect_quals_def add_bases_wf)
qed

section \<open>Lemmas: what a successful call does\<close>

lemma add_base_frame: "pos_frame c (fst (add_base c i b qual tile))"
  unfolding add_base_def pos_frame_def
  by (auto simp: Let_def split: sum.split option.split)

lemma pos_frame_refl [simp]: "pos_frame c c"
  by (simp add: pos_frame_def)

lemma pos_frame_trans: "pos_frame c c' \<Longrightarrow> pos_frame c' c'' \<Longrightarrow> pos_frame c c''"
  by (simp add: pos_frame_def)

lemma add_base_ok:
  assumes r: "room c tile n" and i: "i < n"
  shows "\<exists>c'. add_base c i b (Some q) tile = (c', None) \<and> room c' tile n
           \<and> bases c' = (bases c)[i := cd_incr b (bases c ! i)]"
proof -
  from r obtain bq where bq: "base_qualities c = Some bq" and "n \<le> length bq"
    and nb: "n \<le> length (bases c)" by (auto simp: room_def split: option.splits)
  with i have b_ok: "dicts_incr i b (bases c) = Inr ((bases c)[i := cd_incr b (bases c ! i)])"
    and q_ok: "dicts_incr i q bq = Inr (bq[i := cd_incr q (bq ! i)])"
    by (simp_all add: dicts_incr_Inr)
  show ?thesis
  proof (cases "tile = None \<or> tile = Some []")
    case True
    with r bq show ?thesis
      by (auto simp: add_base_no_tile [OF b_ok bq q_ok] room_def)
  next
    case False
    then obtain t where t: "tile = Some t" "t \<noteq> []" by auto
    with r obtain tb where tb: "tile_base_qualities c = Some tb" and "n \<le> length tb"
      by (auto simp: room_def split: option.splits)
    with i have "ndicts_incr i t q tb = Inr (tb[i := nd_incr t q (tb ! i)])"
      by (simp add: ndicts_incr_Inr)
    with r bq t tb show ?thesis
      by (auto simp: add_base_tile_Inr [OF b_ok bq q_ok t(2) tb] room_def)
  qed
qed

lemma add_bases_frame: "pos_frame c (fst (add_bases c i bqs tile))"
proof (induction c i bqs tile rule: add_bases.induct)
  case (1 c i tile)
  then show ?case by simp
next
  case (2 c i b q bqs tile)
  show ?case
    using add_base_frame "2.IH" pos_frame_trans
    by (simp add: exc_bind_preserves [where P = "pos_frame c"])
qed

lemma add_bases_ok:
  assumes "col_wf c" and "room c tile (i + length bqs)"
  shows "\<exists>c'. add_bases c i bqs tile = (c', None) \<and> length (bases c') = length (bases c)
           \<and> (\<forall>j. pos_mset (bases c') j = pos_mset (bases c) j +
                 (if i \<le> j \<and> j < i + length bqs then {#fst (bqs ! (j - i))#} else {#}))"
  using assms
proof (induction bqs arbitrary: c i)
  case Nil
  then show ?case by simp
next
  case (Cons bq bqs)
  obtain b q where bq: "bq = (b, q)" by fastforce
  from Cons.prems(2) have "i < i + length (bq # bqs)" by simp
  with Cons.prems(2) obtain c1 where c1: "add_base c i b (Some q) tile = (c1, None)"
    and room1: "room c1 tile (i + length (bq # bqs))"
    and bases1: "bases c1 = (bases c)[i := cd_incr b (bases c ! i)]"
    using add_base_ok by blast
  have wf1: "col_wf c1" using add_base_wf [OF Cons.prems(1), of i b "Some q" tile] c1 by simp
  have ilen: "i < length (bases c)"
    using Cons.prems(2) by (simp add: room_def)
  from room1 have "room c1 tile (Suc i + length bqs)" by simp
  with Cons.IH [OF wf1] obtain c' where c': "add_bases c1 (Suc i) bqs tile = (c', None)"
    and len': "length (bases c') = length (bases c1)"
    and pos': "\<forall>j. pos_mset (bases c') j = pos_mset (bases c1) j +
                 (if Suc i \<le> j \<and> j < Suc i + length bqs then {#fst (bqs ! (j - Suc i))#} else {#})"
    by blast
  have pos1: "pos_mset (bases c1) j = pos_mset (bases c) j + (if j = i then {#b#} else {#})" for j
    unfolding bases1 using col_wf_bases [OF Cons.prems(1)] ilen by (rule pos_mset_incr)
  have "pos_mset (bases c') j = pos_mset (bases c) j +
          (if i \<le> j \<and> j < i + length (bq # bqs) then {#fst ((bq # bqs) ! (j - i))#} else {#})" for j
  proof (cases "j = i")
    case True
    then show ?thesis using pos' pos1 bq by simp
  next
    case False
    then have "i \<le> j \<longleftrightarrow> Suc i \<le> j" by auto
    moreover have "Suc i \<le> j \<Longrightarrow> (bq # bqs) ! (j - i) = bqs ! (j - Suc i)"
      by (simp add: Suc_diff_Suc [symmetric] del: Suc_diff_Suc)
    ultimately show ?thesis using pos' pos1 False by auto
  qed
  with c1 c' len' bases1 bq show ?case by simp
qed

lemma extend_bases_ok:
  assumes wf: "col_wf c" and q: "qualities c = Some True"
  shows "\<exists>c'. extend_bases c n = (c', None) \<and> pos_frame c c' \<and> col_wf c'
           \<and> bases c' = extend_dicts n [] (bases c)
           \<and> room c' None n \<and> (track_tiles c \<longrightarrow> (\<forall>t. room c' (Some t) n))"
proof -
  from wf q obtain bq where bq: "base_qualities c = Some bq" by (auto simp: col_wf_def)
  let ?c2 = "c\<lparr>bases := extend_dicts n [] (bases c), base_qualities := Some (extend_dicts n [] bq)\<rparr>"
  show ?thesis
  proof (cases "track_tiles c")
    case False
    then have "extend_bases c n = (?c2, None)"
      using q bq by (simp add: extend_bases_def Let_def track_tiles_def)
    with extend_bases_wf [OF wf, of n] False show ?thesis
      by (simp add: pos_frame_def room_def length_extend_dicts)
  next
    case True
    with wf obtain tb where tb: "tile_base_qualities c = Some tb" by (auto simp: col_wf_def)
    with True q bq have "extend_bases c n =
        (?c2\<lparr>tile_base_qualities := Some (extend_dicts n [] tb)\<rparr>, None)"
      by (simp add: extend_bases_def Let_def track_tiles_def)
    with extend_bases_wf [OF wf, of n] True show ?thesis
      by (simp add: pos_frame_def room_def length_extend_dicts)
  qed
qed

lemma collect_tile_off: "\<not> track_tiles c \<Longrightarrow> collect_tile c r mq = ((c, None), None)"
  by (simp add: collect_tile_def)

lemma collect_tile_ok:
  assumes wf: "col_wf c" and tt: "track_tiles c" and rx: "tile_key_regexp c = Some f"
    and m: "f (name r) = Some t"
  shows "\<exists>ts. collect_tile c r mq = ((c\<lparr>tile_sequence_qualities := Some ts\<rparr>, Some t), None)"
proof -
  from wf tt obtain ts where "tile_sequence_qualities c = Some ts" by (auto simp: col_wf_def)
  with tt rx m show ?thesis
    by (intro exI [of _ "nd_incr t mq ts"]) (simp add: collect_tile_def)
qed

lemma room_upd_ts [simp]: "room (c\<lparr>tile_sequence_qualities := x\<rparr>) tile n = room c tile n"
  unfolding room_def by (cases tile) simp_all

lemma room_upd_sq [simp]: "room (c\<lparr>sequence_qualities := x\<rparr>) tile n = room c tile n"
  unfolding room_def by (cases tile) simp_all

lemma track_tiles_upd [simp]:
  "track_tiles (c\<lparr>sequence_qualities := x\<rparr>) = track_tiles c"
  "track_tiles (c\<lparr>tile_sequence_qualities := y\<rparr>) = track_tiles c"
  by (simp_all add: track_tiles_def)

lemma add_bases_zip:
  assumes wf: "col_wf c" and rm: "room c tile (length seq)" and len: "length quals = length seq"
  shows "\<exists>c'. add_bases c 0 (zip seq quals) tile = (c', None) \<and> pos_frame c c' \<and> col_wf c'
           \<and> length (bases c') = length (bases c)
           \<and> (\<forall>j. pos_mset (bases c') j = pos_mset (bases c) j +
                 (if j < length seq then {#seq ! j#} else {#}))"
proof -
  from rm len have "room c tile (0 + length (zip seq quals))" by simp
  with add_bases_ok [OF wf] obtain c' where c': "add_bases c 0 (zip seq quals) tile = (c', None)"
    and "length (bases c') = length (bases c)"
    and "\<forall>j. pos_mset (bases c') j = pos_mset (bases c) j +
           (if 0 \<le> j \<and> j < 0 + length (zip seq quals) then {#fst (zip seq quals ! (j - 0))#} else {#})"
    by blast
  moreover have "pos_frame c c'" using add_bases_frame [of c 0 "zip seq quals" tile] c' by simp
  moreover have "col_wf c'" using add_bases_wf [OF wf, of 0 "zip seq quals" tile] c' by simp
  ultimately show ?thesis using len c' by auto
qed

lemma collect_quals_ok:
  assumes wf: "col_wf c" and q: "qualities c = Some True" and g: "good_read (tile_key_regexp c) r"
    and rm: "room c None (length (sequence r))"
    and rmt: "track_tiles c \<longrightarrow> (\<forall>t. room c (Some t) (length (sequence r)))"
  shows "\<exists>c'. collect_quals c r = (c', None) \<and> col_wf c'
           \<and> read_count c' = read_count c \<and> sequence_lengths c' = sequence_lengths c
           \<and> sequence_gc c' = sequence_gc c \<and> qualities c' = qualities c
           \<and> tile_key_regexp c' = tile_key_regexp c
           \<and> length (bases c') = length (bases c)
           \<and> (\<forall>j. pos_mset (bases c') j = pos_mset (bases c) j +
                 (if j < length (sequence r) then {#sequence r ! j#} else {#}))"
proof -
  from g obtain quals where quals: "read_qualities r = Some quals"
    and len: "length quals = length (sequence r)"
    by (auto simp: good_read_def split: option.splits)
  from wf q obtain sq where sq: "sequence_qualities c = Some sq" by (auto simp: col_wf_def)
  define mq where "mq = mean_quality quals (length (sequence r))"
  define c1 where "c1 = c\<lparr>sequence_qualities := Some (cd_incr mq sq)\<rparr>"
  have wf1: "col_wf c1"
    unfolding c1_def using wf cd_wf_incr [OF col_wf_sq [OF wf sq]] by (rule col_wf_upd_sq)
  have unf: "collect_quals c r =
      (case collect_tile c1 r mq of
         ((c', tile), None) \<Rightarrow> add_bases c' 0 (zip (sequence r) quals) tile
       | ((c', _), Some e) \<Rightarrow> (c', Some e))"
    by (simp add: collect_quals_def quals sq c1_def mq_def Let_def)
  obtain c2 tile where ct: "collect_tile c1 r mq = ((c2, tile), None)"
    and f2: "c2 = c1 \<or> (\<exists>ts. c2 = c1\<lparr>tile_sequence_qualities := Some ts\<rparr>)"
    and rm2: "room c2 tile (length (sequence r))"
  proof (cases "track_tiles c")
    case True
    with g obtain f t where rx: "tile_key_regexp c = Some f" and m: "f (name r) = Some t"
      by (auto simp: good_read_def track_tiles_def split: option.splits)
    have tt1: "track_tiles c1" using True by (simp add: c1_def)
    have rx1: "tile_key_regexp c1 = Some f" using rx by (simp add: c1_def)
    obtain ts
      where "collect_tile c1 r mq = ((c1\<lparr>tile_sequence_qualities := Some ts\<rparr>, Some t), None)"
      using collect_tile_ok [OF wf1 tt1 rx1 m] by blast
    moreover have "room (c1\<lparr>tile_sequence_qualities := Some ts\<rparr>) (Some t) (length (sequence r))"
      using rmt True by (simp add: c1_def)
    ultimately show ?thesis using that by blast
  next
    case False
    then have "collect_tile c1 r mq = ((c1, None), None)"
      by (simp add: collect_tile_off c1_def)
    with rm that show ?thesis by (simp add: c1_def)
  qed
  have wf2: "col_wf c2" using collect_tile_wf [OF wf1, of r mq] ct by simp
  from add_bases_zip [OF wf2 rm2 len] obtain c' where
    c': "add_bases c2 0 (zip (sequence r) quals) tile = (c', None)" and fr: "pos_frame c2 c'"
    and wf': "col_wf c'" and len': "length (bases c') = length (bases c2)"
    and pos': "\<forall>j. pos_mset (bases c') j = pos_mset (bases c2) j +
                 (if j < length (sequence r) then {#sequence r ! j#} else {#})"
    by blast
  have "bases c2 = bases c" and "read_count c2 = read_count c"
    and "sequence_lengths c2 = sequence_lengths c" and "sequence_gc c2 = sequence_gc c"
    and "qualities c2 = qualities c" and "tile_key_regexp c2 = tile_key_regexp c"
    using f2 by (auto simp: c1_def)
  with fr wf' len' pos' show ?thesis
    by (simp add: unf ct c' pos_frame_def)
qed

lemma collect_nonempty:
  "sequence r \<noteq> [] \<Longrightarrow>
   collect c r =
     exc_bind (if max_read_len (count_read (lazy_qualities c r) r) < length (sequence r)
               then extend_bases (count_read (lazy_qualities c r) r) (length (sequence r))
               else (count_read (lazy_qualities c r) r, None))
       (\<lambda>c3. if qualities c3 = Some True then collect_quals c3 r else (c3, Some UnboundLocalError))"
  by (simp add: collect_def Let_def)

lemma collect_empty:
  "sequence r = [] \<Longrightarrow> collect c r = (lazy_qualities c r, Some ZeroDivisionError)"
  by (simp add: collect_def)

lemma lazy_qualities_wf: "col_wf c \<Longrightarrow> col_wf (lazy_qualities c r)"
  by (simp add: lazy_qualities_def init_qualities_wf)

lemma count_read_wf: "col_wf c \<Longrightarrow> col_wf (count_read c r)"
  unfolding count_read_def
  by (rule col_wf_upd_counts) (simp_all add: col_wf_def cd_wf_incr)

lemma lazy_qualities_fields:
  "read_count (lazy_qualities c r) = read_count c"
  "sequence_lengths (lazy_qualities c r) = sequence_lengths c"
  "sequence_gc (lazy_qualities c r) = sequence_gc c"
  "bases (lazy_qualities c r) = bases c"
  "tile_key_regexp (lazy_qualities c r) = tile_key_regexp c"
  "max_read_len (lazy_qualities c r) = max_read_len c"
  by (simp_all add: lazy_qualities_def init_qualities_def)

lemma lazy_qualities_on:
  "qualities c \<noteq> Some False \<Longrightarrow> has_qualities r \<Longrightarrow> qualities (lazy_qualities c r) = Some True"
  by (cases "qualities c") (auto simp: lazy_qualities_def init_qualities_def)

lemma good_read_has_qualities: "good_read rx r \<Longrightarrow> has_qualities r"
  by (auto simp: good_read_def has_qualities_def split: option.splits)

lemma collect_good:
  assumes wf: "col_wf c" and q: "qualities c \<noteq> Some False"
    and g: "good_read (tile_key_regexp c) r"
  shows "\<exists>c'. collect c r = (c', None) \<and> col_wf c' \<and> qualities c' = Some True
           \<and> tile_key_regexp c' = tile_key_regexp c
           \<and> read_count c' = Suc (read_count c)
           \<and> sequence_lengths c' = cd_incr (length (sequence r)) (sequence_lengths c)
           \<and> sequence_gc c' = cd_incr (gc_percent (sequence r)) (sequence_gc c)
           \<and> length (bases c') = max (length (sequence r)) (length (bases c))
           \<and> (\<forall>j. pos_mset (bases c') j = pos_mset (bases c) j +
                 (if j < length (sequence r) then {#sequence r ! j#} else {#}))"
proof -
  have ne: "sequence r \<noteq> []" using g by (simp add: good_read_def)
  define c2 where "c2 = count_read (lazy_qualities c r) r"
  have wf2: "col_wf c2" unfolding c2_def by (intro count_read_wf lazy_qualities_wf wf)
  have q2: "qualities c2 = Some True"
    using lazy_qualities_on [OF q good_read_has_qualities [OF g]] by (simp add: c2_def count_read_def)
  have m2: "max_read_len c2 < length (sequence r)"
    using wf2 ne by (simp add: col_wf_def)
  have f2: "read_count c2 = Suc (read_count c)"
    "sequence_lengths c2 = cd_incr (length (sequence r)) (sequence_lengths c)"
    "sequence_gc c2 = cd_incr (gc_percent (sequence r)) (sequence_gc c)"
    "bases c2 = bases c" "tile_key_regexp c2 = tile_key_regexp c"
    by (simp_all add: c2_def count_read_def lazy_qualities_fields)
  obtain c3 where c3: "extend_bases c2 (length (sequence r)) = (c3, None)"
    and fr3: "pos_frame c2 c3" and wf3: "col_wf c3"
    and b3: "bases c3 = extend_dicts (length (sequence r)) [] (bases c2)"
    and rm3: "room c3 None (length (sequence r))"
    and rmt3: "track_tiles c2 \<longrightarrow> (\<forall>t. room c3 (Some t) (length (sequence r)))"
    using extend_bases_ok [OF wf2 q2, of "length (sequence r)"] by blast
  have q3: "qualities c3 = Some True" and rx3: "tile_key_regexp c3 = tile_key_regexp c"
    and tt3: "track_tiles c3 = track_tiles c2"
    using fr3 q2 f2 by (simp_all add: pos_frame_def track_tiles_def)
  have g3: "good_read (tile_key_regexp c3) r" using g rx3 by simp
  obtain c' where c': "collect_quals c3 r = (c', None)" and wf': "col_wf c'"
    and f': "read_count c' = read_count c3" "sequence_lengths c' = sequence_lengths c3"
      "sequence_gc c' = sequence_gc c3" "qualities c' = qualities c3"
      "tile_key_regexp c' = tile_key_regexp c3" "length (bases c') = length (bases c3)"
    and pos': "\<forall>j. pos_mset (bases c') j = pos_mset (bases c3) j +
                 (if j < length (sequence r) then {#sequence r ! j#} else {#})"
    using collect_quals_ok [OF wf3 q3 g3 rm3] rmt3 tt3 by (metis (no_types, lifting))
  have "collect c r = (c', None)"
    using collect_nonempty [OF ne] c3 c' q3 m2 by (simp add: c2_def)
  with wf' f' pos' fr3 f2 b3 q3 rx3 show ?thesis
    by (simp add: pos_frame_def pos_mset_extend length_extend_dicts max.commute)
qed

lemma collect_wf:
  assumes wf: "col_wf c"
  shows "col_wf (fst (collect c r))"
proof (cases "sequence r = []")
  case True
  with wf show ?thesis by (simp add: collect_empty lazy_qualities_wf)
next
  case False
  let ?c2 = "count_read (lazy_qualities c r) r"
  have wf2: "col_wf ?c2" using wf by (intro count_read_wf lazy_qualities_wf)
  have "col_wf (fst (if max_read_len ?c2 < length (sequence r)
                     then extend_bases ?c2 (length (sequence r)) else (?c2, None)))"
    using wf2 extend_bases_wf [OF wf2] by simp
  then show ?thesis
    by (simp add: collect_nonempty [OF False] exc_bind_preserves [where P = col_wf] collect_quals_wf)
qed

lemma column_Cons:
  "column j (r # rs) = (if j < length (sequence r) then [sequence r ! j] else []) @ column j rs"
  by (simp add: column_def)

lemma collect_all_good:
  assumes "col_wf c" and "qualities c \<noteq> Some False"
    and "\<forall>r\<in>set rs. good_read (tile_key_regexp c) r"
  shows "\<exists>c'. collect_all c rs = (c', None) \<and> col_wf c'
           \<and> read_count c' = read_count c + length rs
           \<and> cd_mset (sequence_lengths c') = cd_mset (sequence_lengths c) + mset (map read_len rs)
           \<and> cd_mset (sequence_gc c') = cd_mset (sequence_gc c) + mset (map (\<lambda>r. gc_percent (sequence r)) rs)
           \<and> length (bases c') = fold max (map read_len rs) (length (bases c))
           \<and> (\<forall>j. pos_mset (bases c') j = pos_mset (bases c) j + mset (column j rs))"
  using assms
proof (induction rs arbitrary: c)
  case Nil
  then show ?case by (simp add: column_def)
next
  case (Cons r rs)
  from Cons.prems obtain c1 where c1: "collect c r = (c1, None)" and wf1: "col_wf c1"
    and q1: "qualities c1 = Some True" and rx1: "tile_key_regexp c1 = tile_key_regexp c"
    and n1: "read_count c1 = Suc (read_count c)"
    and l1: "sequence_lengths c1 = cd_incr (length (sequence r)) (sequence_lengths c)"
    and g1: "sequence_gc c1 = cd_incr (gc_percent (sequence r)) (sequence_gc c)"
    and b1: "length (bases c1) = max (length (sequence r)) (length (bases c))"
    and p1: "\<forall>j. pos_mset (bases c1) j = pos_mset (bases c) j +
                 (if j < length (sequence r) then {#sequence r ! j#} else {#})"
    using collect_good [of c r] by auto
  have "\<forall>r\<in>set rs. good_read (tile_key_regexp c1) r" using Cons.prems(3) rx1 by simp
  moreover have "qualities c1 \<noteq> Some False" using q1 by simp
  ultimately obtain c' where c': "collect_all c1 rs = (c', None)" and wf': "col_wf c'"
    and n': "read_count c' = read_count c1 + length rs"
    and l': "cd_mset (sequence_lengths c') = cd_mset (sequence_lengths c1) + mset (map read_len rs)"
    and g': "cd_mset (sequence_gc c') = cd_mset (sequence_gc c1) + mset (map (\<lambda>r. gc_percent (sequence r)) rs)"
    and b': "length (bases c') = fold max (map read_len rs) (length (bases c1))"
    and p': "\<forall>j. pos_mset (bases c') j = pos_mset (bases c1) j + mset (column j rs)"
    using Cons.IH [OF wf1] by blast
  have wl: "cd_wf (sequence_lengths c)" and wg: "cd_wf (sequence_gc c)"
    using Cons.prems(1) by (simp_all add: col_wf_def)
  have rl: "read_len r = length (sequence r)" by (simp add: read_len_def)
  show ?case
    using c1 c' wf' n' n1 l' l1 g' g1 b' b1 p' p1 wl wg rl
    by (simp add: cd_mset_incr column_Cons max.commute)
qed

lemma gc_counts_le: "count_list xs a + count_list xs b \<le> length xs + (if a = b then count_list xs a else 0)"
  by (induction xs) auto

section \<open>Properties of ReadStatCollector\<close>

text \<open>C1. Collecting a stream of well-formed reads from a fresh collector returns
  normally, counts every read, and its length and GC distributions count exactly the
  reads' lengths and GC percentages (as multisets).\<close>

theorem collect_all_distributions:
  assumes "q \<noteq> Some False" and "\<forall>r\<in>set rs. good_read rx r"
  shows "\<exists>c. collect_all (new_collector q rx) rs = (c, None) \<and> read_count c = length rs
           \<and> cd_mset (sequence_lengths c) = mset (map read_len rs)
           \<and> cd_mset (sequence_gc c) = mset (map (\<lambda>r. gc_percent (sequence r)) rs)"
proof -
  have "qualities (new_collector q rx) \<noteq> Some False"
    and "tile_key_regexp (new_collector q rx) = rx"
    using assms(1) by (simp_all add: new_collector_def init_qualities_def Let_def)
  with collect_all_good [OF new_collector_wf] assms(2) show ?thesis
    by (fastforce simp: new_collector_def init_qualities_def Let_def)
qed

theorem collect_all_distributions_witness:
  "\<exists>c. collect_all (new_collector None None)
         [\<lparr>name = ''r1'', sequence = ''GGCA'', read_qualities = Some ''II5I'',
           merged = False, match_found = False\<rparr>] = (c, None)
       \<and> read_count c = 1
       \<and> cd_mset (sequence_gc c) = {#75#}"
  using collect_all_distributions [of None "[\<lparr>name = ''r1'', sequence = ''GGCA'',
      read_qualities = Some ''II5I'', merged = False, match_found = False\<rparr>]" None]
  by (simp add: good_read_def read_len_def gc_percent_def py_round_div_def) blast

text \<open>C15. On a stream of well-formed reads from a fresh collector, the per-position base
  tables are as long as the longest read, and the table at each position counts exactly
  the bases the reads have there.\<close>

theorem collect_all_positional:
  assumes "q \<noteq> Some False" and "\<forall>r\<in>set rs. good_read rx r"
  shows "\<exists>c. collect_all (new_collector q rx) rs = (c, None)
           \<and> length (bases c) = fold max (map read_len rs) 0
           \<and> (\<forall>j. pos_mset (bases c) j = mset (column j rs))"
proof -
  have "qualities (new_collector q rx) \<noteq> Some False"
    and "tile_key_regexp (new_collector q rx) = rx"
    and "bases (new_collector q rx) = []"
    using assms(1) by (simp_all add: new_collector_def init_qualities_def Let_def)
  with collect_all_good [OF new_collector_wf] assms(2) show ?thesis
    by (fastforce simp: pos_mset_Nil)
qed

theorem collect_all_positional_witness:
  "\<exists>c. collect_all (new_collector None None)
         [\<lparr>name = ''r1'', sequence = ''GGCA'', read_qualities = Some ''II5I'',
           merged = False, match_found = False\<rparr>,
          \<lparr>name = ''r2'', sequence = ''GT'', read_qualities = Some ''II'',
           merged = False, match_found = False\<rparr>] = (c, None)
       \<and> length (bases c) = 4 \<and> pos_mset (bases c) 1 = {#CHR ''G'', CHR ''T''#}"
proof -
  have "\<forall>r\<in>set [\<lparr>name = ''r1'', sequence = ''GGCA'', read_qualities = Some ''II5I'',
           merged = False, match_found = False\<rparr>,
          \<lparr>name = ''r2'', sequence = ''GT'', read_qualities = Some ''II'',
           merged = False, match_found = False\<rparr>]. good_read None r" by (simp add: good_read_def)
  from collect_all_positional [OF _ this, of None] obtain c where
    c: "collect_all (new_collector None None) [\<lparr>name = ''r1'', sequence = ''GGCA'', read_qualities = Some ''II5I'',
           merged = False, match_found = False\<rparr>,
          \<lparr>name = ''r2'', sequence = ''GT'', read_qualities = Some ''II'',
           merged = False, match_found = False\<rparr>] = (c, None)"
       "length (bases c) = fold max (map read_len [\<lparr>name = ''r1'', sequence = ''GGCA'', read_qualities = Some ''II5I'',
           merged = False, match_found = False\<rparr>,
          \<lparr>name = ''r2'', sequence = ''GT'', read_qualities = Some ''II'',
           merged = False, match_found = False\<rparr>]) 0"
       "pos_mset (bases c) 1 = mset (column 1 [\<lparr>name = ''r1'', sequence = ''GGCA'', read_qualities = Some ''II5I'',
           merged = False, match_found = False\<rparr>,
          \<lparr>name = ''r2'', sequence = ''GT'', read_qualities = Some ''II'',
           merged = False, match_found = False\<rparr>])"
    by blast
  then show ?thesis by (simp add: read_len_def column_def)
qed

text \<open>C16. When quality tracking is off (the constructor got a falsy non-None value, or
  it got None and the read has no quality string), collect raises UnboundLocalError on every
  non-empty read, after counting the read in the count, length and GC tables.\<close>

theorem collect_without_qualities:
  assumes "qualities c = Some False \<or> (qualities c = None \<and> \<not> has_qualities r)"
    and "sequence r \<noteq> []"
  shows "snd (collect c r) = Some UnboundLocalError \<and>
         read_count (fst (collect c r)) = Suc (read_count c) \<and>
         sequence_lengths (fst (collect c r)) = cd_incr (length (sequence r)) (sequence_lengths c) \<and>
         sequence_gc (fst (collect c r)) = cd_incr (gc_percent (sequence r)) (sequence_gc c)"
proof -
  have l: "lazy_qualities c r = c" using assms(1) by (auto simp: lazy_qualities_def)
  have q: "qualities c \<noteq> Some True" using assms(1) by auto
  show ?thesis
    using assms(2) q
    by (simp add: collect_nonempty l count_read_def extend_bases_def Let_def)
qed

theorem collect_without_qualities_witness:
  "snd (collect (new_collector (Some False) None)
          \<lparr>name = ''r1'', sequence = ''GGCA'', read_qualities = Some ''II5I'',
           merged = False, match_found = False\<rparr>) = Some UnboundLocalError \<and>
   read_count (fst (collect (new_collector (Some False) None)
          \<lparr>name = ''r1'', sequence = ''GGCA'', read_qualities = Some ''II5I'',
           merged = False, match_found = False\<rparr>)) = 1"
  using collect_without_qualities [of "new_collector (Some False) None"
      "\<lparr>name = ''r1'', sequence = ''GGCA'', read_qualities = Some ''II5I'',
        merged = False, match_found = False\<rparr>"]
  by (simp add: new_collector_def)

text \<open>C17. An empty read makes collect raise ZeroDivisionError (the GC percentage divides
  by the length) before any table is touched: the count and the distributions are
  unchanged.\<close>

theorem collect_empty_read:
  assumes "sequence r = []"
  shows "snd (collect c r) = Some ZeroDivisionError \<and>
         read_count (fst (collect c r)) = read_count c \<and>
         sequence_lengths (fst (collect c r)) = sequence_lengths c \<and>
         sequence_gc (fst (collect c r)) = sequence_gc c \<and> bases (fst (collect c r)) = bases c"
  using assms by (simp add: collect_empty lazy_qualities_fields)

theorem collect_empty_read_witness:
  "snd (collect (new_collector None None)
          \<lparr>name = ''r0'', sequence = [], read_qualities = Some [],
           merged = False, match_found = False\<rparr>) = Some ZeroDivisionError"
  using collect_empty_read [of "\<lparr>name = ''r0'', sequence = [], read_qualities = Some [],
      merged = False, match_found = False\<rparr>" "new_collector None None"]
  by simp

text \<open>C18. The GC percentage of any sequence is at most 100.\<close>

theorem gc_percent_le_100: "gc_percent s \<le> 100"
proof (cases "s = []")
  case True
  then show ?thesis by (simp add: gc_percent_def py_round_div_def)
next
  case False
  have "count_list s (CHR ''C'') + count_list s (CHR ''G'') \<le> length s"
    using gc_counts_le [of s "CHR ''C''" "CHR ''G''"] by simp
  then have "(count_list s (CHR ''C'') + count_list s (CHR ''G'')) * 100 \<le> 100 * length s"
    by simp
  with False show ?thesis unfolding gc_percent_def by (intro py_round_div_le) simp_all
qed

text \<open>C19. The mean quality collect records is the rounded mean of the raw character
  codes: for a quality string encoding Phred scores with offset 33 it lies within one half
  of the mean Phred score plus 33, not of the mean Phred score.\<close>

theorem mean_quality_raw_codes:
  assumes "ps \<noteq> []" and "\<forall>p\<in>set ps. p + 33 < 256"
  shows "\<bar>2 * int (length ps) * int (mean_quality (map (\<lambda>p. char_of (p + 33)) ps) (length ps))
           - 2 * int (sum_list ps) - 66 * int (length ps)\<bar> \<le> int (length ps)"
proof -
  have "(\<Sum>q\<leftarrow>map (\<lambda>p. char_of (p + 33)) ps. of_char q) = sum_list ps + 33 * length ps"
    using assms(2) by (induction ps) simp_all
  then have "mean_quality (map (\<lambda>p. char_of (p + 33)) ps) (length ps) =
             py_round_div (sum_list ps + 33 * length ps) (length ps)"
    by (simp add: mean_quality_def)
  moreover have "0 < length ps" using assms(1) by simp
  ultimately show ?thesis
    using py_round_div_nearest [of "length ps" "sum_list ps + 33 * length ps"]
    by (simp add: algebra_simps)
qed

theorem mean_quality_raw_codes_witness:
  "mean_quality (map (\<lambda>p. char_of (p + 33)) [40, 40, 20, 40::nat]) 4 = 68"
proof -
  have "\<bar>8 * int (mean_quality (map (\<lambda>p. char_of (p + 33)) [40, 40, 20, 40::nat]) 4) - 544\<bar> \<le> 4"
    using mean_quality_raw_codes [of "[40, 40, 20, 40]"] by (simp add: numeral_eq_Suc)
  then show ?thesis by simp
qed

text \<open>C20. A read whose name the tile pattern does not match makes collect raise
  ValueError part-way: the read is already counted in the count, length, GC and
  mean-quality tables when the exception leaves the method.\<close>

theorem collect_tile_mismatch:
  assumes wf: "col_wf c" and q: "qualities c = Some True" and rx: "tile_key_regexp c = Some f"
    and nm: "f (name r) = None" and ne: "sequence r \<noteq> []" and rq: "read_qualities r = Some quals"
  shows "\<exists>c' sq. collect c r = (c', Some ValueError) \<and> sequence_qualities c = Some sq \<and>
           read_count c' = Suc (read_count c) \<and>
           sequence_lengths c' = cd_incr (length (sequence r)) (sequence_lengths c) \<and>
           sequence_gc c' = cd_incr (gc_percent (sequence r)) (sequence_gc c) \<and>
           sequence_qualities c' = Some (cd_incr (mean_quality quals (length (sequence r))) sq)"
proof -
  let ?c2 = "count_read c r"
  have l: "lazy_qualities c r = c" using q by (simp add: lazy_qualities_def)
  have wf2: "col_wf ?c2" and q2: "qualities ?c2 = Some True"
    using count_read_wf [OF wf] q by (simp_all add: count_read_def)
  have m0: "max_read_len ?c2 < length (sequence r)"
    using wf ne by (simp add: col_wf_def count_read_def)
  obtain c3 where c3: "extend_bases ?c2 (length (sequence r)) = (c3, None)" "pos_frame ?c2 c3"
    "col_wf c3"
    using extend_bases_ok [OF wf2 q2] by blast
  from c3(3) q2 c3(2) obtain sq where sq: "sequence_qualities c3 = Some sq"
    by (auto simp: col_wf_def pos_frame_def)
  have tt: "track_tiles (c3\<lparr>sequence_qualities := Some (cd_incr (mean_quality quals (length (sequence r))) sq)\<rparr>)"
    using c3(2) q2 rx by (simp add: pos_frame_def track_tiles_def count_read_def)
  have q3: "qualities c3 = Some True" and rx3: "tile_key_regexp c3 = Some f"
    using c3(2) q2 rx by (simp_all add: pos_frame_def count_read_def)
  have "collect c r = (c3\<lparr>sequence_qualities := Some (cd_incr (mean_quality quals (length (sequence r))) sq)\<rparr>,
                       Some ValueError)"
    using ne m0 c3(1) q3 sq tt rx3 nm rq
    by (simp add: collect_nonempty l collect_quals_def collect_tile_def Let_def track_tiles_def)
  moreover have "sequence_qualities c = Some sq"
    using c3(2) sq by (simp add: pos_frame_def count_read_def)
  ultimately show ?thesis
    using c3(2) by (simp add: pos_frame_def count_read_def)
qed

theorem collect_tile_mismatch_witness:
  "snd (collect (new_collector (Some True) (Some (\<lambda>n. if n = ''t1'' then Some ''1'' else None)))
          \<lparr>name = ''r1'', sequence = ''GGCA'', read_qualities = Some ''II5I'',
           merged = False, match_found = False\<rparr>) = Some ValueError \<and>
   read_count (fst (collect (new_collector (Some True) (Some (\<lambda>n. if n = ''t1'' then Some ''1'' else None)))
          \<lparr>name = ''r1'', sequence = ''GGCA'', read_qualities = Some ''II5I'',
           merged = False, match_found = False\<rparr>)) = 1"
proof -
  let ?c = "new_collector (Some True) (Some (\<lambda>n. if n = ''t1'' then Some ''1'' else None))"
  let ?r = "\<lparr>name = ''r1'', sequence = ''GGCA'', read_qualities = Some ''II5I'',
             merged = False, match_found = False\<rparr>"
  have h1: "col_wf ?c" by (rule new_collector_wf)
  have h: "qualities ?c = Some True"
    "tile_key_regexp ?c = Some (\<lambda>n. if n = ''t1'' then Some ''1'' else None)"
    "(\<lambda>n. if n = ''t1'' then Some ''1'' else None) (name ?r) = None"
    "sequence ?r \<noteq> []" "read_qualities ?r = Some ''II5I''"
    by (simp_all add: new_collector_def init_qualities_def)
  from collect_tile_mismatch [OF h1 h] show ?thesis
    by (auto simp: new_collector_def init_qualities_def)
qed

text \<open>C22. The collector invariant holds after any stream of reads, also when a read
  raises part-way: distinct keys in every table, and the quality and tile tables present
  once their tracking is on.\<close>

theorem collect_all_invariant:
  assumes "col_wf c"
  shows "col_wf (fst (collect_all c rs))"
  using assms
proof (induction rs arbitrary: c)
  case Nil
  then show ?case by simp
next
  case (Cons r rs)
  then show ?case
    by (simp add: collect_wf exc_bind_preserves [where P = col_wf])
qed

theorem collect_all_invariant_witness:
  "col_wf (fst (collect_all (new_collector None None)
     [\<lparr>name = ''r0'', sequence = [], read_qualities = None, merged = False, match_found = False\<rparr>]))"
  using collect_all_invariant [OF new_collector_wf [of None None]] by blast

lemma underscore_attr_iff:
  "CHR ''_'' # x \<in> set collector_attrs \<longleftrightarrow>
     x \<in> {''cache'', ''init_qualities'', ''gc_pct'', ''total_bases'', ''extend_bases'', ''_getattr__'', ''_init__''}"
  by (auto simp: collector_attrs_def)

lemma getattr_chain_deep: "getattr_chain k (CHR ''_'' # CHR ''_'' # y) = Inl RecursionError"
proof (induction k arbitrary: y)
  case (Suc k)
  have "CHR ''_'' # CHR ''_'' # CHR ''_'' # y \<notin> set collector_attrs"
    by (simp add: collector_attrs_def)
  with Suc.IH [of "CHR ''_'' # y"] show ?case by simp
qed simp

text \<open>No name outside the five reaches an attribute: one underscore more gives a name
  that does not exist, two more give a name starting with \<open>__\<close> that is not a dunder.\<close>

lemma getattr_chain_unknown:
  assumes "\<not> ends_dunder attr"
    and "attr \<notin> {''total_bases'', ''gc_pct'', ''init_qualities'', ''extend_bases'', ''cache''}"
  shows "getattr_chain k attr = Inl RecursionError"
proof (cases k)
  case (Suc k1)
  have d: "attr \<noteq> ''_getattr__''" "attr \<noteq> ''_init__''" "attr \<noteq> ''getattr__''" "attr \<noteq> ''init__''"
    using assms(1) by (auto simp: ends_dunder_def)
  have one: "CHR ''_'' # attr \<notin> set collector_attrs"
    using assms(2) d by (simp add: underscore_attr_iff)
  have two: "getattr_chain k1 (CHR ''_'' # attr) = Inl RecursionError"
  proof (cases k1)
    case (Suc k2)
    have "CHR ''_'' # CHR ''_'' # attr \<notin> set collector_attrs"
      using d by (simp add: underscore_attr_iff)
    then show ?thesis using Suc by (simp add: getattr_chain_deep)
  qed simp
  show ?thesis using Suc one two by simp
qed simp

lemma getattr_total_bases_cache: "fst (getattr_total_bases cache c) = cache"
  by (simp add: getattr_total_bases_def cached_def total_bases_raw_def split: option.splits)

lemma gc_pct_raw_cache: "fst (gc_pct_raw cache c) = cache"
  using getattr_total_bases_cache [of cache c]
  by (simp add: gc_pct_raw_def split_beta split: sum.splits attr_val.splits)

text \<open>C23. __getattr__ never raises the ValueError written for a missing name: any name
  that is not cached, not one of the five that reach a method of the class and does not end
  in a double underscore makes the hasattr test recurse one underscore deeper each time
  until the recursion limit, whatever the depth left, and raises RecursionError. And a
  failing lookup caches nothing, so a derived value that raises (total_bases, gc_pct)
  raises again on every access.\<close>

theorem getattr_failures:
  "(map_of cache attr = None \<longrightarrow> \<not> ends_dunder attr \<longrightarrow>
      attr \<notin> {''total_bases'', ''gc_pct'', ''init_qualities'', ''extend_bases'', ''cache''} \<longrightarrow>
      collector_getattr depth cache c attr = Some ((cache, c), Inl RecursionError)) \<and>
   (collector_getattr depth cache c attr = Some ((cache', c'), Inl e) \<longrightarrow> cache' = cache \<and> c' = c)"
proof
  show "map_of cache attr = None \<longrightarrow> \<not> ends_dunder attr \<longrightarrow>
      attr \<notin> {''total_bases'', ''gc_pct'', ''init_qualities'', ''extend_bases'', ''cache''} \<longrightarrow>
      collector_getattr depth cache c attr = Some ((cache, c), Inl RecursionError)"
    using getattr_chain_unknown [of attr depth] by (simp add: collector_getattr_def)
  show "collector_getattr depth cache c attr = Some ((cache', c'), Inl e) \<longrightarrow> cache' = cache \<and> c' = c"
    using getattr_total_bases_cache [of cache c] gc_pct_raw_cache [of cache c]
    by (auto simp: collector_getattr_def cached_def split_beta
             split: option.splits sum.splits if_splits)
qed

theorem getattr_failures_witness:
  "collector_getattr 1000 [] (new_collector None None) ''mean'' = Some (([], new_collector None None), Inl RecursionError) \<and>
   collector_getattr 1000 [] (new_collector None None) ''gc_pct'' = Some (([], new_collector None None), Inl AttributeError)"
proof -
  have g: "collector_getattr 1000 [] (new_collector None None) ''gc_pct'' =
             Some (([], new_collector None None), Inl AttributeError)"
    by (simp add: collector_getattr_def ends_dunder_def numeral_eq_Suc collector_attrs_def gc_pct_raw_def
                  getattr_total_bases_def total_bases_raw_def cached_def)
  show ?thesis
    using getattr_failures [of "[]" "''mean''" 1000 "new_collector None None"] g
    by (simp add: ends_dunder_def)
qed

end
