(* ===== verification/Filters.thy ===== *)
theory Filters
  imports Seqio
begin

text \<open>
  \<open>src/atropos/commands/trim/filters.py\<close>: the discard predicates, the wrappers that
  apply them to single reads or read pairs and count discards, the factory that picks
  the wrapper, and the ordered chain \<open>Filters\<close>.

  A filter class is a value of \<open>filter_type\<close> (the chain is keyed by the class), a
  constructed filter object a value of \<open>filter_obj\<close>, and the positional arguments
  of the constructor a \<open>filter_arg\<close>: none, or one number (Python \<open>int\<close> or
  \<open>float\<close>, as an exact rational: the model does not round the float division of the
  N-content proportion). A wrapper is a record holding its filter, its policy and the
  counter \<open>filtered\<close>; the chain is an association list in insertion order, as the
  \<open>OrderedDict\<close> is: assigning an existing key replaces its wrapper in place.
\<close>

section \<open>Filter classes and objects\<close>

datatype filter_type =
    MergedReadFilter | TooShortReadFilter | TooLongReadFilter | NContentFilter
  | UntrimmedFilter | TrimmedFilter | NoFilter

datatype filter_arg = NoArgs | NumArg rat

text \<open>\<open>NContentF is_proportion cutoff\<close> keeps both attributes the constructor sets.\<close>

datatype filter_obj =
    MergedF | TooShortF rat | TooLongF rat | NContentF bool rat
  | UntrimmedF | TrimmedF | NoFilterF

fun filter_class :: "filter_obj \<Rightarrow> filter_type" where
  "filter_class MergedF = MergedReadFilter"
| "filter_class (TooShortF _) = TooShortReadFilter"
| "filter_class (TooLongF _) = TooLongReadFilter"
| "filter_class (NContentF _ _) = NContentFilter"
| "filter_class UntrimmedF = UntrimmedFilter"
| "filter_class TrimmedF = TrimmedFilter"
| "filter_class NoFilterF = NoFilter"

text \<open>\<open>filter_type(*args)\<close>: the constructors; a wrong number of arguments is a
  \<open>TypeError\<close>, a negative N cutoff fails the \<open>assert count >= 0\<close>.\<close>

fun make_filter :: "filter_type \<Rightarrow> filter_arg \<Rightarrow> py_error + filter_obj" where
  "make_filter MergedReadFilter NoArgs = Inr MergedF"
| "make_filter TooShortReadFilter (NumArg n) = Inr (TooShortF n)"
| "make_filter TooLongReadFilter (NumArg n) = Inr (TooLongF n)"
| "make_filter NContentFilter (NumArg c) =
     (if 0 \<le> c then Inr (NContentF (c < 1) c) else Inl AssertionError)"
| "make_filter UntrimmedFilter NoArgs = Inr UntrimmedF"
| "make_filter TrimmedFilter NoArgs = Inr TrimmedF"
| "make_filter NoFilter NoArgs = Inr NoFilterF"
| "make_filter _ _ = Inl TypeError"

text \<open>\<open>read.sequence.lower().count('n')\<close>.\<close>

definition n_count :: "string \<Rightarrow> nat" where
  "n_count seq = length (filter (\<lambda>x. x = CHR ''n'' \<or> x = CHR ''N'') seq)"

text \<open>\<open>__call__(read)\<close> of each filter class: \<open>True\<close> means discard.\<close>

fun filter_call :: "filter_obj \<Rightarrow> read \<Rightarrow> bool" where
  "filter_call MergedF r = merged r"
| "filter_call (TooShortF m) r = (of_nat (read_len r) < m)"
| "filter_call (TooLongF m) r = (of_nat (read_len r) > m)"
| "filter_call (NContentF is_proportion cutoff) r =
     (let n = n_count (sequence r)
      in if is_proportion then
           (if read_len r = 0 then False else of_nat n / of_nat (read_len r) > cutoff)
         else of_nat n > cutoff)"
| "filter_call UntrimmedF r = (\<not> match_found r)"
| "filter_call TrimmedF r = match_found r"
| "filter_call NoFilterF r = False"

text \<open>\<open>FilterWrapper.name\<close>: the class attribute \<open>name\<close> where the class has one,
  otherwise the class name.\<close>

fun filter_name :: "filter_obj \<Rightarrow> string" where
  "filter_name MergedF = ''MergedReadFilter''"
| "filter_name (TooShortF _) = ''too_short''"
| "filter_name (TooLongF _) = ''too_long''"
| "filter_name (NContentF _ _) = ''too_many_n''"
| "filter_name UntrimmedF = ''UntrimmedFilter''"
| "filter_name TrimmedF = ''TrimmedFilter''"
| "filter_name NoFilterF = ''NoFilter''"

section \<open>Wrappers\<close>

datatype wrap_kind = SingleWrapper | PairedWrapper int

record wrapper =
  wfilter :: filter_obj
  wkind :: wrap_kind
  filtered :: nat

text \<open>\<open>PairedWrapper._filter\<close> over any predicate \<open>p\<close>: the second mate is looked at
  only when exactly one more failure is needed, and a missing second mate
  (\<open>read2 is None\<close>) counts as a failure.\<close>

definition paired_decide :: "('r \<Rightarrow> bool) \<Rightarrow> int \<Rightarrow> 'r \<Rightarrow> 'r option \<Rightarrow> bool" where
  "paired_decide p min_affected r1 r2 =
     (let failures = (if p r1 then 1 else 0) :: int;
          failures' = (if min_affected - failures = 1 \<and>
                          (case r2 of None \<Rightarrow> True | Some r \<Rightarrow> p r)
                       then failures + 1 else failures)
      in min_affected \<le> failures')"

text \<open>\<open>_filter\<close> of the two wrapper classes; \<open>SingleWrapper\<close> looks at mate 1 only.\<close>

definition wrapper_filter :: "wrapper \<Rightarrow> read \<Rightarrow> read option \<Rightarrow> bool" where
  "wrapper_filter w r1 r2 =
     (case wkind w of
        SingleWrapper \<Rightarrow> filter_call (wfilter w) r1
      | PairedWrapper m \<Rightarrow> paired_decide (filter_call (wfilter w)) m r1 r2)"

text \<open>\<open>FilterWrapper.__call__\<close>: count the discard, return \<open>DISCARD\<close>/\<open>KEEP\<close>.\<close>

definition wrapper_call :: "wrapper \<Rightarrow> read \<Rightarrow> read option \<Rightarrow> wrapper \<times> bool" where
  "wrapper_call w r1 r2 =
     (if wrapper_filter w r1 r2 then (w\<lparr>filtered := Suc (filtered w)\<rparr>, True) else (w, False))"

definition single_wrapper :: "filter_obj \<Rightarrow> wrapper" where
  "single_wrapper f = \<lparr>wfilter = f, wkind = SingleWrapper, filtered = 0\<rparr>"

text \<open>\<open>PairedWrapper.__init__\<close>: only 1 and 2 are accepted.\<close>

definition paired_wrapper :: "filter_obj \<Rightarrow> int \<Rightarrow> py_error + wrapper" where
  "paired_wrapper f min_affected =
     (if min_affected \<notin> {1, 2} then Inl ValueError
      else Inr \<lparr>wfilter = f, wkind = PairedWrapper min_affected, filtered = 0\<rparr>)"

text \<open>\<open>summarize()\<close> of a wrapper: \<open>{records_filtered: filtered}\<close>.\<close>

definition wrapper_summary :: "wrapper \<Rightarrow> nat" where
  "wrapper_summary w = filtered w"

section \<open>FilterFactory\<close>

text \<open>The run's \<open>paired\<close> setting: not paired, \<open>"first"\<close> (legacy: mate 1 decides)
  or \<open>"both"\<close>.\<close>

datatype paired_mode = NotPaired | PairedFirst | PairedBoth

record filter_factory =
  factory_paired :: paired_mode
  factory_min_affected :: int

definition factory_call ::
  "filter_factory \<Rightarrow> filter_type \<Rightarrow> filter_arg \<Rightarrow> py_error + wrapper" where
  "factory_call fac ft arg =
     (case make_filter ft arg of
        Inl e \<Rightarrow> Inl e
      | Inr f \<Rightarrow>
          if factory_paired fac = PairedBoth then paired_wrapper f (factory_min_affected fac)
          else Inr (single_wrapper f))"

section \<open>The chain Filters\<close>

type_synonym chain = "(filter_type \<times> wrapper) list"

record filters =
  filters_list :: chain
  filter_factory :: filter_factory

definition new_filters :: "filter_factory \<Rightarrow> filters" where
  "new_filters fac = \<lparr>filters_list = [], filter_factory = fac\<rparr>"

text \<open>\<open>add_filter(filter_type, *args)\<close>: \<open>self.filters[filter_type] = ...\<close>.\<close>

definition add_filter :: "filters \<Rightarrow> filter_type \<Rightarrow> filter_arg \<Rightarrow> py_error + filters" where
  "add_filter fs ft arg =
     (case factory_call (filter_factory fs) ft arg of
        Inl e \<Rightarrow> Inl e
      | Inr w \<Rightarrow> Inr (fs\<lparr>filters_list := AList.update ft w (filters_list fs)\<rparr>))"

text \<open>The loop of \<open>filter(read1, read2)\<close>: call the wrappers in order until one
  discards; that wrapper's class is the destination, \<open>NoFilter\<close> if none does.\<close>

fun chain_filter :: "chain \<Rightarrow> read \<Rightarrow> read option \<Rightarrow> chain \<times> filter_type" where
  "chain_filter [] r1 r2 = ([], NoFilter)"
| "chain_filter ((k, w) # ws) r1 r2 =
     (let (w', d) = wrapper_call w r1 r2
      in if d then ((k, w') # ws, k)
         else (let (ws', dest) = chain_filter ws r1 r2 in ((k, w') # ws', dest)))"

definition filters_filter :: "filters \<Rightarrow> read \<Rightarrow> read option \<Rightarrow> filters \<times> filter_type" where
  "filters_filter fs r1 r2 =
     (let (ws, dest) = chain_filter (filters_list fs) r1 r2
      in (fs\<lparr>filters_list := ws\<rparr>, dest))"

definition filters_contains :: "filters \<Rightarrow> filter_type \<Rightarrow> bool" where
  "filters_contains fs ft \<longleftrightarrow> ft \<in> fst ` set (filters_list fs)"

definition filters_getitem :: "filters \<Rightarrow> filter_type \<Rightarrow> py_error + wrapper" where
  "filters_getitem fs ft = (case map_of (filters_list fs) ft of None \<Rightarrow> Inl KeyError | Some w \<Rightarrow> Inr w)"

text \<open>\<open>summarize()\<close>: \<open>dict((f.name, f.summarize()) for f in ...)\<close>; a later wrapper
  with the same name overwrites an earlier entry.\<close>

definition filters_summarize :: "filters \<Rightarrow> (string \<times> nat) list" where
  "filters_summarize fs =
     fold (\<lambda>(k, w) acc. AList.update (filter_name (wfilter w)) (wrapper_summary w) acc)
          (filters_list fs) []"

section \<open>The loop of filter() as a step relation\<close>

text \<open>The \<open>for\<close> loop of \<open>Filters.filter\<close> as a small-step machine: \<open>Loop i ws\<close> is
  about to call the \<open>i\<close>-th wrapper of the chain \<open>ws\<close>, \<open>Break ws k\<close> has left the
  loop by \<open>break\<close> with destination \<open>k\<close>, \<open>Done ws\<close> has run off its end.\<close>

datatype loop_state = Loop nat chain | Break chain filter_type | Done chain

inductive loop_step :: "read \<Rightarrow> read option \<Rightarrow> loop_state \<Rightarrow> loop_state \<Rightarrow> bool" where
  keep: "i < length ws \<Longrightarrow> \<not> wrapper_filter (snd (ws ! i)) r1 r2 \<Longrightarrow>
         loop_step r1 r2 (Loop i ws) (Loop (Suc i) ws)"
| discard: "i < length ws \<Longrightarrow> wrapper_filter (snd (ws ! i)) r1 r2 \<Longrightarrow>
         loop_step r1 r2 (Loop i ws)
           (Break (ws[i := (fst (ws ! i), fst (wrapper_call (snd (ws ! i)) r1 r2))]) (fst (ws ! i)))"
| exhausted: "length ws \<le> i \<Longrightarrow> loop_step r1 r2 (Loop i ws) (Done ws)"

fun loop_final :: "loop_state \<Rightarrow> bool" where
  "loop_final (Loop _ _) = False"
| "loop_final _ = True"

fun loop_result :: "loop_state \<Rightarrow> chain \<times> filter_type" where
  "loop_result (Break ws k) = (ws, k)"
| "loop_result (Done ws) = (ws, NoFilter)"
| "loop_result (Loop _ ws) = (ws, NoFilter)"

section \<open>Invariant and reference definitions\<close>

text \<open>The chain built by \<open>add_filter\<close>: its keys are distinct (an \<open>OrderedDict\<close>) and
  every wrapper is keyed by the class of its filter.\<close>

definition chain_ok :: "chain \<Rightarrow> bool" where
  "chain_ok ws \<longleftrightarrow> distinct (map fst ws) \<and> (\<forall>(k, w) \<in> set ws. filter_class (wfilter w) = k)"

definition counters :: "chain \<Rightarrow> nat" where
  "counters ws = (\<Sum>(k, w)\<leftarrow>ws. filtered w)"

text \<open>The counter of the wrapper keyed by a class, 0 for a class not in the chain.\<close>

definition filter_count :: "chain \<Rightarrow> filter_type \<Rightarrow> nat" where
  "filter_count ws k = (case map_of ws k of None \<Rightarrow> 0 | Some w \<Rightarrow> filtered w)"

text \<open>What the docstring of \<open>PairedWrapper\<close> promises, as a count: the mates that
  match the filter, a missing mate 2 counting as one.\<close>

definition paired_failures :: "('r \<Rightarrow> bool) \<Rightarrow> 'r \<Rightarrow> 'r option \<Rightarrow> int" where
  "paired_failures p r1 r2 =
     (if p r1 then 1 else 0) + (case r2 of None \<Rightarrow> 1 | Some r \<Rightarrow> if p r then 1 else 0)"

definition fires :: "read \<Rightarrow> read option \<Rightarrow> filter_type \<times> wrapper \<Rightarrow> bool" where
  "fires r1 r2 kw = wrapper_filter (snd kw) r1 r2"

text \<open>The docstring of \<open>Filters.filter\<close> as a list function: the wrappers before
  the first one that discards are passed, that one counts the read, the rest are
  not called.\<close>

definition first_discard :: "chain \<Rightarrow> read \<Rightarrow> read option \<Rightarrow> chain \<times> filter_type" where
  "first_discard ws r1 r2 =
     (case dropWhile (Not \<circ> fires r1 r2) ws of
        [] \<Rightarrow> (ws, NoFilter)
      | (k, w) # post \<Rightarrow>
          (takeWhile (Not \<circ> fires r1 r2) ws @ (k, w\<lparr>filtered := Suc (filtered w)\<rparr>) # post, k))"

section \<open>Evaluation rules\<close>

lemma wrapper_call_keep [simp]:
  "\<not> wrapper_filter w r1 r2 \<Longrightarrow> wrapper_call w r1 r2 = (w, False)"
  by (simp add: wrapper_call_def)

lemma wrapper_call_discard [simp]:
  "wrapper_filter w r1 r2 \<Longrightarrow> wrapper_call w r1 r2 = (w\<lparr>filtered := Suc (filtered w)\<rparr>, True)"
  by (simp add: wrapper_call_def)

lemma chain_filter_Cons_keep:
  "\<not> wrapper_filter w r1 r2 \<Longrightarrow>
   chain_filter ((k, w) # ws) r1 r2 = (let (ws', d) = chain_filter ws r1 r2 in ((k, w) # ws', d))"
  by simp

lemma chain_filter_Cons_discard:
  "wrapper_filter w r1 r2 \<Longrightarrow>
   chain_filter ((k, w) # ws) r1 r2 = ((k, w\<lparr>filtered := Suc (filtered w)\<rparr>) # ws, k)"
  by simp

lemma chain_filter_keep_fst [simp]:
  "\<not> wrapper_filter w r1 r2 \<Longrightarrow>
   fst (chain_filter ((k, w) # ws) r1 r2) = (k, w) # fst (chain_filter ws r1 r2)"
  by (simp add: split_beta)

lemma chain_filter_keep_snd [simp]:
  "\<not> wrapper_filter w r1 r2 \<Longrightarrow> snd (chain_filter ((k, w) # ws) r1 r2) = snd (chain_filter ws r1 r2)"
  by (simp add: split_beta)

declare chain_filter.simps(2) [simp del]

subsection \<open>The loop relation\<close>

lemma loop_final_stuck: "loop_final s \<Longrightarrow> \<not> loop_step r1 r2 s s'"
  by (auto elim: loop_step.cases)

lemma loop_final_no_step: "(loop_step r1 r2)\<^sup>*\<^sup>* s s' \<Longrightarrow> loop_final s \<Longrightarrow> s' = s"
  by (erule converse_rtranclpE) (auto dest: loop_final_stuck)

inductive_cases loop_step_LoopE: "loop_step r1 r2 (Loop i ws) s"

lemma chain_filter_drop_keep:
  assumes "i < length ws" and "\<not> wrapper_filter (snd (ws ! i)) r1 r2"
  shows "(let (ws', d) = chain_filter (drop i ws) r1 r2 in (take i ws @ ws', d)) =
         (let (ws', d) = chain_filter (drop (Suc i) ws) r1 r2 in (take (Suc i) ws @ ws', d))"
proof -
  obtain k w where kw: "ws ! i = (k, w)" by (cases "ws ! i")
  have "drop i ws = (k, w) # drop (Suc i) ws"
    using assms(1) kw by (metis Cons_nth_drop_Suc)
  moreover have "take (Suc i) ws = take i ws @ [(k, w)]"
    using assms(1) kw by (simp add: take_Suc_conv_app_nth)
  ultimately show ?thesis
    using assms(2) kw by (simp add: chain_filter_Cons_keep split: prod.splits)
qed

lemma chain_filter_drop_discard:
  assumes "i < length ws" and "wrapper_filter (snd (ws ! i)) r1 r2"
  shows "(let (ws', d) = chain_filter (drop i ws) r1 r2 in (take i ws @ ws', d)) =
         (ws[i := (fst (ws ! i), fst (wrapper_call (snd (ws ! i)) r1 r2))], fst (ws ! i))"
proof -
  obtain k w where kw: "ws ! i = (k, w)" by (cases "ws ! i")
  have "drop i ws = (k, w) # drop (Suc i) ws"
    using assms(1) kw by (metis Cons_nth_drop_Suc)
  then show ?thesis
    using assms kw by (simp add: chain_filter_Cons_discard upd_conv_take_nth_drop)
qed

lemma loop_step_chain_filter:
  assumes "(loop_step r1 r2)\<^sup>*\<^sup>* s0 s" and "loop_final s"
  shows "\<forall>i ws. s0 = Loop i ws \<longrightarrow> i \<le> length ws \<longrightarrow>
    loop_result s = (let (ws', d) = chain_filter (drop i ws) r1 r2 in (take i ws @ ws', d))"
  using assms
proof (induction rule: converse_rtranclp_induct)
  case base
  then show ?case by (cases s) simp_all
next
  case (step x y)
  show ?case
  proof (intro allI impI)
    fix i ws assume x: "x = Loop i ws" and le: "i \<le> length ws"
    from step.hyps(1) [unfolded x]
    show "loop_result s = (let (ws', d) = chain_filter (drop i ws) r1 r2 in (take i ws @ ws', d))"
    proof (cases rule: loop_step_LoopE [consumes 1, case_names keep discard exhausted])
      case keep
      with step.IH step.prems have "loop_result s =
        (let (ws', d) = chain_filter (drop (Suc i) ws) r1 r2 in (take (Suc i) ws @ ws', d))"
        by simp
      with keep chain_filter_drop_keep [of i ws r1 r2] show ?thesis by simp
    next
      case discard
      with step.hyps(2) step.prems have "s = y" by (simp add: loop_final_no_step)
      with discard show ?thesis by (simp add: chain_filter_drop_discard)
    next
      case exhausted
      with step.hyps(2) step.prems have "s = y" by (simp add: loop_final_no_step)
      with exhausted le show ?thesis by simp
    qed
  qed
qed

lemma loop_terminates:
  "i \<le> length ws \<Longrightarrow> \<exists>s. (loop_step r1 r2)\<^sup>*\<^sup>* (Loop i ws) s \<and> loop_final s"
proof (induction i rule: inc_induct)
  case base
  have "loop_step r1 r2 (Loop (length ws) ws) (Done ws)" by (rule exhausted) simp
  then show ?case by (intro exI [of _ "Done ws"]) simp
next
  case (step n)
  show ?case
  proof (cases "wrapper_filter (snd (ws ! n)) r1 r2")
    case True
    with step.hyps(2) have "loop_step r1 r2 (Loop n ws)
      (Break (ws[n := (fst (ws ! n), fst (wrapper_call (snd (ws ! n)) r1 r2))]) (fst (ws ! n)))"
      by (rule discard)
    then show ?thesis by (metis r_into_rtranclp loop_final.simps(2))
  next
    case False
    with step.hyps(2) have "loop_step r1 r2 (Loop n ws) (Loop (Suc n) ws)" by (rule keep)
    with step.IH show ?thesis by (meson converse_rtranclp_into_rtranclp)
  qed
qed

subsection \<open>Construction\<close>

lemma make_filter_class: "make_filter ft arg = Inr f \<Longrightarrow> filter_class f = ft"
  by (cases "(ft, arg)" rule: make_filter.cases) (auto split: if_splits)

lemma factory_call_class:
  "factory_call fac ft arg = Inr w \<Longrightarrow> filter_class (wfilter w) = ft \<and> filtered w = 0"
  by (auto simp: factory_call_def paired_wrapper_def single_wrapper_def make_filter_class
           split: sum.splits if_splits)

lemma add_filter_Inr:
  "add_filter fs ft arg = Inr fs' \<longleftrightarrow>
   (\<exists>w. factory_call (filter_factory fs) ft arg = Inr w \<and>
        fs' = fs\<lparr>filters_list := AList.update ft w (filters_list fs)\<rparr>)"
  by (auto simp: add_filter_def split: sum.splits)

lemma chain_ok_update:
  "chain_ok ws \<Longrightarrow> filter_class (wfilter w) = k \<Longrightarrow> chain_ok (AList.update k w ws)"
  unfolding chain_ok_def
  using set_update_subset [of k w ws] by (fastforce simp: distinct_update)

subsection \<open>Counters and summary\<close>

lemma counters_Cons [simp]: "counters ((k, w) # ws) = filtered w + counters ws"
  by (simp add: counters_def)

lemma filter_name_class: "filter_name f = filter_name g \<longleftrightarrow> filter_class f = filter_class g"
  by (cases f; cases g) simp_all

lemma summarize_fold:
  "map_of (fold (\<lambda>(k, w) acc. AList.update (filter_name (wfilter w)) (wrapper_summary w) acc) ws acc) =
   map_of acc ++ map_of (rev (map (\<lambda>(k, w). (filter_name (wfilter w), filtered w)) ws))"
proof (induction ws arbitrary: acc)
  case Nil
  show ?case by simp
next
  case (Cons kw ws)
  obtain k w where kw: "kw = (k, w)" by (cases kw)
  have "(map_of acc)(filter_name (wfilter w) \<mapsto> filtered w) =
        map_of acc ++ [filter_name (wfilter w) \<mapsto> filtered w]" by simp
  then show ?case
    by (simp add: kw Cons.IH [unfolded wrapper_summary_def] update_conv' wrapper_summary_def map_add_assoc fun_upd_def)
qed

lemma chain_ok_names:
  "chain_ok ws \<Longrightarrow> distinct (map (\<lambda>(k, w). filter_name (wfilter w)) ws)"
  unfolding chain_ok_def
  by (induction ws) (force simp: filter_name_class)+

lemma filter_count_Cons:
  "filter_count ((k, w) # ws) k' = (if k' = k then filtered w else filter_count ws k')"
  by (simp add: filter_count_def)

lemma chain_filter_per_key:
  assumes "distinct (map fst ws)" and "NoFilter \<notin> set (map fst ws)"
  shows "map fst (fst (chain_filter ws r1 r2)) = map fst ws \<and>
         (\<forall>k. k \<noteq> NoFilter \<longrightarrow> filter_count (fst (chain_filter ws r1 r2)) k =
               filter_count ws k + (if snd (chain_filter ws r1 r2) = k then 1 else 0)) \<and>
         counters (fst (chain_filter ws r1 r2)) =
           counters ws + (if snd (chain_filter ws r1 r2) = NoFilter then 0 else 1) \<and>
         (snd (chain_filter ws r1 r2) = NoFilter \<or> snd (chain_filter ws r1 r2) \<in> set (map fst ws))"
  using assms
proof (induction ws)
  case Nil
  show ?case by (simp add: filter_count_def)
next
  case (Cons kw ws)
  obtain k w where kw: "kw = (k, w)" by (cases kw)
  have k: "k \<noteq> NoFilter" "k \<notin> set (map fst ws)" using Cons.prems kw by auto
  show ?case
  proof (cases "wrapper_filter w r1 r2")
    case True
    with k show ?thesis by (simp add: kw chain_filter_Cons_discard filter_count_def)
  next
    case False
    obtain ws' d where cf: "chain_filter ws r1 r2 = (ws', d)" by (cases "chain_filter ws r1 r2")
    from Cons.IH Cons.prems k cf have ih: "map fst ws' = map fst ws"
      "\<forall>k'. k' \<noteq> NoFilter \<longrightarrow> filter_count ws' k' = filter_count ws k' + (if d = k' then 1 else 0)"
      "counters ws' = counters ws + (if d = NoFilter then 0 else 1)"
      "d = NoFilter \<or> d \<in> set (map fst ws)"
      by (simp_all add: kw)
    have "d \<noteq> k" using ih(4) k by auto
    with False ih cf show ?thesis by (simp add: kw filter_count_Cons)
  qed
qed

section \<open>Properties of the filters\<close>

text \<open>C2. Filters.filter runs the wrappers in insertion order and stops at the first that discards: the result is the first discarding wrapper's class with only that wrapper's counter incremented, or NoFilter with the chain unchanged when none discards.\<close>

theorem filter_first_match: "chain_filter ws r1 r2 = first_discard ws r1 r2"
proof (induction ws)
  case Nil
  show ?case by (simp add: first_discard_def)
next
  case (Cons kw ws)
  obtain k w where kw: "kw = (k, w)" by (cases kw)
  show ?case
  proof (cases "wrapper_filter w r1 r2")
    case True
    then show ?thesis by (simp add: kw chain_filter_Cons_discard first_discard_def fires_def)
  next
    case False
    then show ?thesis
      using Cons.IH
      by (cases "dropWhile (Not \<circ> fires r1 r2) ws")
         (simp_all add: kw chain_filter_Cons_keep first_discard_def fires_def del: dropWhile_eq_Nil_conv split: prod.splits)
  qed
qed

text \<open>C3. The loop of Filters.filter, run as a small-step machine, always reaches a final state (break or end of the chain), and every final state it reaches carries the updated chain and destination computed by the functional model.\<close>

theorem filter_loop_refines:
  "(\<exists>s. (loop_step r1 r2)\<^sup>*\<^sup>* (Loop 0 ws) s \<and> loop_final s) \<and>
   (\<forall>s. (loop_step r1 r2)\<^sup>*\<^sup>* (Loop 0 ws) s \<and> loop_final s \<longrightarrow>
        loop_result s = chain_filter ws r1 r2)"
  using loop_terminates [of 0 ws r1 r2] loop_step_chain_filter [of r1 r2 "Loop 0 ws"]
  by (auto simp: split_beta)

theorem filter_loop_refines_witness:
  "\<exists>s. (loop_step \<lparr>name = ''r'', sequence = ''ACGTN'', read_qualities = None, merged = False, match_found = False\<rparr> None)\<^sup>*\<^sup>*
         (Loop 0 [(TooShortReadFilter, single_wrapper (TooShortF 10)), (NoFilter, single_wrapper NoFilterF)]) s \<and>
       loop_final s \<and>
       loop_result s =
         ([(TooShortReadFilter, \<lparr>wfilter = TooShortF 10, wkind = SingleWrapper, filtered = 1\<rparr>),
           (NoFilter, single_wrapper NoFilterF)], TooShortReadFilter)"
proof -
  let ?ws = "[(TooShortReadFilter, single_wrapper (TooShortF 10)), (NoFilter, single_wrapper NoFilterF)]"
  obtain s where s: "(loop_step \<lparr>name = ''r'', sequence = ''ACGTN'', read_qualities = None, merged = False, match_found = False\<rparr> None)\<^sup>*\<^sup>* (Loop 0 ?ws) s" "loop_final s"
    and res: "loop_result s = chain_filter ?ws \<lparr>name = ''r'', sequence = ''ACGTN'', read_qualities = None, merged = False, match_found = False\<rparr> None"
    using filter_loop_refines [of "\<lparr>name = ''r'', sequence = ''ACGTN'', read_qualities = None, merged = False, match_found = False\<rparr>" None ?ws] by blast
  have "chain_filter ?ws \<lparr>name = ''r'', sequence = ''ACGTN'', read_qualities = None, merged = False, match_found = False\<rparr> None =
          ([(TooShortReadFilter, \<lparr>wfilter = TooShortF 10, wkind = SingleWrapper, filtered = 1\<rparr>),
            (NoFilter, single_wrapper NoFilterF)], TooShortReadFilter)"
    by (simp add: chain_filter.simps wrapper_filter_def single_wrapper_def read_len_def)
  with s res show ?thesis by auto
qed

text \<open>C4. For min_affected 1 or 2, PairedWrapper._filter discards the pair exactly when at least min_affected mates match the filter, where a missing mate 2 counts as matching.\<close>

theorem paired_policy:
  "min_affected \<in> {1, 2} \<Longrightarrow>
   paired_decide p min_affected r1 r2 = (min_affected \<le> paired_failures p r1 r2)"
  by (auto simp: paired_decide_def paired_failures_def split: option.splits)

theorem paired_policy_witness:
  "(2::int) \<in> {1, 2} \<and> paired_failures (filter_call (TooShortF 10)) \<lparr>name = ''r'', sequence = ''ACGTN'', read_qualities = None, merged = False, match_found = False\<rparr> (Some \<lparr>name = ''r'', sequence = ''ACGTACGTACGT'', read_qualities = None, merged = False, match_found = False\<rparr>) = 1 \<and>
   \<not> paired_decide (filter_call (TooShortF 10)) 2 \<lparr>name = ''r'', sequence = ''ACGTN'', read_qualities = None, merged = False, match_found = False\<rparr> (Some \<lparr>name = ''r'', sequence = ''ACGTACGTACGT'', read_qualities = None, merged = False, match_found = False\<rparr>)"
  using paired_policy [of 2 "filter_call (TooShortF 10)" "\<lparr>name = ''r'', sequence = ''ACGTN'', read_qualities = None, merged = False, match_found = False\<rparr>" "Some \<lparr>name = ''r'', sequence = ''ACGTACGTACGT'', read_qualities = None, merged = False, match_found = False\<rparr>"]
  by (simp add: paired_failures_def read_len_def)

text \<open>C6. add_filter keeps the chain well formed (distinct keys, each wrapper keyed by its filter's class) and its factory; a new class is appended at the end, a class already present keeps its position, and its new wrapper starts with a zero counter.\<close>

theorem add_filter_invariant:
  assumes "chain_ok (filters_list fs)" and "add_filter fs ft arg = Inr fs'"
  shows "chain_ok (filters_list fs') \<and> filter_factory fs' = filter_factory fs \<and>
         map fst (filters_list fs') =
           (if ft \<in> set (map fst (filters_list fs)) then map fst (filters_list fs)
            else map fst (filters_list fs) @ [ft]) \<and>
         (\<exists>w. map_of (filters_list fs') ft = Some w \<and> filtered w = 0)"
proof -
  obtain w where w: "factory_call (filter_factory fs) ft arg = Inr w"
    and fs': "fs' = fs\<lparr>filters_list := AList.update ft w (filters_list fs)\<rparr>"
    using assms(2) by (auto simp: add_filter_Inr)
  have "filter_class (wfilter w) = ft" "filtered w = 0" using factory_call_class [OF w] by auto
  then show ?thesis
    using assms(1) by (simp add: fs' chain_ok_update update_keys update_conv')
qed

theorem add_filter_invariant_witness:
  "\<exists>fs'. add_filter (new_filters \<lparr>factory_paired = PairedBoth, factory_min_affected = 2\<rparr>)
                   TooShortReadFilter (NumArg 10) = Inr fs' \<and>
         chain_ok (filters_list fs') \<and> map fst (filters_list fs') = [TooShortReadFilter]"
proof -
  let ?fs = "new_filters \<lparr>factory_paired = PairedBoth, factory_min_affected = 2\<rparr>"
  let ?w = "\<lparr>wfilter = TooShortF 10, wkind = PairedWrapper 2, filtered = 0\<rparr>"
  have add: "add_filter ?fs TooShortReadFilter (NumArg 10) =
               Inr (?fs\<lparr>filters_list := [(TooShortReadFilter, ?w)]\<rparr>)"
    by (simp add: add_filter_def factory_call_def paired_wrapper_def new_filters_def)
  have "chain_ok (filters_list ?fs)" by (simp add: new_filters_def chain_ok_def)
  from add_filter_invariant [OF this add] add show ?thesis by (auto simp: new_filters_def)
qed

text \<open>C7. add_filter raises exactly the constructor's error (TypeError for a wrong argument list, AssertionError for a negative N cutoff), or ValueError when the factory pairs both mates and min_affected is not 1 or 2.\<close>

theorem add_filter_errors:
  "add_filter fs ft arg = Inl e \<longleftrightarrow>
   make_filter ft arg = Inl e \<or>
   (\<exists>f. make_filter ft arg = Inr f) \<and> factory_paired (filter_factory fs) = PairedBoth \<and>
     factory_min_affected (filter_factory fs) \<notin> {1, 2} \<and> e = ValueError"
  by (auto simp: add_filter_def factory_call_def paired_wrapper_def split: sum.splits)

text \<open>C8. NContentFilter with cutoff c below 1 discards a non-empty read whose proportion of N/n exceeds c (an empty read is kept); with c at least 1 it discards a read with more than c Ns.\<close>

theorem ncontent_semantics:
  assumes "make_filter NContentFilter (NumArg c) = Inr f"
  shows "filter_call f r \<longleftrightarrow>
         (if c < 1 then 0 < read_len r \<and> c * of_nat (read_len r) < of_nat (n_count (sequence r))
          else c < of_nat (n_count (sequence r)))"
proof -
  have f: "f = NContentF (c < 1) c" using assms by (simp split: if_splits)
  show ?thesis
  proof (cases "read_len r = 0")
    case True
    then show ?thesis by (simp add: f)
  next
    case False
    then have "0 < (of_nat (read_len r) :: rat)" by simp
    then show ?thesis by (simp add: f Let_def pos_less_divide_eq False)
  qed
qed

theorem ncontent_semantics_witness:
  "filter_call (NContentF True (1/10)) \<lparr>name = ''r'', sequence = ''ACGTNNACGT'', read_qualities = None, merged = False, match_found = False\<rparr> \<and>
   \<not> filter_call (NContentF False 1) \<lparr>name = ''r'', sequence = ''ACGTNACG'', read_qualities = None, merged = False, match_found = False\<rparr> \<and> filter_call (NContentF False 1) \<lparr>name = ''r'', sequence = ''ACNTNACG'', read_qualities = None, merged = False, match_found = False\<rparr>"
proof -
  have a: "make_filter NContentFilter (NumArg (1/10)) = Inr (NContentF True (1/10))" by simp
  have b: "make_filter NContentFilter (NumArg 1) = Inr (NContentF False 1)" by simp
  show ?thesis
    using ncontent_semantics [OF a, of "\<lparr>name = ''r'', sequence = ''ACGTNNACGT'', read_qualities = None, merged = False, match_found = False\<rparr>"] ncontent_semantics [OF b, of "\<lparr>name = ''r'', sequence = ''ACGTNACG'', read_qualities = None, merged = False, match_found = False\<rparr>"]
          ncontent_semantics [OF b, of "\<lparr>name = ''r'', sequence = ''ACNTNACG'', read_qualities = None, merged = False, match_found = False\<rparr>"]
    by (simp add: n_count_def read_len_def)
qed

text \<open>C9. A call of Filters.filter keeps the chain's classes and filters in place and raises the sum of the counters by one exactly when some wrapper discards the read.\<close>

theorem chain_filter_counters:
  "map fst (fst (chain_filter ws r1 r2)) = map fst ws \<and>
   map (wfilter \<circ> snd) (fst (chain_filter ws r1 r2)) = map (wfilter \<circ> snd) ws \<and>
   counters (fst (chain_filter ws r1 r2)) =
     counters ws + (if \<exists>kw \<in> set ws. wrapper_filter (snd kw) r1 r2 then 1 else 0)"
proof (induction ws)
  case Nil
  show ?case by simp
next
  case (Cons kw ws)
  obtain k w where kw: "kw = (k, w)" by (cases kw)
  show ?case
  proof (cases "wrapper_filter w r1 r2")
    case True
    then show ?thesis by (simp add: kw chain_filter_Cons_discard)
  next
    case False
    with Cons.IH show ?thesis by (simp add: kw)
  qed
qed

text \<open>C10. On a well-formed chain, Filters.summarize reports every wrapper's counter under its filter's name.\<close>

theorem summarize_counts:
  assumes "chain_ok (filters_list fs)" and "(k, w) \<in> set (filters_list fs)"
  shows "map_of (filters_summarize fs) (filter_name (wfilter w)) = Some (filtered w)"
proof -
  let ?xs = "map (\<lambda>(k, w). (filter_name (wfilter w), filtered w)) (filters_list fs)"
  have "distinct (map fst ?xs)"
    using chain_ok_names [OF assms(1)] by (simp add: split_def comp_def)
  then have "distinct (map fst (rev ?xs))" by (simp add: rev_map [symmetric])
  moreover have "(filter_name (wfilter w), filtered w) \<in> set (rev ?xs)" using assms(2) by force
  ultimately show ?thesis
    by (simp add: filters_summarize_def summarize_fold map_of_eq_Some_iff del: set_rev)
qed

theorem summarize_counts_witness:
  "map_of (filters_summarize \<lparr>filters_list = [(TooShortReadFilter, \<lparr>wfilter = TooShortF 10, wkind = SingleWrapper, filtered = 3\<rparr>), (NContentFilter, \<lparr>wfilter = NContentF False 1, wkind = SingleWrapper, filtered = 2\<rparr>)], filter_factory = \<lparr>factory_paired = NotPaired, factory_min_affected = 1\<rparr>\<rparr>) ''too_short'' = Some 3 \<and>
   map_of (filters_summarize \<lparr>filters_list = [(TooShortReadFilter, \<lparr>wfilter = TooShortF 10, wkind = SingleWrapper, filtered = 3\<rparr>), (NContentFilter, \<lparr>wfilter = NContentF False 1, wkind = SingleWrapper, filtered = 2\<rparr>)], filter_factory = \<lparr>factory_paired = NotPaired, factory_min_affected = 1\<rparr>\<rparr>) ''too_many_n'' = Some 2"
proof -
  have ok: "chain_ok (filters_list \<lparr>filters_list = [(TooShortReadFilter, \<lparr>wfilter = TooShortF 10, wkind = SingleWrapper, filtered = 3\<rparr>), (NContentFilter, \<lparr>wfilter = NContentF False 1, wkind = SingleWrapper, filtered = 2\<rparr>)], filter_factory = \<lparr>factory_paired = NotPaired, factory_min_affected = 1\<rparr>\<rparr>)" by (simp add: chain_ok_def)
  show ?thesis
    using summarize_counts [OF ok, of TooShortReadFilter "\<lparr>wfilter = TooShortF 10, wkind = SingleWrapper, filtered = 3\<rparr>"]
          summarize_counts [OF ok, of NContentFilter "\<lparr>wfilter = NContentF False 1, wkind = SingleWrapper, filtered = 2\<rparr>"]
    by simp
qed

end
