(* ===== verification/Manager.thy ===== *)
theory Manager
  imports Collector Filters
begin

text \<open>
  \<open>ReadStatistics\<close> of \<open>src/atropos/commands/stats.py\<close>: the manager that owns the
  pre-trimming collectors and, per output destination, the post-trimming ones. Its
  state is a record with a type parameter \<open>'d\<close> for the destination keys; the
  \<open>post\<close> dictionary is an insertion-ordered association list. The collector arguments
  \<open>**kwargs\<close> are the two the collector takes, \<open>qualities\<close> and \<open>tile_key_regexp\<close>.

  A record handed to the manager is a read or a tuple of reads (\<open>stats_record\<close>).
  Indexing a tuple out of range is an \<open>IndexError\<close>; collecting a tuple is an
  \<open>AttributeError\<close> (a tuple has no \<open>qualities\<close> or \<open>sequence\<close>); indexing a read
  object calls the read class's \<open>__getitem__\<close>, which is outside the modelled sources
  and is the error \<open>RecordShapeError\<close> here.

  The per-record pipeline that drives the manager and the filters lives outside
  \<open>src/\<close>; \<open>process_record\<close> models it from the description of the data flow: statistics
  before trimming, then the filter chain, then, when the destination is written, the
  statistics after trimming keyed by that destination.
\<close>

datatype stats_mode = ModePre | ModePost | ModeBoth | ModeNone

datatype stats_record = RecRead read | RecTuple "read list"

record 'd read_stats =
  stats_mode :: stats_mode
  stats_paired :: bool
  arg_qualities :: "bool option"
  arg_tile_key_regexp :: "tile_regexp option"
  pre :: "collector list option"
  post :: "('d \<times> collector list) list option"

section \<open>Construction\<close>

definition make_collectors :: "'d read_stats \<Rightarrow> collector list" where
  "make_collectors st =
     replicate (if stats_paired st then 2 else 1)
       (new_collector (arg_qualities st) (arg_tile_key_regexp st))"

definition new_read_stats ::
  "stats_mode \<Rightarrow> bool \<Rightarrow> bool option \<Rightarrow> tile_regexp option \<Rightarrow> 'd read_stats" where
  "new_read_stats mode paired q rx =
     (let st = \<lparr>stats_mode = mode, stats_paired = paired, arg_qualities = q,
                arg_tile_key_regexp = rx, pre = None, post = None\<rparr>;
          st1 = (if mode \<in> {ModePre, ModeBoth} then st\<lparr>pre := Some (make_collectors st)\<rparr> else st)
      in if mode \<in> {ModePost, ModeBoth} then st1\<lparr>post := Some []\<rparr> else st1)"

section \<open>Feeding records\<close>

text \<open>\<open>record[i]\<close>.\<close>

fun rec_getitem :: "stats_record \<Rightarrow> nat \<Rightarrow> py_error + stats_record" where
  "rec_getitem (RecTuple rs) i = (if i < length rs then Inr (RecRead (rs ! i)) else Inl IndexError)"
| "rec_getitem (RecRead r) i = Inl RecordShapeError"

text \<open>\<open>cs[i].collect(record)\<close>: the collector is mutated in place in the list.\<close>

definition collect_at :: "collector list \<Rightarrow> nat \<Rightarrow> stats_record \<Rightarrow> collector list exc" where
  "collect_at cs i rc =
     (if length cs \<le> i then (cs, Some IndexError)
      else case rc of
             RecTuple _ \<Rightarrow> (cs, Some AttributeError)
           | RecRead r \<Rightarrow> (let (c', e) = collect (cs ! i) r in (cs[i := c'], e)))"

text \<open>\<open>cs[i].collect(record[j])\<close>: the index expression is evaluated before the call.\<close>

definition collect_item :: "collector list \<Rightarrow> nat \<Rightarrow> stats_record \<Rightarrow> nat \<Rightarrow> collector list exc" where
  "collect_item cs i rc j =
     (case rec_getitem rc j of Inl e \<Rightarrow> (cs, Some e) | Inr x \<Rightarrow> collect_at cs i x)"

definition pre_trim :: "'d read_stats \<Rightarrow> stats_record \<Rightarrow> 'd read_stats exc" where
  "pre_trim st rc =
     (case pre st of
        None \<Rightarrow> (st, None)
      | Some cs \<Rightarrow>
          let (cs', e) =
            (if stats_paired st then exc_bind (collect_item cs 0 rc 0) (\<lambda>cs. collect_item cs 1 rc 1)
             else collect_at cs 0 rc)
          in (st\<lparr>pre := Some cs'\<rparr>, e))"

definition post_trim :: "'d read_stats \<Rightarrow> 'd \<Rightarrow> stats_record \<Rightarrow> 'd read_stats exc" where
  "post_trim st dest rc =
     (case post st of
        None \<Rightarrow> (st, None)
      | Some m \<Rightarrow>
          let m1 = (if dest \<notin> fst ` set m then AList.update dest (make_collectors st) m else m);
              cs = the (map_of m1 dest);
              (cs', e) = exc_bind (collect_item cs 0 rc 0)
                           (\<lambda>cs. if stats_paired st then collect_item cs 1 rc 1 else (cs, None))
          in (st\<lparr>post := Some (AList.update dest cs' m1)\<rparr>, e))"

section \<open>finish\<close>

text \<open>\<open>'{}'.format(n)\<close> for a natural number.\<close>

fun nat_str :: "nat \<Rightarrow> string" where
  "nat_str n =
     (if n < 10 then [''0123456789'' ! n] else nat_str (n div 10) @ [''0123456789'' ! (n mod 10)])"

text \<open>\<open>dict(('read{}'.format(read), stats.finish()) for read, stats in enumerate(cs, 1))\<close>:
  the first collector whose \<open>finish\<close> raises ends the generator.\<close>

fun finish_collectors :: "nat \<Rightarrow> collector list \<Rightarrow> py_error + (string \<times> stats_summary) list" where
  "finish_collectors n [] = Inr []"
| "finish_collectors n (c # cs) =
     (case finish c of
        Inl e \<Rightarrow> Inl e
      | Inr s \<Rightarrow>
          (case finish_collectors (Suc n) cs of
             Inl e \<Rightarrow> Inl e
           | Inr rest \<Rightarrow> Inr (AList.update (''read'' @ nat_str n) s [] @ rest)))"

record 'd stats_result =
  result_pre :: "(string \<times> stats_summary) list option"
  result_post :: "('d \<times> (string \<times> stats_summary) list) list option"

text \<open>\<open>ReadStatistics.finish\<close>: the loop over \<open>self.post\<close> evaluates the first
  destination's summaries and then the target \<open>result[post]\<close>, where \<open>post\<close> is not a
  name of the method or the module: a \<open>NameError\<close>.\<close>

definition stats_finish :: "'d read_stats \<Rightarrow> py_error + 'd stats_result" where
  "stats_finish st =
     (case (case pre st of None \<Rightarrow> Inr None | Some cs \<Rightarrow> map_sum id Some (finish_collectors 1 cs)) of
        Inl e \<Rightarrow> Inl e
      | Inr rp \<Rightarrow>
          (case post st of
             None \<Rightarrow> Inr \<lparr>result_pre = rp, result_post = None\<rparr>
           | Some [] \<Rightarrow> Inr \<lparr>result_pre = rp, result_post = Some []\<rparr>
           | Some ((d, cs) # _) \<Rightarrow>
               (case finish_collectors 1 cs of Inl e \<Rightarrow> Inl e | Inr _ \<Rightarrow> Inl NameError)))"

section \<open>The per-record pipeline\<close>

text \<open>One read pair through statistics, filters and statistics again, as the
  description of the data flow orders them; the pair is the tuple \<open>(read1, read2)\<close> for
  the manager and the two mates for the chain. A destination in \<open>written\<close> is one that
  has an output; a pair sent elsewhere is dropped.\<close>

definition process_record ::
  "filter_type list \<Rightarrow> filter_type read_stats \<times> filters \<Rightarrow> read \<times> read \<Rightarrow>
   (filter_type read_stats \<times> filters) exc" where
  "process_record written sf rp =
     (let (st, fs) = sf; (r1, r2) = rp; rc = RecTuple [r1, r2]
      in case pre_trim st rc of
           (st1, Some e) \<Rightarrow> ((st1, fs), Some e)
         | (st1, None) \<Rightarrow>
             let (fs', dest) = filters_filter fs r1 (Some r2)
             in if dest \<in> set written then
                  (let (st2, e) = post_trim st1 dest rc in ((st2, fs'), e))
                else ((st1, fs'), None))"

fun process_all ::
  "filter_type list \<Rightarrow> filter_type read_stats \<times> filters \<Rightarrow> (read \<times> read) list \<Rightarrow>
   (filter_type read_stats \<times> filters) exc" where
  "process_all written sf [] = (sf, None)"
| "process_all written sf (rp # rps) =
     exc_bind (process_record written sf rp) (\<lambda>sf'. process_all written sf' rps)"

section \<open>Invariants and observers\<close>

text \<open>Every collector the manager holds satisfies the collector invariant.\<close>

definition stats_wf :: "'d read_stats \<Rightarrow> bool" where
  "stats_wf st \<longleftrightarrow>
     pred_option (\<lambda>cs. \<forall>c\<in>set cs. col_wf c) (pre st) \<and>
     pred_option (\<lambda>m. \<forall>dcs\<in>set m. \<forall>c\<in>set (snd dcs). col_wf c) (post st)"

text \<open>A collector that takes every good read without raising (quality tracking not
  switched off, the manager's tile pattern), and a pair of them that has counted
  \<open>n\<close> reads each.\<close>

definition ready :: "tile_regexp option \<Rightarrow> collector \<Rightarrow> bool" where
  "ready rx c \<longleftrightarrow> col_wf c \<and> qualities c \<noteq> Some False \<and> tile_key_regexp c = rx"

definition pair_ready :: "tile_regexp option \<Rightarrow> collector list \<Rightarrow> nat \<Rightarrow> bool" where
  "pair_ready rx cs n \<longleftrightarrow> length cs = 2 \<and> (\<forall>c\<in>set cs. ready rx c \<and> read_count c = n)"

definition mgr_inv :: "tile_regexp option \<Rightarrow> 'd read_stats \<Rightarrow> nat \<Rightarrow> bool" where
  "mgr_inv rx st n \<longleftrightarrow>
     stats_paired st \<and> arg_tile_key_regexp st = rx \<and> arg_qualities st \<noteq> Some False \<and>
     (\<exists>cs. pre st = Some cs \<and> pair_ready rx cs n) \<and>
     (\<exists>m. post st = Some m \<and> distinct (map fst m) \<and>
          (\<forall>x\<in>set m. pair_ready rx (snd x) (read_count (hd (snd x)))))"

text \<open>The number of records the post-trimming statistics of a destination counted.\<close>

definition post_count :: "'d read_stats \<Rightarrow> 'd \<Rightarrow> nat" where
  "post_count st d =
     (case post st of
        None \<Rightarrow> 0
      | Some m \<Rightarrow> (case map_of m d of None \<Rightarrow> 0 | Some cs \<Rightarrow> read_count (hd cs)))"

text \<open>What the pipeline keeps true after \<open>n\<close> pairs: the manager invariant, a chain
  without a \<open>NoFilter\<close> key, and the post-trimming counts of each written destination
  equal to the discards its filter counted (the kept pairs for \<open>NoFilter\<close>).\<close>

definition pipe_inv ::
  "filter_type list \<Rightarrow> tile_regexp option \<Rightarrow> filter_type read_stats \<Rightarrow> filters \<Rightarrow> nat \<Rightarrow> bool" where
  "pipe_inv written rx st fs n \<longleftrightarrow>
     mgr_inv rx st n \<and> distinct (map fst (filters_list fs)) \<and>
     NoFilter \<notin> set (map fst (filters_list fs)) \<and> counters (filters_list fs) \<le> n \<and>
     (\<forall>k. k \<noteq> NoFilter \<longrightarrow>
          post_count st k = (if k \<in> set written then filter_count (filters_list fs) k else 0)) \<and>
     post_count st NoFilter =
       (if NoFilter \<in> set written then n - counters (filters_list fs) else 0)"

section \<open>Lemmas\<close>

declare nat_str.simps [simp del]

lemma finish_ok: "col_wf c \<Longrightarrow> \<exists>s. finish c = Inr s \<and> summary_count s = read_count c"
  by (auto simp: finish_def col_wf_def Let_def split: option.splits)

lemma finish_collectors_ok:
  "\<forall>c\<in>set cs. col_wf c \<Longrightarrow>
   \<exists>xs. finish_collectors n cs = Inr xs \<and> map fst xs = map (\<lambda>(i, c). ''read'' @ nat_str i) (enumerate n cs)"
proof (induction cs arbitrary: n)
  case Nil
  then show ?case by simp
next
  case (Cons c cs)
  obtain s where s: "finish c = Inr s" using finish_ok Cons.prems by fastforce
  have "\<forall>c\<in>set cs. col_wf c" using Cons.prems by simp
  from Cons.IH [of "Suc n", OF this] obtain xs where xs: "finish_collectors (Suc n) cs = Inr xs"
    "map fst xs = map (\<lambda>(i, c). ''read'' @ nat_str i) (enumerate (Suc n) cs)"
    by blast
  show ?case using s xs by simp
qed

lemma set_list_update_sub: "set (xs[i := x]) \<subseteq> insert x (set xs)"
  by (simp add: set_update_subset_insert)

lemma collect_at_wf:
  assumes "\<forall>c\<in>set cs. col_wf c"
  shows "\<forall>c\<in>set (fst (collect_at cs i rc)). col_wf c"
proof (cases rc)
  case (RecRead r)
  show ?thesis
  proof (cases "i < length cs")
    case True
    then have "col_wf (fst (collect (cs ! i) r))" using assms by (simp add: collect_wf)
    with assms True RecRead show ?thesis
      using set_list_update_sub [of cs i "fst (collect (cs ! i) r)"]
      by (auto simp: collect_at_def split_beta)
  next
    case False
    with assms show ?thesis by (simp add: collect_at_def)
  qed
next
  case (RecTuple rs)
  with assms show ?thesis by (simp add: collect_at_def)
qed

lemma collect_item_wf:
  "\<forall>c\<in>set cs. col_wf c \<Longrightarrow> \<forall>c\<in>set (fst (collect_item cs i rc j)). col_wf c"
  by (auto simp: collect_item_def collect_at_wf split: sum.splits)

lemma make_collectors_wf: "\<forall>c\<in>set (make_collectors st). col_wf c"
  by (simp add: make_collectors_def new_collector_wf)

lemma pre_trim_wf:
  assumes "stats_wf st"
  shows "stats_wf (fst (pre_trim st rc))"
proof (cases "pre st")
  case None
  with assms show ?thesis by (simp add: pre_trim_def)
next
  case (Some cs)
  let ?r = "if stats_paired st then exc_bind (collect_item cs 0 rc 0) (\<lambda>cs. collect_item cs 1 rc 1)
            else collect_at cs 0 rc"
  have cs: "\<forall>c\<in>set cs. col_wf c" using assms Some by (simp add: stats_wf_def)
  have "\<forall>c\<in>set (fst ?r). col_wf c"
  proof (cases "stats_paired st")
    case True
    have "\<forall>c\<in>set (fst (exc_bind (collect_item cs 0 rc 0) (\<lambda>cs. collect_item cs 1 rc 1))). col_wf c"
      using cs by (intro exc_bind_preserves [where P = "\<lambda>cs. \<forall>c\<in>set cs. col_wf c"])
                  (simp_all add: collect_item_wf)
    with True show ?thesis by simp
  next
    case False
    with cs show ?thesis by (simp add: collect_at_wf)
  qed
  with assms Some show ?thesis by (simp add: pre_trim_def stats_wf_def split_beta)
qed

lemma update_all_snd:
  "\<forall>x\<in>set m. P (snd x) \<Longrightarrow> P v \<Longrightarrow> \<forall>x\<in>set (AList.update k v m). P (snd x)"
  using set_update_subset [of k v m] by auto

lemma post_trim_wf:
  assumes "stats_wf st"
  shows "stats_wf (fst (post_trim st d rc))"
proof (cases "post st")
  case None
  with assms show ?thesis by (simp add: post_trim_def)
next
  case (Some m)
  let ?m1 = "if d \<notin> fst ` set m then AList.update d (make_collectors st) m else m"
  have m1: "\<forall>dcs\<in>set ?m1. \<forall>c\<in>set (snd dcs). col_wf c"
    using assms Some set_update_subset [of d "make_collectors st" m] make_collectors_wf [of st]
    by (auto simp: stats_wf_def)
  have "map_of ?m1 d \<noteq> None" by (auto simp: update_conv' weak_map_of_SomeI)
  then obtain cs0 where cs0: "map_of ?m1 d = Some cs0" by blast
  then have "(d, cs0) \<in> set ?m1" by (rule map_of_SomeD)
  with m1 cs0 have cs: "\<forall>c\<in>set (the (map_of ?m1 d)). col_wf c" by fastforce
  let ?r = "exc_bind (collect_item (the (map_of ?m1 d)) 0 rc 0)
              (\<lambda>cs. if stats_paired st then collect_item cs 1 rc 1 else (cs, None))"
  have "\<forall>c\<in>set (fst ?r). col_wf c"
    using cs by (intro exc_bind_preserves [where P = "\<lambda>cs. \<forall>c\<in>set cs. col_wf c"])
                (simp_all add: collect_item_wf)
  then have "\<forall>x\<in>set (AList.update d (fst ?r) ?m1). \<forall>c\<in>set (snd x). col_wf c"
    using m1 by (rule update_all_snd [rotated])
  moreover have "fst (post_trim st d rc) = st\<lparr>post := Some (AList.update d (fst ?r) ?m1)\<rparr>"
    using Some by (simp add: post_trim_def Let_def split_beta)
  ultimately show ?thesis using assms by (simp add: stats_wf_def)
qed

lemma new_collector_ready:
  assumes "q \<noteq> Some False"
  shows "ready rx (new_collector q rx) \<and> read_count (new_collector q rx) = 0"
proof -
  have "qualities (new_collector q rx) = q \<and> tile_key_regexp (new_collector q rx) = rx \<and>
        read_count (new_collector q rx) = 0"
    by (simp add: new_collector_def init_qualities_def Let_def)
  with assms show ?thesis by (simp add: ready_def new_collector_wf)
qed

lemma collect_ready:
  assumes "ready rx c" and "good_read rx r"
  shows "\<exists>c'. collect c r = (c', None) \<and> ready rx c' \<and> read_count c' = Suc (read_count c)"
proof -
  from assms have "col_wf c" "qualities c \<noteq> Some False" "good_read (tile_key_regexp c) r"
    by (simp_all add: ready_def)
  from collect_good [OF this] obtain c' where "collect c r = (c', None)" "col_wf c'"
    "qualities c' = Some True" "tile_key_regexp c' = tile_key_regexp c"
    "read_count c' = Suc (read_count c)" by blast
  with assms(1) show ?thesis by (auto simp: ready_def)
qed

lemma pair_collect:
  assumes "pair_ready rx cs n" and "good_read rx r1" and "good_read rx r2"
  shows "\<exists>cs'. exc_bind (collect_item cs 0 (RecTuple [r1, r2]) 0)
                 (\<lambda>cs. collect_item cs 1 (RecTuple [r1, r2]) 1) = (cs', None) \<and>
               pair_ready rx cs' (Suc n)"
proof -
  obtain a b where cs: "cs = [a, b]"
    using assms(1) by (cases cs rule: remdups_adj.cases) (auto simp: pair_ready_def)
  have a: "ready rx a" "read_count a = n" and b: "ready rx b" "read_count b = n"
    using assms(1) cs by (auto simp: pair_ready_def)
  obtain a' where a': "collect a r1 = (a', None)" "ready rx a'" "read_count a' = Suc n"
    using collect_ready [OF a(1) assms(2)] a(2) by auto
  obtain b' where b': "collect b r2 = (b', None)" "ready rx b'" "read_count b' = Suc n"
    using collect_ready [OF b(1) assms(3)] b(2) by auto
  have "exc_bind (collect_item cs 0 (RecTuple [r1, r2]) 0)
          (\<lambda>cs. collect_item cs 1 (RecTuple [r1, r2]) 1) = ([a', b'], None)"
    using a' b' by (simp add: cs collect_item_def collect_at_def)
  moreover have "pair_ready rx [a', b'] (Suc n)" using a' b' by (simp add: pair_ready_def)
  ultimately show ?thesis by blast
qed

lemma pre_trim_pair:
  assumes inv: "mgr_inv rx st n" and g: "good_read rx r1" "good_read rx r2"
  shows "\<exists>st1. pre_trim st (RecTuple [r1, r2]) = (st1, None) \<and> mgr_inv rx st1 (Suc n) \<and>
               post st1 = post st"
proof -
  from inv obtain cs where cs: "pre st = Some cs" "pair_ready rx cs n" and p: "stats_paired st"
    by (auto simp: mgr_inv_def)
  from pair_collect [OF cs(2) g] obtain cs' where
    r: "exc_bind (collect_item cs 0 (RecTuple [r1, r2]) 0) (\<lambda>cs. collect_item cs 1 (RecTuple [r1, r2]) 1) =
        (cs', None)" and cs': "pair_ready rx cs' (Suc n)" by blast
  have "pre_trim st (RecTuple [r1, r2]) = (st\<lparr>pre := Some cs'\<rparr>, None)"
    using cs(1) p r by (simp add: pre_trim_def)
  moreover have "mgr_inv rx (st\<lparr>pre := Some cs'\<rparr>) (Suc n)"
    using inv cs' by (simp add: mgr_inv_def)
  ultimately show ?thesis by simp
qed

lemma mgr_inv_post_upd:
  "mgr_inv rx st n \<Longrightarrow> distinct (map fst m') \<Longrightarrow>
   \<forall>x\<in>set m'. pair_ready rx (snd x) (read_count (hd (snd x))) \<Longrightarrow>
   mgr_inv rx (st\<lparr>post := Some m'\<rparr>) n"
  by (simp add: mgr_inv_def)

lemma post_trim_pair:
  assumes inv: "mgr_inv rx st n" and g: "good_read rx r1" "good_read rx r2"
  shows "\<exists>st2. post_trim st d (RecTuple [r1, r2]) = (st2, None) \<and> mgr_inv rx st2 n \<and>
               pre st2 = pre st \<and>
               (\<forall>d'. post_count st2 d' = post_count st d' + (if d' = d then 1 else 0))"
proof -
  from inv obtain m where m: "post st = Some m" "distinct (map fst m)"
    "\<forall>x\<in>set m. pair_ready rx (snd x) (read_count (hd (snd x)))"
    and p: "stats_paired st" and q: "arg_qualities st \<noteq> Some False"
    and rx: "arg_tile_key_regexp st = rx"
    by (auto simp: mgr_inv_def)
  let ?m1 = "if d \<notin> fst ` set m then AList.update d (make_collectors st) m else m"
  have new: "pair_ready rx (make_collectors st) 0"
    using new_collector_ready [OF q, of rx] p rx by (simp add: make_collectors_def pair_ready_def)
  have hd0: "read_count (hd (make_collectors st)) = 0"
    using new_collector_ready [OF q, of rx] rx by (simp add: make_collectors_def)
  have new': "pair_ready rx (make_collectors st) (read_count (hd (make_collectors st)))"
    using new p by (simp add: make_collectors_def pair_ready_def)
  have m1: "\<forall>x\<in>set ?m1. pair_ready rx (snd x) (read_count (hd (snd x)))"
    using update_all_snd [where P = "\<lambda>cs. pair_ready rx cs (read_count (hd cs))", OF m(3) new']
          m(3) by simp
  have d1: "distinct (map fst ?m1)" using m(2) by (simp add: distinct_update)
  obtain cs0 where cs0: "map_of ?m1 d = Some cs0"
    by (cases "d \<in> fst ` set m") (auto simp: update_conv' dest: weak_map_of_SomeI)
  have k: "read_count (hd cs0) = post_count st d"
  proof (cases "d \<in> fst ` set m")
    case True
    with cs0 m(1) show ?thesis by (simp add: post_count_def)
  next
    case False
    with cs0 m(1) new have "cs0 = make_collectors st" "map_of m d = None"
      by (auto simp: update_conv' map_of_eq_None_iff)
    with hd0 m(1) show ?thesis by (simp add: post_count_def)
  qed
  have "(d, cs0) \<in> set ?m1" using cs0 by (rule map_of_SomeD)
  with m1 k have r0: "pair_ready rx cs0 (post_count st d)" by fastforce
  from pair_collect [OF r0 g] obtain cs' where
    r: "exc_bind (collect_item cs0 0 (RecTuple [r1, r2]) 0) (\<lambda>cs. collect_item cs 1 (RecTuple [r1, r2]) 1) =
        (cs', None)" and cs': "pair_ready rx cs' (Suc (post_count st d))" by blast
  let ?st2 = "st\<lparr>post := Some (AList.update d cs' ?m1)\<rparr>"
  have eq: "post_trim st d (RecTuple [r1, r2]) = (?st2, None)"
    using m(1) p r cs0 by (simp add: post_trim_def Let_def)
  have hd: "read_count (hd cs') = Suc (post_count st d)"
    using cs' by (cases cs') (auto simp: pair_ready_def)
  have all2: "\<forall>x\<in>set (AList.update d cs' ?m1). pair_ready rx (snd x) (read_count (hd (snd x)))"
    by (rule update_all_snd [where P = "\<lambda>cs. pair_ready rx cs (read_count (hd cs))", OF m1])
       (simp add: cs' hd)
  have d2: "distinct (map fst (AList.update d cs' ?m1))" using d1 by (rule distinct_update)
  have inv2: "mgr_inv rx ?st2 n"
    by (rule mgr_inv_post_upd [OF inv d2 all2])
  have "post_count ?st2 d' = post_count st d' + (if d' = d then 1 else 0)" for d'
  proof (cases "d' = d")
    case True
    with hd show ?thesis by (simp add: post_count_def update_conv')
  next
    case False
    with m(1) show ?thesis by (simp add: post_count_def update_conv')
  qed
  with eq inv2 show ?thesis by auto
qed

lemma post_count_post: "post st1 = post st \<Longrightarrow> post_count st1 = post_count st"
  by (simp add: post_count_def fun_eq_iff)

lemma process_record_step:
  assumes inv: "pipe_inv written rx st fs n" and g: "good_read rx r1" "good_read rx r2"
  shows "\<exists>st' fs'. process_record written (st, fs) (r1, r2) = ((st', fs'), None) \<and>
                  pipe_inv written rx st' fs' (Suc n)"
proof -
  from inv have mi: "mgr_inv rx st n" and dk: "distinct (map fst (filters_list fs))"
    and nk: "NoFilter \<notin> set (map fst (filters_list fs))" and cn: "counters (filters_list fs) \<le> n"
    and pk: "\<forall>k. k \<noteq> NoFilter \<longrightarrow>
          post_count st k = (if k \<in> set written then filter_count (filters_list fs) k else 0)"
    and p0: "post_count st NoFilter =
       (if NoFilter \<in> set written then n - counters (filters_list fs) else 0)"
    by (simp_all add: pipe_inv_def)
  obtain st1 where st1: "pre_trim st (RecTuple [r1, r2]) = (st1, None)" "mgr_inv rx st1 (Suc n)"
    "post st1 = post st"
    using pre_trim_pair [OF mi g] by blast
  have pc1: "post_count st1 = post_count st" using st1(3) by (rule post_count_post)
  obtain ws' d where cf: "chain_filter (filters_list fs) r1 (Some r2) = (ws', d)"
    by (cases "chain_filter (filters_list fs) r1 (Some r2)")
  let ?fs' = "fs\<lparr>filters_list := ws'\<rparr>"
  from chain_filter_per_key [OF dk nk, of r1 "Some r2"] cf have
    ks: "map fst ws' = map fst (filters_list fs)" and
    fc: "\<forall>k. k \<noteq> NoFilter \<longrightarrow> filter_count ws' k = filter_count (filters_list fs) k + (if d = k then 1 else 0)" and
    cs: "counters ws' = counters (filters_list fs) + (if d = NoFilter then 0 else 1)"
    by simp_all
  have ff: "filters_filter fs r1 (Some r2) = (?fs', d)" using cf by (simp add: filters_filter_def)
  have dk': "distinct (map fst (filters_list ?fs'))" "NoFilter \<notin> set (map fst (filters_list ?fs'))"
    "counters (filters_list ?fs') \<le> Suc n"
    using dk nk cn ks cs by simp_all
  show ?thesis
  proof (cases "d \<in> set written")
    case True
    obtain st2 where st2: "post_trim st1 d (RecTuple [r1, r2]) = (st2, None)" "mgr_inv rx st2 (Suc n)"
      "\<forall>d'. post_count st2 d' = post_count st1 d' + (if d' = d then 1 else 0)"
      using post_trim_pair [OF st1(2) g, of d] by blast
    have "process_record written (st, fs) (r1, r2) = ((st2, ?fs'), None)"
      using st1(1) ff True st2(1) by (simp add: process_record_def)
    moreover have "pipe_inv written rx st2 ?fs' (Suc n)"
      using st2(2,3) dk' pc1 pk p0 fc cs cn True unfolding pipe_inv_def
      by (auto simp: ks)
    ultimately show ?thesis by blast
  next
    case False
    have "process_record written (st, fs) (r1, r2) = ((st1, ?fs'), None)"
      using st1(1) ff False by (simp add: process_record_def)
    moreover have "pipe_inv written rx st1 ?fs' (Suc n)"
      using st1(2) dk' pc1 pk p0 fc cs cn False unfolding pipe_inv_def
      by auto
    ultimately show ?thesis by blast
  qed
qed

lemma process_all_inv:
  "pipe_inv written rx st fs n \<Longrightarrow> \<forall>rp\<in>set ps. good_read rx (fst rp) \<and> good_read rx (snd rp) \<Longrightarrow>
   \<exists>st' fs'. process_all written (st, fs) ps = ((st', fs'), None) \<and>
             pipe_inv written rx st' fs' (n + length ps)"
proof (induction ps arbitrary: st fs n)
  case Nil
  then show ?case by simp
next
  case (Cons rp ps)
  obtain r1 r2 where rp: "rp = (r1, r2)" by (cases rp)
  from Cons.prems rp obtain st1 fs1 where
    s1: "process_record written (st, fs) (r1, r2) = ((st1, fs1), None)"
        "pipe_inv written rx st1 fs1 (Suc n)"
    using process_record_step [of written rx st fs n r1 r2] by auto
  from Cons.IH [OF s1(2)] Cons.prems obtain st' fs' where
    "process_all written (st1, fs1) ps = ((st', fs'), None)" "pipe_inv written rx st' fs' (Suc n + length ps)"
    by auto
  with s1(1) rp show ?case by auto
qed

lemma pipe_inv_init:
  assumes "distinct (map fst (filters_list fs))" "NoFilter \<notin> set (map fst (filters_list fs))"
    "\<forall>kw\<in>set (filters_list fs). filtered (snd kw) = 0" "q \<noteq> Some False"
  shows "pipe_inv written rx (new_read_stats ModeBoth True q rx) fs 0"
proof -
  have c0: "counters (filters_list fs) = 0" using assms(3)
    by (simp add: counters_def split_def sum_list_eq_0_iff)
  have f0: "filter_count (filters_list fs) k = 0" for k
  proof (cases "map_of (filters_list fs) k")
    case (Some w)
    then have "(k, w) \<in> set (filters_list fs)" by (rule map_of_SomeD)
    with assms(3) Some show ?thesis by (fastforce simp: filter_count_def)
  qed (simp add: filter_count_def)
  have "pair_ready rx (replicate 2 (new_collector q rx)) 0"
    using new_collector_ready [OF assms(4), of rx] by (simp add: pair_ready_def)
  then have "mgr_inv rx (new_read_stats ModeBoth True q rx :: filter_type read_stats) 0"
    using assms(4) by (simp add: mgr_inv_def new_read_stats_def make_collectors_def)
  with assms c0 f0 show ?thesis
    by (simp add: pipe_inv_def post_count_def new_read_stats_def)
qed

section \<open>Properties of ReadStatistics\<close>

text \<open>C11. Composition of the manager and the filter chain: feeding good read pairs to a
  fresh paired manager collecting before and after trimming, with a chain whose counters
  start at zero and that has no NoFilter key, raises nothing; both pre-trimming collectors
  count every pair, the post-trimming statistics of each written destination count exactly
  the pairs its filter discarded, those of NoFilter the pairs no filter discarded, and an
  unwritten destination has no post-trimming statistics.\<close>

theorem pipeline_statistics:
  assumes "distinct (map fst (filters_list fs))" and "NoFilter \<notin> set (map fst (filters_list fs))"
    and "\<forall>kw\<in>set (filters_list fs). filtered (snd kw) = 0" and "q \<noteq> Some False"
    and "\<forall>rp\<in>set ps. good_read rx (fst rp) \<and> good_read rx (snd rp)"
  shows "\<exists>st fs'. process_all written (new_read_stats ModeBoth True q rx, fs) ps = ((st, fs'), None) \<and>
           (\<forall>c\<in>set (the (pre st)). read_count c = length ps) \<and>
           (\<forall>k. k \<noteq> NoFilter \<longrightarrow>
                post_count st k = (if k \<in> set written then filter_count (filters_list fs') k else 0)) \<and>
           post_count st NoFilter =
             (if NoFilter \<in> set written then length ps - counters (filters_list fs') else 0)"
proof -
  from process_all_inv [OF pipe_inv_init [OF assms(1-4), where written = written and rx = rx] assms(5)]
  obtain st fs' where
    r: "process_all written (new_read_stats ModeBoth True q rx, fs) ps = ((st, fs'), None)"
    and i: "pipe_inv written rx st fs' (length ps)"
    by auto
  from i obtain cs where "pre st = Some cs" "pair_ready rx cs (length ps)"
    by (auto simp: pipe_inv_def mgr_inv_def)
  with r i show ?thesis by (auto simp: pipe_inv_def pair_ready_def)
qed

theorem pipeline_statistics_witness:
  "\<exists>st fs'. process_all [TooShortReadFilter, NoFilter] (new_read_stats ModeBoth True None None, \<lparr>filters_list = [(TooShortReadFilter, single_wrapper (TooShortF 10))], filter_factory = \<lparr>factory_paired = PairedBoth, factory_min_affected = 1\<rparr>\<rparr>)
             [(\<lparr>name = ''p'', sequence = ''ACGTACGTACGT'', read_qualities = Some ''IIIIIIIIIIII'', merged = False, match_found = False\<rparr>, \<lparr>name = ''p'', sequence = ''ACGTACGTACGT'', read_qualities = Some ''IIIIIIIIIIII'', merged = False, match_found = False\<rparr>), (\<lparr>name = ''p'', sequence = ''ACGTA'', read_qualities = Some ''IIIII'', merged = False, match_found = False\<rparr>, \<lparr>name = ''p'', sequence = ''ACGTACGTACGT'', read_qualities = Some ''IIIIIIIIIIII'', merged = False, match_found = False\<rparr>)] = ((st, fs'), None) \<and>
           (\<forall>c\<in>set (the (pre st)). read_count c = 2) \<and>
           post_count st TooShortReadFilter = filter_count (filters_list fs') TooShortReadFilter \<and>
           post_count st NoFilter = 2 - counters (filters_list fs')"
proof -
  let ?ps = "[(\<lparr>name = ''p'', sequence = ''ACGTACGTACGT'', read_qualities = Some ''IIIIIIIIIIII'', merged = False, match_found = False\<rparr>, \<lparr>name = ''p'', sequence = ''ACGTACGTACGT'', read_qualities = Some ''IIIIIIIIIIII'', merged = False, match_found = False\<rparr>), (\<lparr>name = ''p'', sequence = ''ACGTA'', read_qualities = Some ''IIIII'', merged = False, match_found = False\<rparr>, \<lparr>name = ''p'', sequence = ''ACGTACGTACGT'', read_qualities = Some ''IIIIIIIIIIII'', merged = False, match_found = False\<rparr>)]"
  have h: "distinct (map fst (filters_list \<lparr>filters_list = [(TooShortReadFilter, single_wrapper (TooShortF 10))], filter_factory = \<lparr>factory_paired = PairedBoth, factory_min_affected = 1\<rparr>\<rparr>))" "NoFilter \<notin> set (map fst (filters_list \<lparr>filters_list = [(TooShortReadFilter, single_wrapper (TooShortF 10))], filter_factory = \<lparr>factory_paired = PairedBoth, factory_min_affected = 1\<rparr>\<rparr>))"
    "\<forall>kw\<in>set (filters_list \<lparr>filters_list = [(TooShortReadFilter, single_wrapper (TooShortF 10))], filter_factory = \<lparr>factory_paired = PairedBoth, factory_min_affected = 1\<rparr>\<rparr>). filtered (snd kw) = 0" "(None :: bool option) \<noteq> Some False"
    "\<forall>rp\<in>set ?ps. good_read None (fst rp) \<and> good_read None (snd rp)"
    by (simp_all add: single_wrapper_def good_read_def)
  from pipeline_statistics [OF h, of "[TooShortReadFilter, NoFilter]"] show ?thesis by auto
qed

text \<open>C12. ReadStatistics.finish, with well-formed collectors, raises NameError exactly
  when the post-trimming dictionary has a destination (the loop assigns to result[post],
  an undefined name); otherwise it returns the pre-trimming summaries keyed read1, read2, ...
  and an empty or absent post entry.\<close>

theorem stats_finish_outcome:
  assumes "stats_wf st"
  shows "(stats_finish st = Inl NameError \<longleftrightarrow> post st \<noteq> None \<and> post st \<noteq> Some []) \<and>
         (post st = None \<or> post st = Some [] \<longrightarrow>
           (\<exists>r. stats_finish st = Inr r \<and> result_post r = map_option (\<lambda>_. []) (post st) \<and>
                map_option (map fst) (result_pre r) =
                map_option (\<lambda>cs. map (\<lambda>(i, c). ''read'' @ nat_str i) (enumerate 1 cs)) (pre st)))"
proof -
  have pre: "\<exists>rp. (case pre st of None \<Rightarrow> Inr None | Some cs \<Rightarrow> map_sum id Some (finish_collectors 1 cs)) = Inr rp
              \<and> map_option (map fst) rp =
                map_option (\<lambda>cs. map (\<lambda>(i, c). ''read'' @ nat_str i) (enumerate 1 cs)) (pre st)"
  proof (cases "pre st")
    case None
    then show ?thesis by simp
  next
    case (Some cs)
    with assms obtain xs where "finish_collectors 1 cs = Inr xs"
      "map fst xs = map (\<lambda>(i, c). ''read'' @ nat_str i) (enumerate 1 cs)"
      using finish_collectors_ok [of cs 1] by (auto simp: stats_wf_def)
    with Some show ?thesis by simp
  qed
  then obtain rp where rp: "(case pre st of None \<Rightarrow> Inr None | Some cs \<Rightarrow> map_sum id Some (finish_collectors 1 cs)) = Inr rp"
    and names: "map_option (map fst) rp =
                map_option (\<lambda>cs. map (\<lambda>(i, c). ''read'' @ nat_str i) (enumerate 1 cs)) (pre st)"
    by blast
  show ?thesis
  proof (cases "post st")
    case None
    with rp names show ?thesis by (simp add: stats_finish_def)
  next
    case (Some m)
    show ?thesis
    proof (cases m)
      case Nil
      with Some rp names show ?thesis by (simp add: stats_finish_def)
    next
      case (Cons dcs m')
      obtain d cs where dcs: "dcs = (d, cs)" by (cases dcs)
      with assms Some Cons obtain xs where "finish_collectors 1 cs = Inr xs"
        using finish_collectors_ok [of cs 1] by (auto simp: stats_wf_def)
      with Some Cons dcs rp show ?thesis by (simp add: stats_finish_def)
    qed
  qed
qed

theorem stats_finish_outcome_witness:
  "stats_finish (((new_read_stats ModeBoth False None None)\<lparr>post := Some [(NoFilter, [new_collector None None])]\<rparr>) :: filter_type read_stats) = Inl NameError"
proof -
  have "stats_wf (((new_read_stats ModeBoth False None None)\<lparr>post := Some [(NoFilter, [new_collector None None])]\<rparr>) :: filter_type read_stats)"
    by (simp add: stats_wf_def new_read_stats_def make_collectors_def new_collector_wf)
  from stats_finish_outcome [OF this] show ?thesis by (simp add: new_read_stats_def)
qed

text \<open>C14. In single-end mode pre_trim collects the record itself and rejects a tuple
  with AttributeError before touching any collector, while post_trim collects record[0]:
  a tuple (r, ...) has its first read counted by the destination's collector.\<close>

theorem single_end_record_shapes:
  assumes "\<not> stats_paired st" and "pre st = Some [c]" and "post st = Some m"
    and "map_of m d = Some [c']"
  shows "pre_trim st (RecTuple rs) = (st, Some AttributeError) \<and>
         pre_trim st (RecRead r) = (st\<lparr>pre := Some [fst (collect c r)]\<rparr>, snd (collect c r)) \<and>
         post_trim st d (RecTuple (r # rs)) =
           (st\<lparr>post := Some (AList.update d [fst (collect c' r)] m)\<rparr>, snd (collect c' r))"
proof -
  have "d \<in> fst ` set m" using assms(4) by (force dest: map_of_SomeD)
  with assms show ?thesis
    by (simp add: pre_trim_def post_trim_def collect_at_def collect_item_def split_beta)
qed

theorem single_end_record_shapes_witness:
  "pre_trim ((new_read_stats ModeBoth False None None)\<lparr>post := Some [(NoFilter, [new_collector None None])]\<rparr> :: filter_type read_stats) (RecTuple []) = (((new_read_stats ModeBoth False None None)\<lparr>post := Some [(NoFilter, [new_collector None None])]\<rparr> :: filter_type read_stats), Some AttributeError) \<and>
   fst (post_trim ((new_read_stats ModeBoth False None None)\<lparr>post := Some [(NoFilter, [new_collector None None])]\<rparr> :: filter_type read_stats) NoFilter (RecTuple [\<lparr>name = ''p'', sequence = ''ACGTA'', read_qualities = Some ''IIIII'', merged = False, match_found = False\<rparr>])) =
     ((new_read_stats ModeBoth False None None)\<lparr>post := Some [(NoFilter, [new_collector None None])]\<rparr> :: filter_type read_stats)\<lparr>post := Some [(NoFilter, [fst (collect (new_collector None None) \<lparr>name = ''p'', sequence = ''ACGTA'', read_qualities = Some ''IIIII'', merged = False, match_found = False\<rparr>)])]\<rparr>"
proof -
  have h: "\<not> stats_paired ((new_read_stats ModeBoth False None None)\<lparr>post := Some [(NoFilter, [new_collector None None])]\<rparr> :: filter_type read_stats)" "pre ((new_read_stats ModeBoth False None None)\<lparr>post := Some [(NoFilter, [new_collector None None])]\<rparr> :: filter_type read_stats) = Some [new_collector None None]"
    "post ((new_read_stats ModeBoth False None None)\<lparr>post := Some [(NoFilter, [new_collector None None])]\<rparr> :: filter_type read_stats) = Some [(NoFilter, [new_collector None None])]"
    "map_of [(NoFilter, [new_collector None None])] NoFilter = Some [new_collector None None]"
    by (simp_all add: new_read_stats_def make_collectors_def)
  from single_end_record_shapes [OF h, of "[]" "\<lparr>name = ''p'', sequence = ''ACGTA'', read_qualities = Some ''IIIII'', merged = False, match_found = False\<rparr>"] show ?thesis by simp
qed


text \<open>C13. In paired mode the two mates go to their own collectors: pre_trim feeds read 1 to
  the first pre-trimming collector and read 2 to the second, and post_trim for a new
  destination creates two fresh collectors and does the same, so the destination's
  statistics count mate 1 and mate 2 separately. Read 2 is collected only when collecting
  read 1 raised nothing.\<close>

theorem paired_trim_routes_mates:
  assumes "stats_paired st" and "pre st = Some [c1, c2]" and "post st = Some m"
    and "d \<notin> fst ` set m"
    and "snd (collect c1 r1) = None"
    and "snd (collect (new_collector (arg_qualities st) (arg_tile_key_regexp st)) r1) = None"
  shows "pre_trim st (RecTuple [r1, r2]) =
           (st\<lparr>pre := Some [fst (collect c1 r1), fst (collect c2 r2)]\<rparr>, snd (collect c2 r2)) \<and>
         post_trim st d (RecTuple [r1, r2]) =
           (st\<lparr>post := Some (m @ [(d, [fst (collect (new_collector (arg_qualities st) (arg_tile_key_regexp st)) r1),
                                        fst (collect (new_collector (arg_qualities st) (arg_tile_key_regexp st)) r2)])])\<rparr>,
            snd (collect (new_collector (arg_qualities st) (arg_tile_key_regexp st)) r2))"
proof -
  let ?n = "new_collector (arg_qualities st) (arg_tile_key_regexp st)"
  have mk: "make_collectors st = [?n, ?n]" using assms(1) by (simp add: make_collectors_def numeral_2_eq_2)
  have pre: "pre_trim st (RecTuple [r1, r2]) =
               (st\<lparr>pre := Some [fst (collect c1 r1), fst (collect c2 r2)]\<rparr>, snd (collect c2 r2))"
    using assms(1,2,5)
    by (simp add: pre_trim_def collect_item_def collect_at_def split_beta exc_bind_def split: option.splits)
  have post: "post_trim st d (RecTuple [r1, r2]) =
           (st\<lparr>post := Some (m @ [(d, [fst (collect ?n r1), fst (collect ?n r2)])])\<rparr>, snd (collect ?n r2))"
  proof -
    have "map_of m d = None" using assms(4) by (simp add: map_of_eq_None_iff)
    then show ?thesis
      using assms(1,3,4,6)
      by (simp add: post_trim_def mk collect_item_def collect_at_def split_beta exc_bind_def Let_def
                    update_append_new update_append_last map_add_def split: option.splits)
  qed
  from pre post show ?thesis by blast
qed

theorem paired_trim_routes_mates_witness:
  "pre_trim (new_read_stats ModeBoth True None None :: filter_type read_stats)
      (RecTuple [\<lparr>name = ''a'', sequence = ''GG'', read_qualities = Some ''II'', merged = False, match_found = False\<rparr>,
                 \<lparr>name = ''b'', sequence = ''ACGTA'', read_qualities = Some ''IIIII'', merged = False, match_found = False\<rparr>]) =
     ((new_read_stats ModeBoth True None None :: filter_type read_stats)\<lparr>pre := Some
        [fst (collect (new_collector None None) \<lparr>name = ''a'', sequence = ''GG'', read_qualities = Some ''II'', merged = False, match_found = False\<rparr>),
         fst (collect (new_collector None None) \<lparr>name = ''b'', sequence = ''ACGTA'', read_qualities = Some ''IIIII'', merged = False, match_found = False\<rparr>)]\<rparr>,
      snd (collect (new_collector None None) \<lparr>name = ''b'', sequence = ''ACGTA'', read_qualities = Some ''IIIII'', merged = False, match_found = False\<rparr>))"
proof -
  let ?st = "new_read_stats ModeBoth True None None :: filter_type read_stats"
  let ?r1 = "\<lparr>name = ''a'', sequence = ''GG'', read_qualities = Some ''II'', merged = False, match_found = False\<rparr>"
  let ?r2 = "\<lparr>name = ''b'', sequence = ''ACGTA'', read_qualities = Some ''IIIII'', merged = False, match_found = False\<rparr>"
  have h: "stats_paired ?st" "pre ?st = Some [new_collector None None, new_collector None None]"
    "post ?st = Some []" "NoFilter \<notin> fst ` set ([] :: (filter_type \<times> collector list) list)"
    by (simp_all add: new_read_stats_def make_collectors_def numeral_2_eq_2)
  have c: "snd (collect (new_collector None None) ?r1) = None"
    using collect_good [OF new_collector_wf [of None None], of ?r1]
    by (auto simp: good_read_def new_collector_def)
  have c': "snd (collect (new_collector (arg_qualities ?st) (arg_tile_key_regexp ?st)) ?r1) = None"
    using c by (simp add: new_read_stats_def)
  from paired_trim_routes_mates [OF h c c', of ?r2] show ?thesis by blast
qed

end
