(* ===== verification/Reports.thy ===== *)
theory Reports
  imports Manager
begin

text \<open>
  \<open>src/atropos/commands/reports.py\<close>: the pure parts of \<open>BaseReportGenerator\<close>. The
  output names chosen by \<open>__init__\<close> (with POSIX \<open>os.path.splitext\<close>), the derived
  fields of \<open>add_derived_data\<close>, \<open>simplify\<close> (which makes every dictionary key a string
  for JSON/YAML) and the loop of \<open>generate_reports\<close>, whose effects are recorded as a
  list of actions. Opening files, \<open>importlib\<close>, \<open>dump\<close> and Jinja2 rendering are I/O
  and are not modelled; an action names the format, the target and the summary it is
  given.

  A summary is a tree of dictionaries (\<open>PDict\<close>, insertion-ordered) whose leaves are
  values of any type \<open>'a\<close>, since \<open>simplify\<close> copies every non-dictionary value
  unchanged; its keys are hashable Python scalars (\<open>pykey\<close>): strings, integers,
  \<open>None\<close>, booleans and tuples of keys.
\<close>

section \<open>Output names\<close>

datatype report_target = ToStdout | ToStderr | ToPath string

datatype report_out = OutStdout | OutStderr | OutFile string

text \<open>\<open>os.path.splitext(p)[1]\<close> on POSIX: the extension starts at the last dot of the
  last path component, unless everything before that dot in the component is dots.\<close>

definition path_base :: "string \<Rightarrow> string" where
  "path_base p = rev (takeWhile (\<lambda>c. c \<noteq> CHR ''/'') (rev p))"

definition splitext_ext :: "string \<Rightarrow> string" where
  "splitext_ext p =
     (let b = path_base p; s = rev (takeWhile (\<lambda>c. c \<noteq> CHR ''.'') (rev b))
      in if length s = length b then []
         else if \<exists>c\<in>set (take (length b - length s - 1) b). c \<noteq> CHR ''.'' then CHR ''.'' # s
         else [])"

text \<open>\<open>__init__(report_file, report_formats)\<close>: an empty or missing format list is
  falsy and falls back to the default. Returns the formats and the outputs.\<close>

definition report_init :: "report_target \<Rightarrow> string list \<Rightarrow> string list \<times> report_out list" where
  "report_init target formats =
     (case target of
        ToStdout \<Rightarrow> (let fmts = (if formats = [] then [''txt''] else formats)
                     in (fmts, replicate (length fmts) OutStdout))
      | ToStderr \<Rightarrow> (let fmts = (if formats = [] then [''txt''] else formats)
                     in (fmts, replicate (length fmts) OutStderr))
      | ToPath f \<Rightarrow>
          (let ext = splitext_ext f;
               fmts = (if formats \<noteq> [] then formats else [if ext \<noteq> [] then tl ext else ''txt''])
           in (fmts, if length fmts = 1 then [OutFile f]
                     else map (\<lambda>fmt. OutFile (f @ ''.'' @ fmt)) fmts)))"

section \<open>add_derived_data\<close>

text \<open>The fields of \<open>summary['input']\<close> the method reads; \<open>input_read\<close> is compared with
  the constant \<open>PAIRED\<close> of \<open>atropos.io.seqio\<close>, otherwise formatted as a read number.\<close>

datatype input_sel = InputPaired | InputRead int

record input_info =
  file_format :: string
  input_read :: input_sel
  colorspace :: bool
  interleaved :: bool
  delivers_qualities :: bool

definition int_str :: "int \<Rightarrow> string" where
  "int_str i = (if i < 0 then CHR ''-'' # nat_str (nat (- i)) else nat_str (nat i))"

definition input_format :: "input_info \<Rightarrow> string" where
  "input_format inp =
     file_format inp
     @ (case input_read inp of InputPaired \<Rightarrow> '', Paired'' | InputRead n \<Rightarrow> '', Read '' @ int_str n)
     @ (if colorspace inp then '', Colorspace'' else [])
     @ (if interleaved inp then '', Interleaved'' else [])
     @ (if delivers_qualities inp then '', w/ Qualities'' else '', w/o Qualities'')"

text \<open>\<open>avg_sequence_length\<close>: the tuple is built from a generator, so the first
  non-\<open>None\<close> count divided by a zero record count raises.\<close>

fun avg_sequence_length :: "nat \<Rightarrow> nat option list \<Rightarrow> py_error + rat option list" where
  "avg_sequence_length records [] = Inr []"
| "avg_sequence_length records (bp # bps) =
     (case bp of
        None \<Rightarrow> map_sum id (Cons None) (avg_sequence_length records bps)
      | Some b \<Rightarrow>
          if records = 0 then Inl ZeroDivisionError
          else map_sum id (Cons (Some (of_nat b / of_nat records))) (avg_sequence_length records bps))"

section \<open>simplify\<close>

datatype pykey = KStr string | KInt int | KNone | KBool bool | KTuple "pykey list"

datatype 'a pytree = PLeaf 'a | PDict "(pykey \<times> 'a pytree) list"

fun is_kstr :: "pykey \<Rightarrow> bool" where
  "is_kstr (KStr _) = True"
| "is_kstr _ = False"

fun kstr_val :: "pykey \<Rightarrow> string" where
  "kstr_val (KStr s) = s"
| "kstr_val _ = []"

definition comma_join :: "string list \<Rightarrow> string" where
  "comma_join ss = (case ss of [] \<Rightarrow> [] | s # rest \<Rightarrow> s @ concat (map (\<lambda>t. CHR '','' # t) rest))"

text \<open>Lines 112--116: a string key is kept, an iterable one (a tuple) is joined with
  commas, which needs every element to be a string, any other key goes through
  \<open>str\<close>.\<close>

fun simp_key :: "pykey \<Rightarrow> py_error + string" where
  "simp_key (KStr s) = Inr s"
| "simp_key (KTuple ks) = (if list_all is_kstr ks then Inr (comma_join (map kstr_val ks)) else Inl TypeError)"
| "simp_key (KInt i) = Inr (int_str i)"
| "simp_key KNone = Inr ''None''"
| "simp_key (KBool b) = Inr (if b then ''True'' else ''False'')"

text \<open>\<open>_recurse(dest, src)\<close>: \<open>dest[key] = ...\<close> on an \<open>OrderedDict\<close>; a dictionary
  value is copied into a fresh \<open>OrderedDict\<close> by the recursive call.\<close>

fun simplify_items ::
  "(pykey \<times> 'a pytree) list \<Rightarrow> (pykey \<times> 'a pytree) list \<Rightarrow> py_error + (pykey \<times> 'a pytree) list" where
  "simplify_items [] dest = Inr dest"
| "simplify_items ((k, PLeaf a) # rest) dest =
     (case simp_key k of
        Inl e \<Rightarrow> Inl e
      | Inr s \<Rightarrow> simplify_items rest (AList.update (KStr s) (PLeaf a) dest))"
| "simplify_items ((k, PDict its) # rest) dest =
     (case simp_key k of
        Inl e \<Rightarrow> Inl e
      | Inr s \<Rightarrow>
          (case simplify_items its [] of
             Inl e \<Rightarrow> Inl e
           | Inr d \<Rightarrow> simplify_items rest (AList.update (KStr s) (PDict d) dest)))"

text \<open>\<open>simplify(summary)\<close>; \<open>.items()\<close> of a non-dictionary is an \<open>AttributeError\<close>.\<close>

fun simplify :: "'a pytree \<Rightarrow> py_error + 'a pytree" where
  "simplify (PDict its) = map_sum id PDict (simplify_items its [])"
| "simplify (PLeaf _) = Inl AttributeError"

section \<open>generate_reports\<close>

datatype 'a report_action =
    Serialize string char report_out "'a pytree"
  | TextReport string report_out "'a pytree"

definition text_serializers :: "string list" where
  "text_serializers = [''json'', ''yaml'']"

definition binary_serializers :: "string list" where
  "binary_serializers = [''pickle'']"

text \<open>The loop over \<open>zip(self.report_formats, self.report_files)\<close>: a text serializer
  rebinds \<open>summary\<close> to its simplified copy, which every later iteration sees. An
  exception of \<open>simplify\<close> ends the loop after the outputs already produced.\<close>

fun report_loop :: "(string \<times> report_out) list \<Rightarrow> 'a pytree \<Rightarrow> 'a report_action list \<times> py_error option" where
  "report_loop [] s = ([], None)"
| "report_loop ((fmt, out) # rest) s =
     (if fmt \<in> set binary_serializers then
        (let (acts, e) = report_loop rest s in (Serialize fmt (CHR ''b'') out s # acts, e))
      else if fmt \<in> set text_serializers then
        (case simplify s of
           Inl e \<Rightarrow> ([], Some e)
         | Inr s' \<Rightarrow> (let (acts, e) = report_loop rest s' in (Serialize fmt (CHR ''t'') out s' # acts, e)))
      else (let (acts, e) = report_loop rest s in (TextReport fmt out s # acts, e)))"

section \<open>Invariants\<close>

text \<open>A simplified tree: at every level the keys are distinct strings.\<close>

fun str_tree :: "'a pytree \<Rightarrow> bool" where
  "str_tree (PLeaf _) = True"
| "str_tree (PDict its) =
     (distinct (map fst its) \<and> list_all is_kstr (map fst its) \<and> list_all (\<lambda>kv. str_tree (snd kv)) its)"

text \<open>A key somewhere in the tree that \<open>simplify\<close> cannot turn into a string.\<close>

fun bad_key :: "'a pytree \<Rightarrow> bool" where
  "bad_key (PLeaf _) = False"
| "bad_key (PDict its) = list_ex (\<lambda>kv. simp_key (fst kv) = Inl TypeError \<or> bad_key (snd kv)) its"

text \<open>The key order of a dictionary built by assignments in turn: a new key goes to the
  end, an existing one keeps its place.\<close>

definition insertion_order :: "'k list \<Rightarrow> 'k list" where
  "insertion_order ks = fold (\<lambda>k acc. if k \<in> set acc then acc else acc @ [k]) ks []"

section \<open>Lemmas\<close>

lemma keys_update: "map fst (AList.update k v al) = (if k \<in> set (map fst al) then map fst al else map fst al @ [k])"
  by (induct al) auto

lemma fold_update_keys:
  "map fst (fold (\<lambda>(k, v) al. AList.update k v al) xs al) =
     fold (\<lambda>k acc. if k \<in> set acc then acc else acc @ [k]) (map fst xs) (map fst al)"
proof (induction xs arbitrary: al)
  case (Cons kv xs)
  obtain k v where kv: "kv = (k, v)" by (cases kv)
  show ?case using Cons.IH [of "AList.update k v al"] kv by (simp add: keys_update)
qed simp

lemma fold_update_map_of:
  "map_of (fold (\<lambda>(k, v) al. AList.update k v al) xs al) = map_of al ++ map_of (rev xs)"
  by (induction xs arbitrary: al) (auto simp: update_conv' map_add_upd_left map_add_assoc)

text \<open>On a dictionary of leaves with convertible keys, simplify assigns the converted
  keys in turn.\<close>

lemma simplify_items_leaves:
  assumes "\<forall>kv\<in>set its. (\<exists>a. snd kv = PLeaf a) \<and> (\<exists>s. simp_key (fst kv) = Inr s)"
  shows "simplify_items its dest =
           Inr (fold (\<lambda>(k, v) al. AList.update k v al)
                  (map (\<lambda>kv. (KStr (projr (simp_key (fst kv))), snd kv)) its) dest)"
  using assms
proof (induction its arbitrary: dest)
  case (Cons kv its)
  obtain k v where kv: "kv = (k, v)" by (cases kv)
  obtain a s where a: "v = PLeaf a" and s: "simp_key k = Inr s" using Cons.prems kv by auto
  show ?case using Cons.IH [of "AList.update (KStr s) (PLeaf a) dest"] Cons.prems kv a s by simp
qed simp

lemma simp_key_cases: "simp_key k = Inl e \<Longrightarrow> e = TypeError"
  by (cases k) (auto split: if_splits)

lemma simp_key_str: "is_kstr k \<Longrightarrow> simp_key k = Inr (kstr_val k)"
  by (cases k) simp_all

lemma kstr_val_inj: "is_kstr k \<Longrightarrow> KStr (kstr_val k) = k"
  by (cases k) simp_all

lemma simplify_items_str:
  "simplify_items its dest = Inr d \<Longrightarrow> str_tree (PDict dest) \<Longrightarrow> str_tree (PDict d)"
proof (induction its dest arbitrary: d rule: simplify_items.induct)
  case (1 dest)
  then show ?case by simp
next
  case (2 k a rest dest)
  then obtain s where s: "simp_key k = Inr s"
    and r: "simplify_items rest (AList.update (KStr s) (PLeaf a) dest) = Inr d"
    by (auto split: sum.splits)
  have "str_tree (PDict (AList.update (KStr s) (PLeaf a) dest))"
    using "2.prems"(2) set_update_subset [of "KStr s" "PLeaf a" dest]
    by (auto simp: distinct_update list_all_iff update_keys)
  with "2.IH" [OF s r] show ?case .
next
  case (3 k its rest dest)
  then obtain s d' where s: "simp_key k = Inr s" and i: "simplify_items its [] = Inr d'"
    and r: "simplify_items rest (AList.update (KStr s) (PDict d') dest) = Inr d"
    by (auto split: sum.splits)
  have "str_tree (PDict d')" using "3.IH"(1) [OF s i] by simp
  then have "str_tree (PDict (AList.update (KStr s) (PDict d') dest))"
    using "3.prems"(2) set_update_subset [of "KStr s" "PDict d'" dest]
    by (auto simp: distinct_update list_all_iff update_keys)
  with "3.IH"(2) [OF s i r] show ?case .
qed

lemma simplify_items_idem:
  "str_tree (PDict its) \<Longrightarrow> fst ` set its \<inter> fst ` set dest = {} \<Longrightarrow>
   simplify_items its dest = Inr (dest @ its)"
proof (induction its dest rule: simplify_items.induct)
  case (1 dest)
  then show ?case by simp
next
  case (2 k a rest dest)
  then have k: "is_kstr k" "k \<notin> fst ` set dest" by auto
  have "simplify_items rest (AList.update (KStr (kstr_val k)) (PLeaf a) dest) =
        Inr (AList.update (KStr (kstr_val k)) (PLeaf a) dest @ rest)"
    using "2.prems" k by (intro "2.IH") (auto simp: simp_key_str kstr_val_inj update_append_new)
  with k show ?case by (simp add: simp_key_str kstr_val_inj update_append_new)
next
  case (3 k its rest dest)
  then have k: "is_kstr k" "k \<notin> fst ` set dest" by auto
  have i: "simplify_items its [] = Inr its"
    using "3.prems" k "3.IH"(1) [of "kstr_val k"] by (simp add: simp_key_str)
  have "simplify_items rest (AList.update (KStr (kstr_val k)) (PDict its) dest) =
        Inr (AList.update (KStr (kstr_val k)) (PDict its) dest @ rest)"
    using "3.prems" k i by (intro "3.IH"(2)) (auto simp: simp_key_str kstr_val_inj update_append_new)
  with k i show ?case by (simp add: simp_key_str kstr_val_inj update_append_new)
qed

lemma simplify_items_Inl:
  "simplify_items its dest = Inl e \<longleftrightarrow> e = TypeError \<and> bad_key (PDict its)"
proof (induction its dest arbitrary: e rule: simplify_items.induct)
  case (1 dest)
  then show ?case by simp
next
  case (2 k a rest dest)
  then show ?case by (cases "simp_key k") (auto dest: simp_key_cases)
next
  case (3 k its rest dest)
  then show ?case
    by (cases "simp_key k"; cases "simplify_items its []") (auto dest: simp_key_cases)
qed

section \<open>Properties of the report generator\<close>

text \<open>The report generator always has at least one format and exactly one output
  per format; formats passed in are used as given, and for a file name with several
  distinct formats the outputs are distinct files.\<close>

theorem report_init_outputs:
  "fst (report_init t formats) \<noteq> [] \<and>
   length (snd (report_init t formats)) = length (fst (report_init t formats)) \<and>
   (formats \<noteq> [] \<longrightarrow> fst (report_init t formats) = formats) \<and>
   (\<forall>f. t = ToPath f \<longrightarrow> distinct formats \<longrightarrow> distinct (snd (report_init t formats)))"
  by (cases t) (auto simp: report_init_def Let_def distinct_map inj_on_def)

theorem report_init_outputs_witness:
  "distinct (snd (report_init (ToPath ''qc/report'') [''txt'', ''json''])) \<and>
   length (snd (report_init (ToPath ''qc/report'') [''txt'', ''json''])) = 2"
  using report_init_outputs [of "ToPath ''qc/report''" "[''txt'', ''json'']"] by simp

text \<open>C29. A successful simplify returns a tree whose keys are distinct strings at every
  level.\<close>

theorem simplify_string_keys:
  assumes "simplify t = Inr t'"
  shows "str_tree t'"
proof (cases t)
  case (PDict its)
  with assms obtain d where "simplify_items its [] = Inr d" "t' = PDict d"
    by (auto split: sum.splits)
  then show ?thesis using simplify_items_str [of its "[]" d] by simp
qed (use assms in simp)

theorem simplify_string_keys_witness:
  "str_tree (PDict [(KStr ''1'', PLeaf (0::nat)), (KStr ''A,B'', PDict [(KStr ''None'', PLeaf 1)])])"
proof -
  have "simplify (PDict [(KInt 1, PLeaf (0::nat)), (KTuple [KStr ''A'', KStr ''B''], PDict [(KNone, PLeaf 1)])]) =
        Inr (PDict [(KStr ''1'', PLeaf 0), (KStr ''A,B'', PDict [(KStr ''None'', PLeaf 1)])])"
    by (simp add: int_str_def nat_str.simps comma_join_def)
  then show ?thesis by (rule simplify_string_keys)
qed

text \<open>C30. simplify is idempotent: simplifying a simplified summary returns it
  unchanged.\<close>

theorem simplify_idempotent:
  assumes "simplify t = Inr t'"
  shows "simplify t' = Inr t'"
proof (cases t')
  case (PDict its)
  have "str_tree t'"
  proof (cases t)
    case (PDict its0)
    with assms obtain d where "simplify_items its0 [] = Inr d" "t' = PDict d" by auto
    then show ?thesis using simplify_items_str [of its0 "[]" d] by simp
  qed (use assms in simp)
  with PDict have "simplify_items its [] = Inr its" by (simp add: simplify_items_idem)
  with PDict show ?thesis by simp
next
  case (PLeaf a)
  with assms show ?thesis by (cases t) (auto split: sum.splits)
qed

theorem simplify_idempotent_witness:
  "simplify (PDict [(KStr ''1'', PLeaf (0::nat))]) = Inr (PDict [(KStr ''1'', PLeaf 0)])"
proof -
  have "simplify (PDict [(KInt 1, PLeaf (0::nat))]) = Inr (PDict [(KStr ''1'', PLeaf 0)])"
    by (simp add: int_str_def nat_str.simps)
  then show ?thesis by (rule simplify_idempotent)
qed

text \<open>C31. simplify raises exactly TypeError when some key at some level is a tuple with
  a non-string element (','.join fails), and AttributeError when the summary is not a
  dictionary; it never raises anything else.\<close>

theorem simplify_errors:
  "simplify t = Inl e \<longleftrightarrow>
   (case t of PLeaf _ \<Rightarrow> e = AttributeError | PDict _ \<Rightarrow> e = TypeError \<and> bad_key t)"
  by (cases t) (auto simp: simplify_items_Inl split: sum.splits)

text \<open>C32. simplify merges keys that print alike: on a dictionary of plain values whose
  keys all convert, the result has one entry per converted key, in the order of first
  occurrence, holding the value of the last entry whose key converts to it (so 1 and
  "1" collide silently).\<close>

theorem simplify_last_wins:
  assumes "\<forall>kv\<in>set its. (\<exists>a. snd kv = PLeaf a) \<and> (\<exists>s. simp_key (fst kv) = Inr s)"
  shows "\<exists>d. simplify (PDict its) = Inr (PDict d) \<and>
             map fst d = insertion_order (map (\<lambda>kv. KStr (projr (simp_key (fst kv)))) its) \<and>
             (\<forall>s. map_of d (KStr s) = map_of (rev (map (\<lambda>kv. (KStr (projr (simp_key (fst kv))), snd kv)) its)) (KStr s))"
proof -
  let ?xs = "map (\<lambda>kv. (KStr (projr (simp_key (fst kv))), snd kv)) its"
  have "simplify (PDict its) = Inr (PDict (fold (\<lambda>(k, v) al. AList.update k v al) ?xs []))"
    using simplify_items_leaves [OF assms, of "[]"] by simp
  moreover have "map fst (fold (\<lambda>(k, v) al. AList.update k v al) ?xs []) =
                   insertion_order (map (\<lambda>kv. KStr (projr (simp_key (fst kv)))) its)"
    by (simp add: fold_update_keys insertion_order_def comp_def)
  moreover have "map_of (fold (\<lambda>(k, v) al. AList.update k v al) ?xs []) (KStr s) = map_of (rev ?xs) (KStr s)" for s
    by (simp add: fold_update_map_of)
  ultimately show ?thesis by blast
qed

theorem simplify_last_wins_witness:
  "\<exists>d. simplify (PDict [(KInt 1, PLeaf (0::nat)), (KStr ''x'', PLeaf 1), (KStr ''1'', PLeaf 2)]) = Inr (PDict d) \<and>
       map fst d = [KStr ''1'', KStr ''x''] \<and> map_of d (KStr ''1'') = Some (PLeaf 2)"
proof -
  have h: "\<forall>kv\<in>set [(KInt 1, PLeaf (0::nat)), (KStr ''x'', PLeaf 1), (KStr ''1'', PLeaf 2)].
             (\<exists>a. snd kv = PLeaf a) \<and> (\<exists>s. simp_key (fst kv) = Inr s)"
    by simp
  have one: "int_str 1 = ''1''" by (simp add: int_str_def nat_str.simps)
  obtain d where d: "simplify (PDict [(KInt 1, PLeaf (0::nat)), (KStr ''x'', PLeaf 1), (KStr ''1'', PLeaf 2)]) = Inr (PDict d)"
    and k: "map fst d = insertion_order (map (\<lambda>kv. KStr (projr (simp_key (fst kv))))
                          [(KInt 1, PLeaf (0::nat)), (KStr ''x'', PLeaf 1), (KStr ''1'', PLeaf 2)])"
    and v: "\<forall>s. map_of d (KStr s) = map_of (rev (map (\<lambda>kv. (KStr (projr (simp_key (fst kv))), snd kv))
                          [(KInt 1, PLeaf (0::nat)), (KStr ''x'', PLeaf 1), (KStr ''1'', PLeaf 2)])) (KStr s)"
    using simplify_last_wins [OF h] by blast
  have "map fst d = [KStr ''1'', KStr ''x'']" using k one by (simp add: insertion_order_def)
  moreover have "map_of d (KStr ''1'') = Some (PLeaf 2)" using v [rule_format, of "''1''"] one by simp
  ultimately show ?thesis using d by (intro exI [where x = d]) simp
qed

text \<open>C33. The summary a pickle output receives depends on the order of the formats:
  after a JSON output it is the simplified summary, before it the original one.\<close>

theorem report_loop_order:
  assumes "simplify s = Inr s'"
  shows "report_loop [(''pickle'', o1), (''json'', o2)] s =
           ([Serialize ''pickle'' (CHR ''b'') o1 s, Serialize ''json'' (CHR ''t'') o2 s'], None) \<and>
         report_loop [(''json'', o2), (''pickle'', o1)] s =
           ([Serialize ''json'' (CHR ''t'') o2 s', Serialize ''pickle'' (CHR ''b'') o1 s'], None)"
  using assms by (simp add: binary_serializers_def text_serializers_def)

theorem report_loop_order_witness:
  "report_loop [(''pickle'', OutFile ''r.pickle''), (''json'', OutFile ''r.json'')] (PDict [(KInt 1, PLeaf (0::nat))]) =
     ([Serialize ''pickle'' (CHR ''b'') (OutFile ''r.pickle'') (PDict [(KInt 1, PLeaf 0)]),
       Serialize ''json'' (CHR ''t'') (OutFile ''r.json'') (PDict [(KStr ''1'', PLeaf 0)])], None)"
proof -
  have "simplify (PDict [(KInt 1, PLeaf (0::nat))]) = Inr (PDict [(KStr ''1'', PLeaf 0)])"
    by (simp add: int_str_def nat_str.simps)
  from report_loop_order [OF this, of "OutFile ''r.pickle''" "OutFile ''r.json''"] show ?thesis by simp
qed

text \<open>C34. avg_sequence_length divides every present base-pair count by the record
  count and keeps None; it raises ZeroDivisionError exactly when there are no records
  and some count is present.\<close>

theorem avg_sequence_length_spec:
  "avg_sequence_length n bps =
     (if n = 0 \<and> (\<exists>b\<in>set bps. b \<noteq> None) then Inl ZeroDivisionError
      else Inr (map (map_option (\<lambda>b. of_nat b / of_nat n)) bps))"
  by (induction bps) (auto split: option.splits; metis option.distinct(1))+

end
