(* ===== verification/ReportIO.thy ===== *)
theory ReportIO
  imports Reports "HOL-Library.Word"
begin

text \<open>
  The effects of \<open>BaseReportGenerator\<close> (\<open>src/atropos/commands/reports.py\<close>): \<open>serialize\<close>,
  \<open>generate_text_report\<close>, \<open>generate_from_template\<close> and the whole of
  \<open>generate_reports\<close>, run against an explicit world of files and the two standard
  streams. The libraries the methods call are given at their interface: \<open>dump\<close> of the
  serializer module and Jinja2's \<open>render\<close> are fields of a \<open>report_lib\<close>; which modules
  can be imported, which paths cannot be opened and which outputs fail on write are
  fields of the world. Jinja2's \<open>FileSystemLoader\<close> (search the paths in order, first
  file found wins) and the printing of \<open>bytes\<close> by \<open>print\<close> (UTF-8 encoding and
  Python's \<open>bytes.__repr__\<close>) are modelled from the libraries' documented behaviour.

  The generator expression that \<open>__init__\<close> stores as \<open>report_files\<close> when a path gets
  several formats is consumed by the \<open>zip\<close> of \<open>generate_reports\<close>: \<open>report_gen\<close>
  records whether the outputs are such a generator, and the loop reports how many
  outputs it pulled.
\<close>

section \<open>Bytes as printed by print\<close>

type_synonym byte = "8 word"

text \<open>\<open>str.encode('utf-8')\<close> of a character below U+0100: one byte below 128, otherwise
  the two-byte sequence \<open>110000xx 10xxxxxx\<close>.\<close>

definition utf8_char :: "char \<Rightarrow> byte list" where
  "utf8_char c =
     (let n = of_char c :: nat
      in if n < 128 then [word_of_nat n] else [word_of_nat (192 + n div 64), word_of_nat (128 + n mod 64)])"

definition utf8_encode :: "string \<Rightarrow> byte list" where
  "utf8_encode s = concat (map utf8_char s)"

text \<open>The reference decoder, \<open>bytes.decode('utf-8')\<close> restricted to the code points a
  character of the model has.\<close>

fun utf8_decode :: "byte list \<Rightarrow> string option" where
  "utf8_decode [] = Some []"
| "utf8_decode (b # bs) =
     (if unat b < 128 then map_option (Cons (char_of (unat b))) (utf8_decode bs)
      else if unat b \<in> {194, 195} then
        (case bs of
           c # cs \<Rightarrow>
             if 128 \<le> unat c \<and> unat c < 192
             then map_option (Cons (char_of ((unat b - 192) * 64 + (unat c - 128)))) (utf8_decode cs)
             else None
         | [] \<Rightarrow> None)
      else None)"

definition hex_digit :: "nat \<Rightarrow> char" where
  "hex_digit n = ''0123456789abcdef'' ! n"

text \<open>One byte of \<open>bytes.__repr__\<close> (CPython \<open>PyBytes_Repr\<close>): the quote and the
  backslash escaped, tab, newline and carriage return by name, other control bytes and
  bytes from 127 on as \<open>\x\<close> with two lowercase hex digits.\<close>

definition repr_byte :: "char \<Rightarrow> byte \<Rightarrow> string" where
  "repr_byte q b =
     (let n = unat b
      in if char_of n = q \<or> n = 92 then [CHR 0x5C, char_of n]
         else if n = 9 then [CHR 0x5C, CHR ''t'']
         else if n = 10 then [CHR 0x5C, CHR ''n'']
         else if n = 13 then [CHR 0x5C, CHR ''r'']
         else if n < 32 \<or> 127 \<le> n then [CHR 0x5C, CHR ''x'', hex_digit (n div 16), hex_digit (n mod 16)]
         else [char_of n])"

text \<open>The quote is a single quote unless the bytes hold a single quote and no double
  quote.\<close>

definition bytes_repr :: "byte list \<Rightarrow> string" where
  "bytes_repr bs =
     (let q = (if list_ex (\<lambda>b. unat b = 39) bs \<and> \<not> list_ex (\<lambda>b. unat b = 34) bs
               then CHR 0x22 else CHR 0x27)
      in CHR ''b'' # q # concat (map (repr_byte q) bs) @ [q])"

section \<open>The world the reports are written to\<close>

text \<open>Files by path, the text written to the two standard streams, the serializer
  modules \<open>importlib\<close> can import, the paths \<open>open\<close> fails on (a missing directory, no
  permission: \<open>OSError\<close>, of which \<open>IOError\<close> is an alias), and the outputs whose
  writes fail.\<close>

record world =
  w_files :: "string \<rightharpoonup> string"
  w_stdout :: string
  w_stderr :: string
  w_modules :: "string list"
  w_unopenable :: "string list"
  w_broken :: "report_out list"

text \<open>\<open>open(path, 'w...')\<close> creates or truncates the file.\<close>

definition file_open :: "world \<Rightarrow> string \<Rightarrow> world exc" where
  "file_open w p =
     (if p \<in> set (w_unopenable w) then (w, Some OSError)
      else (w\<lparr>w_files := (w_files w)(p \<mapsto> [])\<rparr>, None))"

definition out_write :: "world \<Rightarrow> report_out \<Rightarrow> string \<Rightarrow> world exc" where
  "out_write w out s =
     (if out \<in> set (w_broken w) then (w, Some OSError)
      else (case out of
              OutStdout \<Rightarrow> (w\<lparr>w_stdout := w_stdout w @ s\<rparr>, None)
            | OutStderr \<Rightarrow> (w\<lparr>w_stderr := w_stderr w @ s\<rparr>, None)
            | OutFile p \<Rightarrow>
                (w\<lparr>w_files := (w_files w)(p \<mapsto> (case w_files w p of Some t \<Rightarrow> t | None \<Rightarrow> []) @ s)\<rparr>, None)))"

section \<open>Libraries at their interface\<close>

text \<open>\<open>mod.dump(obj, stream, **kwargs)\<close> of the serializer module named by the format,
  given the keyword names it is passed: the text it writes and the exception it raises;
  \<open>template.render(summary=...)\<close> of a template source under the environment's extra
  globals.\<close>

record 'a report_lib =
  lib_dump :: "string \<Rightarrow> string list \<Rightarrow> 'a pytree \<Rightarrow> string \<times> py_error option"
  lib_render :: "string \<Rightarrow> (string \<times> string) list \<Rightarrow> 'a pytree \<Rightarrow> py_error + string"

text \<open>The keyword arguments of \<open>generate_reports\<close>, passed on unchanged to \<open>serialize\<close>
  and to \<open>generate_text_report\<close>: the three that \<open>generate_from_template\<close> declares and the
  names of any others. \<open>kw_template_paths\<close> is the caller's list object, which
  \<open>generate_from_template\<close> may extend in place.\<close>

record report_kwargs =
  kw_template_name :: "string option"
  kw_template_paths :: "string list option"
  kw_template_globals :: "(string \<times> string) list option"
  kw_other :: "string list"

definition no_kwargs :: report_kwargs where
  "no_kwargs = \<lparr>kw_template_name = None, kw_template_paths = None, kw_template_globals = None, kw_other = []\<rparr>"

definition kwarg_names :: "report_kwargs \<Rightarrow> string list" where
  "kwarg_names kw =
     (if kw_template_name kw = None then [] else [''template_name''])
     @ (if kw_template_paths kw = None then [] else [''template_paths''])
     @ (if kw_template_globals kw = None then [] else [''template_globals''])
     @ kw_other kw"

section \<open>serialize\<close>

text \<open>Lines 88--100: \<open>importlib.import_module(fmt)\<close>, then \<open>open(outfile, 'w' + mode)\<close>,
  which needs a path: the stream objects \<open>__init__\<close> stores for \<open>STDOUT\<close>/\<open>STDERR\<close> make it
  raise \<open>TypeError\<close>. The mode only selects bytes or text, which the model does not
  distinguish.\<close>

definition serialize ::
  "'a report_lib \<Rightarrow> report_kwargs \<Rightarrow> world \<Rightarrow> 'a pytree \<Rightarrow> string \<Rightarrow> report_out \<Rightarrow> world exc" where
  "serialize lib kw w obj fmt out =
     (if fmt \<notin> set (w_modules w) then (w, Some ImportError)
      else (case out of
              OutFile p \<Rightarrow>
                exc_bind (file_open w p)
                  (\<lambda>w1. let (txt, e) = lib_dump lib fmt (kwarg_names kw) obj
                        in exc_bind (out_write w1 out txt) (\<lambda>w2. (w2, e)))
            | _ \<Rightarrow> (w, Some TypeError)))"

section \<open>generate_from_template\<close>

text \<open>Lines 149--154: the search path. An empty or missing list is replaced by a fresh
  one; a non-empty list given by the caller is the list that \<open>self.template_path\<close> is
  appended to. Returns the search path and the caller's list afterwards.\<close>

definition template_search :: "string list option \<Rightarrow> string option \<Rightarrow> string list \<times> string list option" where
  "template_search given tp =
     (let extra = (case tp of Some t \<Rightarrow> [t] | None \<Rightarrow> [])
      in case given of
           Some ps \<Rightarrow> if ps \<noteq> [] then (ps @ extra, Some (ps @ extra)) else (extra, Some ps)
         | None \<Rightarrow> (extra, None))"

text \<open>\<open>posixpath.join\<close> of a search path and a template name without a leading slash.\<close>

definition path_join :: "string \<Rightarrow> string \<Rightarrow> string" where
  "path_join d n = (if d = [] \<or> last d = CHR ''/'' then d @ n else d @ ''/'' @ n)"

text \<open>\<open>FileSystemLoader(paths)\<close> with \<open>get_template(name)\<close>: the first path holding the
  file; none is \<open>TemplateNotFound\<close>.\<close>

definition load_template :: "world \<Rightarrow> string list \<Rightarrow> string \<Rightarrow> string option" where
  "load_template w paths n =
     (case find (\<lambda>d. w_files w (path_join d n) \<noteq> None) paths of
        Some d \<Rightarrow> w_files w (path_join d n)
      | None \<Rightarrow> None)"

text \<open>Lines 132--184. A keyword the method does not declare is a \<open>TypeError\<close> of the
  call. Loading is inside \<open>try\<close>, so its failure becomes \<open>IOError\<close>; rendering is not.
  A path is opened (outside \<open>try\<close>) and gets the report and the newline of \<open>print\<close>; a
  stream gets the report encoded to \<open>bytes\<close>, which \<open>print\<close> writes as their \<open>repr\<close>. A
  failed write is re-raised as \<open>IOError\<close>; \<open>finally\<close> only closes the file.\<close>

definition generate_from_template ::
  "'a report_lib \<Rightarrow> string option \<Rightarrow> string \<Rightarrow> 'a pytree \<Rightarrow> report_out \<Rightarrow> world \<times> report_kwargs
   \<Rightarrow> (world \<times> report_kwargs) exc" where
  "generate_from_template lib tp fmt summary out st =
     (case st of (w, kw) \<Rightarrow>
      if kw_other kw \<noteq> [] then (st, Some TypeError)
      else
        (let name = (case kw_template_name kw of
                       Some n \<Rightarrow> if n = [] then ''template.'' @ fmt else n
                     | None \<Rightarrow> ''template.'' @ fmt);
             (paths, caller) = template_search (kw_template_paths kw) tp;
             kw' = kw\<lparr>kw_template_paths := caller\<rparr>
         in case load_template w paths name of
              None \<Rightarrow> ((w, kw'), Some OSError)
            | Some src \<Rightarrow>
                (case lib_render lib src (case kw_template_globals kw of Some g \<Rightarrow> g | None \<Rightarrow> []) summary of
                   Inl e \<Rightarrow> ((w, kw'), Some e)
                 | Inr rep \<Rightarrow>
                     (let r = (case out of
                                 OutFile p \<Rightarrow> exc_bind (file_open w p) (\<lambda>w1. out_write w1 out (rep @ [CHR 0x0A]))
                               | _ \<Rightarrow> out_write w out (bytes_repr (utf8_encode rep) @ [CHR 0x0A]))
                      in ((fst r, kw'), snd r)))))"

text \<open>Lines 127--130.\<close>

definition generate_text_report ::
  "'a report_lib \<Rightarrow> string option \<Rightarrow> string \<Rightarrow> 'a pytree \<Rightarrow> report_out \<Rightarrow> world \<times> report_kwargs
   \<Rightarrow> (world \<times> report_kwargs) exc" where
  "generate_text_report lib tp fmt summary out st = generate_from_template lib tp fmt summary out st"

section \<open>generate_reports\<close>

text \<open>The report files of \<open>__init__\<close>: a tuple, or (a path with a number of formats
  other than one) a generator expression that iteration consumes.\<close>

record report_gen =
  rg_formats :: "string list"
  rg_files :: "report_out list"
  rg_lazy :: bool

definition new_report_gen :: "report_target \<Rightarrow> string list \<Rightarrow> report_gen" where
  "new_report_gen target formats =
     (case report_init target formats of
        (fmts, outs) \<Rightarrow>
          \<lparr>rg_formats = fmts, rg_files = outs,
           rg_lazy = (case target of ToPath _ \<Rightarrow> length fmts \<noteq> 1 | _ \<Rightarrow> False)\<rparr>)"

text \<open>One iteration of lines 51--60: the world and keyword arguments after it, the
  summary later iterations see (rebound by a text serializer), the exception.\<close>

definition report_step ::
  "'a report_lib \<Rightarrow> string option \<Rightarrow> string \<Rightarrow> report_out \<Rightarrow> 'a pytree \<Rightarrow> world \<times> report_kwargs
   \<Rightarrow> (world \<times> report_kwargs) \<times> 'a pytree \<times> py_error option" where
  "report_step lib tp fmt out s st =
     (if fmt \<in> set binary_serializers then
        (case serialize lib (snd st) (fst st) s fmt out of (w', e) \<Rightarrow> ((w', snd st), s, e))
      else if fmt \<in> set text_serializers then
        (case simplify s of
           Inl e \<Rightarrow> (st, s, Some e)
         | Inr s' \<Rightarrow> (case serialize lib (snd st) (fst st) s' fmt out of (w', e) \<Rightarrow> ((w', snd st), s', e)))
      else (case generate_text_report lib tp fmt s out st of (st', e) \<Rightarrow> (st', s, e)))"

text \<open>The loop; it also returns how many (format, output) pairs \<open>zip\<close> pulled.\<close>

fun report_steps ::
  "'a report_lib \<Rightarrow> string option \<Rightarrow> (string \<times> report_out) list \<Rightarrow> 'a pytree \<Rightarrow> world \<times> report_kwargs
   \<Rightarrow> ((world \<times> report_kwargs) \<times> nat) \<times> py_error option" where
  "report_steps lib tp [] s st = ((st, 0), None)"
| "report_steps lib tp ((fmt, out) # rest) s st =
     (case report_step lib tp fmt out s st of
        (st1, s1, Some e) \<Rightarrow> ((st1, 1), Some e)
      | (st1, s1, None) \<Rightarrow>
          (case report_steps lib tp rest s1 st1 of ((st2, n), e) \<Rightarrow> ((st2, Suc n), e)))"

text \<open>Lines 38--60, with \<open>add_derived_data\<close> (line 49) as the function \<open>derive\<close> on the
  summary; the theory \<open>Derived\<close> defines it on dictionaries of Python values.\<close>

definition generate_reports ::
  "'a report_lib \<Rightarrow> string option \<Rightarrow> ('a pytree \<Rightarrow> py_error + 'a pytree) \<Rightarrow> 'a pytree
   \<Rightarrow> report_gen \<times> world \<times> report_kwargs \<Rightarrow> (report_gen \<times> world \<times> report_kwargs) exc" where
  "generate_reports lib tp derive summary st =
     (case st of (rg, w, kw) \<Rightarrow>
       (case derive summary of
          Inl e \<Rightarrow> (st, Some e)
        | Inr s \<Rightarrow>
            (case report_steps lib tp (zip (rg_formats rg) (rg_files rg)) s (w, kw) of
               (((w', kw'), n), e) \<Rightarrow>
                 ((if rg_lazy rg then rg\<lparr>rg_files := drop n (rg_files rg)\<rparr> else rg, w', kw'), e))))"


section \<open>prettyprint_summary\<close>

text \<open>Lines 186--191: \<open>pprint(summary, out)\<close> writes \<open>pformat(summary)\<close> and a newline to
  the opened file; \<open>pformat\<close> is the library's formatting. The default file name is
  \<open>summary.dump.txt\<close>.\<close>

definition prettyprint_summary :: "('a pytree \<Rightarrow> string) \<Rightarrow> world \<Rightarrow> 'a pytree \<Rightarrow> string \<Rightarrow> world exc" where
  "prettyprint_summary pformat w summary outfile =
     exc_bind (file_open w outfile) (\<lambda>w1. out_write w1 (OutFile outfile) (pformat summary @ [CHR 0x0A]))"

section \<open>Footprint\<close>

text \<open>A run changes only the files and streams in \<open>outs\<close>, and none of the fixed
  parts of the world.\<close>

definition unchanged_outside :: "report_out list \<Rightarrow> world \<Rightarrow> world \<Rightarrow> bool" where
  "unchanged_outside outs w w' =
     ((\<forall>p. OutFile p \<notin> set outs \<longrightarrow> w_files w' p = w_files w p)
      \<and> (OutStdout \<notin> set outs \<longrightarrow> w_stdout w' = w_stdout w)
      \<and> (OutStderr \<notin> set outs \<longrightarrow> w_stderr w' = w_stderr w)
      \<and> w_modules w' = w_modules w \<and> w_unopenable w' = w_unopenable w \<and> w_broken w' = w_broken w)"

section \<open>Lemmas\<close>

lemma unat_small_byte [simp]: "n < 256 \<Longrightarrow> unat (word_of_nat n :: byte) = n"
  by (simp add: unat_of_nat)

lemma char_of_eq_iff: "char_of (n::nat) = c \<longleftrightarrow> n mod 256 = of_char c"
  by (metis char_of_char of_char_of)

lemma hex_digit_printable: "k < 16 \<Longrightarrow> (32::nat) \<le> of_char (hex_digit k) \<and> of_char (hex_digit k) < (127::nat)"
proof -
  assume "k < 16"
  then have "hex_digit k \<in> set ''0123456789abcdef''" by (simp add: hex_digit_def nth_mem del: set_simps)
  then show ?thesis by auto
qed

lemma repr_byte_printable:
  assumes "q \<in> {CHR 0x22, CHR 0x27}" and "c \<in> set (repr_byte q b)"
  shows "(32::nat) \<le> of_char c \<and> of_char c < (127::nat)"
proof -
  define n where "n = unat b"
  have n: "n < 256" using unsigned_less [of b] by (simp add: n_def)
  have hi: "n div 16 < 16" and lo: "n mod 16 < 16" using n by simp_all
  have "c = CHR 0x5C \<or> c = q \<or> c = CHR ''t'' \<or> c = CHR ''n'' \<or> c = CHR ''r'' \<or> c = CHR ''x''
        \<or> c = hex_digit (n div 16) \<or> c = hex_digit (n mod 16) \<or> (c = char_of n \<and> 32 \<le> n \<and> n < 127)"
    using assms(2) by (auto simp: repr_byte_def Let_def n_def [symmetric] split: if_splits)
  then show ?thesis
    using assms(1) hex_digit_printable [OF hi] hex_digit_printable [OF lo] n by auto
qed

lemma bytes_repr_printable:
  assumes "c \<in> set (bytes_repr bs)"
  shows "(32::nat) \<le> of_char c \<and> of_char c < (127::nat)"
proof -
  define q where "q = (if list_ex (\<lambda>b. unat b = 39) bs \<and> \<not> list_ex (\<lambda>b. unat b = 34) bs
                       then CHR 0x22 else CHR 0x27)"
  have q: "q \<in> {CHR 0x22, CHR 0x27}" by (simp add: q_def)
  have "c = CHR ''b'' \<or> c = q \<or> (\<exists>b\<in>set bs. c \<in> set (repr_byte q b))"
    using assms by (auto simp: bytes_repr_def Let_def q_def [symmetric])
  then show ?thesis using repr_byte_printable [OF q] q by auto
qed

lemma utf8_decode_char: "utf8_decode (utf8_char c @ bs) = map_option (Cons c) (utf8_decode bs)"
proof -
  define n where "n = (of_char c :: nat)"
  have n: "n < 256" "char_of n = c" by (simp_all add: n_def)
  show ?thesis
  proof (cases "n < 128")
    case True
    then show ?thesis using n by (simp add: utf8_char_def n_def [symmetric])
  next
    case False
    then have d: "n div 64 \<in> {2, 3}" using n(1) by auto
    have m: "n mod 64 < 64" by simp
    have r: "(n div 64) * 64 + n mod 64 = n" by simp
    have b1: "unat (word_of_nat (192 + n div 64) :: byte) = 192 + n div 64"
      using d by (intro unat_small_byte) auto
    have b2: "unat (word_of_nat (128 + n mod 64) :: byte) = 128 + n mod 64"
      using m by (intro unat_small_byte) auto
    have u: "utf8_char c = [word_of_nat (192 + n div 64), word_of_nat (128 + n mod 64)]"
      using False by (simp add: utf8_char_def n_def [symmetric] del: of_nat_add)
    show ?thesis using d m r n(2) by (auto simp add: u b1 b2 simp del: of_nat_add)
  qed
qed

theorem utf8_roundtrip: "utf8_decode (utf8_encode s) = Some s"
  by (induction s) (simp_all add: utf8_encode_def utf8_decode_char)

lemma report_steps_ok_length:
  "report_steps lib tp ps s st = ((st', n), None) \<Longrightarrow> n = length ps"
  by (induction lib tp ps s st arbitrary: st' n rule: report_steps.induct)
     (auto split: prod.splits option.splits)

lemma new_report_gen_path:
  assumes "2 \<le> length fmts"
  shows "new_report_gen (ToPath f) fmts =
           \<lparr>rg_formats = fmts, rg_files = map (\<lambda>fmt. OutFile (f @ ''.'' @ fmt)) fmts, rg_lazy = True\<rparr>"
proof -
  have "fmts \<noteq> [] \<and> length fmts \<noteq> 1" using assms by auto
  then show ?thesis by (simp add: new_report_gen_def report_init_def Let_def)
qed

text \<open>C28. A report generator for a path with two or more formats keeps its output names in a generator expression: after one successful generate_reports the generator is exhausted, so every later call, whatever the summary, writes nothing and raises nothing.\<close>

theorem generate_reports_exhausts_files:
  assumes "2 \<le> length fmts"
    and "generate_reports lib tp derive s (new_report_gen (ToPath f) fmts, w, kw) = ((rg1, w1, kw1), None)"
    and "derive s2 = Inr s2'"
  shows "rg_files rg1 = [] \<and> generate_reports lib tp derive s2 (rg1, w2, kw2) = ((rg1, w2, kw2), None)"
proof -
  obtain s' where d: "derive s = Inr s'"
    using assms(2) by (cases "derive s") (simp_all add: generate_reports_def)
  obtain st' n where steps:
    "report_steps lib tp (zip fmts (map (\<lambda>fmt. OutFile (f @ ''.'' @ fmt)) fmts)) s' (w, kw) = ((st', n), None)"
    and rg1: "rg1 = \<lparr>rg_formats = fmts, rg_files = drop n (map (\<lambda>fmt. OutFile (f @ ''.'' @ fmt)) fmts), rg_lazy = True\<rparr>"
    using assms(2) d by (auto simp: generate_reports_def new_report_gen_path [OF assms(1)] split: prod.splits)
  have "n = length fmts" using report_steps_ok_length [OF steps] by simp
  then have "rg_files rg1 = []" using rg1 by simp
  moreover have "generate_reports lib tp derive s2 (rg1, w2, kw2) = ((rg1, w2, kw2), None)"
    using assms(3) \<open>rg_files rg1 = []\<close> rg1 by (simp add: generate_reports_def)
  ultimately show ?thesis by blast
qed


lemma new_report_gen_stream:
  "t \<in> {ToStdout, ToStderr} \<Longrightarrow> fmts \<noteq> [] \<Longrightarrow>
   new_report_gen t fmts = \<lparr>rg_formats = fmts, rg_files = replicate (length fmts) (if t = ToStdout then OutStdout else OutStderr), rg_lazy = False\<rparr>"
  by (auto simp: new_report_gen_def report_init_def)

text \<open>C36. A text report to standard output is encoded to bytes before print, so standard output receives the repr b'...' of the UTF-8 bytes followed by one newline, and the newlines of the report appear only as escapes.\<close>

theorem text_report_to_stream:
  assumes "derive s = Inr s'"
    and "w_files w (path_join d ''template.txt'') = Some src"
    and "lib_render lib src [] s' = Inr rep"
    and "OutStdout \<notin> set (w_broken w)"
  shows "generate_reports lib (Some d) derive s (new_report_gen ToStdout [], w, no_kwargs) =
           ((new_report_gen ToStdout [],
             w\<lparr>w_stdout := w_stdout w @ bytes_repr (utf8_encode rep) @ [CHR 0x0A]\<rparr>, no_kwargs), None)
         \<and> CHR 0x0A \<notin> set (bytes_repr (utf8_encode rep))"
proof
  have g: "new_report_gen ToStdout [] = \<lparr>rg_formats = [''txt''], rg_files = [OutStdout], rg_lazy = False\<rparr>"
    by (simp add: new_report_gen_def report_init_def)
  have l: "load_template w [d] ''template.txt'' = Some src"
    using assms(2) by (simp add: load_template_def)
  show "generate_reports lib (Some d) derive s (new_report_gen ToStdout [], w, no_kwargs) =
           ((new_report_gen ToStdout [],
             w\<lparr>w_stdout := w_stdout w @ bytes_repr (utf8_encode rep) @ [CHR 0x0A]\<rparr>, no_kwargs), None)"
    using assms(1,3,4) l
    by (simp add: g generate_reports_def report_step_def binary_serializers_def text_serializers_def
                  generate_text_report_def generate_from_template_def no_kwargs_def template_search_def
                  out_write_def)
  show "CHR 0x0A \<notin> set (bytes_repr (utf8_encode rep))"
    using bytes_repr_printable by fastforce
qed

text \<open>C21. A JSON, YAML or pickle report to standard output or standard error always
  fails: serialize opens the stream object that __init__ stored as the output, open()
  rejects it with TypeError, and nothing is written anywhere.\<close>

theorem serialize_to_stream_fails:
  assumes "t \<in> {ToStdout, ToStderr}" and "fmt \<in> set (binary_serializers @ text_serializers)"
    and "fmt \<in> set (w_modules w)" and "derive s = Inr s'" and "simplify s' = Inr s''"
  shows "generate_reports lib tp derive s (new_report_gen t [fmt], w, kw) =
           ((new_report_gen t [fmt], w, kw), Some TypeError)"
proof -
  have g: "new_report_gen t [fmt] =
             \<lparr>rg_formats = [fmt], rg_files = [if t = ToStdout then OutStdout else OutStderr], rg_lazy = False\<rparr>"
    using new_report_gen_stream [OF assms(1), of "[fmt]"] by simp
  have "serialize lib kw w x fmt (if t = ToStdout then OutStdout else OutStderr) = (w, Some TypeError)" for x :: "'a pytree"
    using assms(3) by (simp add: serialize_def)
  then show ?thesis
    using assms(2,4,5) by (auto simp: g generate_reports_def report_step_def)
qed

theorem serialize_to_stream_fails_witness:
  "generate_reports (\<lparr>lib_dump = (\<lambda>m ks t. (''{}'', None)), lib_render = (\<lambda>src g t. Inr src)\<rparr> :: nat report_lib) None Inr (PDict [(KInt 1, PLeaf 2)])
      (new_report_gen ToStdout [''json''], \<lparr>w_files = Map.empty, w_stdout = [], w_stderr = [], w_modules = [''json'', ''pickle''], w_unopenable = [], w_broken = []\<rparr>, no_kwargs) =
     ((new_report_gen ToStdout [''json''], \<lparr>w_files = Map.empty, w_stdout = [], w_stderr = [], w_modules = [''json'', ''pickle''], w_unopenable = [], w_broken = []\<rparr>, no_kwargs), Some TypeError)"
  using serialize_to_stream_fails [of ToStdout "''json''" "\<lparr>w_files = Map.empty, w_stdout = [], w_stderr = [], w_modules = [''json'', ''pickle''], w_unopenable = [], w_broken = []\<rparr>" Inr "PDict [(KInt 1, PLeaf 2)]"
                                      "PDict [(KInt 1, PLeaf 2)]" "PDict [(KStr ''1'', PLeaf 2)]" "\<lparr>lib_dump = (\<lambda>m ks t. (''{}'', None)), lib_render = (\<lambda>src g t. Inr src)\<rparr> :: nat report_lib" None no_kwargs]
  by (simp add: binary_serializers_def text_serializers_def int_str_def nat_str.simps)


lemma unchanged_outside_refl [simp]: "unchanged_outside outs w w"
  by (simp add: unchanged_outside_def)

lemma unchanged_outside_trans:
  "unchanged_outside outs w w1 \<Longrightarrow> unchanged_outside outs w1 w2 \<Longrightarrow> unchanged_outside outs w w2"
  by (simp add: unchanged_outside_def)

lemma unchanged_outside_mono:
  "unchanged_outside outs w w' \<Longrightarrow> set outs \<subseteq> set outs' \<Longrightarrow> unchanged_outside outs' w w'"
  by (auto simp: unchanged_outside_def)

lemma file_open_outside: "unchanged_outside [OutFile p] w (fst (file_open w p))"
  by (simp add: file_open_def unchanged_outside_def)

lemma out_write_outside: "unchanged_outside [out] w (fst (out_write w out t))"
  by (cases out) (simp_all add: out_write_def unchanged_outside_def)

lemma exc_bind_outside:
  "unchanged_outside outs w (fst r) \<Longrightarrow> (\<And>w1. unchanged_outside outs w1 (fst (f w1))) \<Longrightarrow>
   unchanged_outside outs w (fst (exc_bind r f))"
  by (cases r) (auto simp: exc_bind_def split: option.splits intro: unchanged_outside_trans)

lemma prettyprint_summary_outside: "unchanged_outside [OutFile f] w (fst (prettyprint_summary pformat w x f))"
  unfolding prettyprint_summary_def
  by (rule exc_bind_outside [OF file_open_outside out_write_outside])

lemma serialize_outside: "unchanged_outside [out] w (fst (serialize lib kw w x fmt out))"
proof (cases out)
  case (OutFile p)
  have "unchanged_outside [out] w1 (fst (let (txt, e) = lib_dump lib fmt (kwarg_names kw) x
                                          in exc_bind (out_write w1 out txt) (\<lambda>w2. (w2, e))))" for w1
    by (auto split: prod.splits intro!: exc_bind_outside out_write_outside)
  moreover have "unchanged_outside [out] w (fst (file_open w p))"
    using file_open_outside [of p w] OutFile by simp
  ultimately show ?thesis
    using OutFile by (simp add: serialize_def exc_bind_outside)
qed (simp_all add: serialize_def)

lemma generate_from_template_outside:
  "unchanged_outside [out] (fst st) (fst (fst (generate_from_template lib tp fmt x out st)))"
proof -
  have f: "unchanged_outside [out] w (fst (case out of
              OutFile p \<Rightarrow> exc_bind (file_open w p) (\<lambda>w1. out_write w1 out t)
            | _ \<Rightarrow> out_write w out t'))" for w t t'
  proof (cases out)
    case (OutFile p)
    then show ?thesis
      using file_open_outside [of p w] by (simp add: exc_bind_outside out_write_outside)
  qed (simp_all add: out_write_outside)
  show ?thesis
    using f by (auto simp: generate_from_template_def Let_def split: prod.splits option.splits sum.splits)
qed

lemma report_step_outside:
  "unchanged_outside [out] (fst st) (fst (fst (report_step lib tp fmt out x st)))"
proof -
  have s: "unchanged_outside [out] (fst st) (fst (serialize lib (snd st) (fst st) y fmt out))" for y
    by (rule serialize_outside)
  have g: "unchanged_outside [out] (fst st) (fst (fst (generate_from_template lib tp fmt x out st)))"
    by (rule generate_from_template_outside)
  show ?thesis
    unfolding report_step_def generate_text_report_def
    using s g by (simp add: prod.case_eq_if split: sum.split)
qed

lemma report_steps_outside:
  "unchanged_outside (map snd ps) (fst st) (fst (fst (fst (report_steps lib tp ps x st))))"
proof (induction lib tp ps x st rule: report_steps.induct)
  case (2 lib tp fmt out rest s st)
  have one: "unchanged_outside (map snd ((fmt, out) # rest)) (fst st) (fst (fst (report_step lib tp fmt out s st)))"
    by (rule unchanged_outside_mono [OF report_step_outside]) auto
  show ?case
  proof (cases "report_step lib tp fmt out s st")
    case (fields st1 s1 e)
    show ?thesis
    proof (cases e)
      case None
      have "unchanged_outside (map snd ((fmt, out) # rest)) (fst st1) (fst (fst (fst (report_steps lib tp rest s1 st1))))"
        by (rule unchanged_outside_mono [OF "2.IH" [OF fields [symmetric] refl None]]) auto
      then show ?thesis
        using one fields None by (auto split: prod.splits intro: unchanged_outside_trans)
    qed (use one fields in simp)
  qed
qed simp

text \<open>C39. generate_reports changes no file and no stream other than the outputs of the generator, and never the modules, unopenable paths or failing outputs of the world, whether or not it raises.\<close>

theorem generate_reports_outputs_only:
  assumes "generate_reports lib tp derive s (rg, w, kw) = ((rg', w', kw'), e)"
  shows "unchanged_outside (rg_files rg) w w'"
proof (cases "derive s")
  case (Inl err)
  then show ?thesis using assms by (simp add: generate_reports_def)
next
  case (Inr s')
  have sub: "set (map snd (zip (rg_formats rg) (rg_files rg))) \<subseteq> set (rg_files rg)"
    by (auto dest: set_zip_rightD)
  have "unchanged_outside (rg_files rg) w
          (fst (fst (fst (report_steps lib tp (zip (rg_formats rg) (rg_files rg)) s' (w, kw)))))"
    using unchanged_outside_mono [OF report_steps_outside [where ps = "zip (rg_formats rg) (rg_files rg)" and st = "(w, kw)"] sub]
    by simp
  moreover have "w' = fst (fst (fst (report_steps lib tp (zip (rg_formats rg) (rg_files rg)) s' (w, kw))))"
    using assms Inr by (auto simp: generate_reports_def split: prod.splits)
  ultimately show ?thesis by simp
qed

lemma template_paths_extended:
  assumes "kw_other kw = []" and "kw_template_paths kw = Some ps" and "ps \<noteq> []"
  shows "kw_template_paths (snd (fst (generate_from_template lib (Some t) fmt x out (w, kw)))) = Some (ps @ [t])"
  using assms by (auto simp: generate_from_template_def template_search_def Let_def split: option.splits sum.splits)


theorem generate_reports_exhausts_files_witness:
  "let rg1 = fst (fst (generate_reports (\<lparr>lib_dump = (\<lambda>m ks t. (''{}'', None)), lib_render = (\<lambda>src g t. Inr src)\<rparr> :: nat report_lib) None Inr (PDict [])
                     (new_report_gen (ToPath ''r'') [''json'', ''pickle''], \<lparr>w_files = Map.empty, w_stdout = [], w_stderr = [], w_modules = [''json'', ''pickle''], w_unopenable = [], w_broken = []\<rparr>, no_kwargs)))
   in rg_files rg1 = [] \<and>
      generate_reports (\<lparr>lib_dump = (\<lambda>m ks t. (''{}'', None)), lib_render = (\<lambda>src g t. Inr src)\<rparr> :: nat report_lib) None Inr (PDict [(KInt 1, PLeaf 2)]) (rg1, \<lparr>w_files = Map.empty, w_stdout = [], w_stderr = [], w_modules = [''json'', ''pickle''], w_unopenable = [], w_broken = []\<rparr>, no_kwargs) =
        ((rg1, \<lparr>w_files = Map.empty, w_stdout = [], w_stderr = [], w_modules = [''json'', ''pickle''], w_unopenable = [], w_broken = []\<rparr>, no_kwargs), None)"
proof -
  let ?g = "generate_reports (\<lparr>lib_dump = (\<lambda>m ks t. (''{}'', None)), lib_render = (\<lambda>src g t. Inr src)\<rparr> :: nat report_lib) None Inr (PDict [])
              (new_report_gen (ToPath ''r'') [''json'', ''pickle''], \<lparr>w_files = Map.empty, w_stdout = [], w_stderr = [], w_modules = [''json'', ''pickle''], w_unopenable = [], w_broken = []\<rparr>, no_kwargs)"
  have "snd ?g = None"
    by (simp add: generate_reports_def new_report_gen_def report_init_def report_step_def serialize_def
                  binary_serializers_def text_serializers_def file_open_def out_write_def no_kwargs_def kwarg_names_def)
  then have "?g = ((fst (fst ?g), fst (snd (fst ?g)), snd (snd (fst ?g))), None)"
    by (metis prod.collapse)
  from generate_reports_exhausts_files [OF _ this, of "PDict [(KInt 1, PLeaf 2)]"]
  show ?thesis by (simp add: Let_def)
qed

theorem text_report_to_stream_witness:
  "generate_reports (\<lparr>lib_dump = (\<lambda>m ks t. (''{}'', None)), lib_render = (\<lambda>src g t. Inr src)\<rparr> :: nat report_lib) (Some ''tpl'') Inr (PDict [])
      (new_report_gen ToStdout [], \<lparr>w_files = [''tpl/template.txt'' \<mapsto> ''ok'' @ [CHR 0x0A]], w_stdout = [], w_stderr = [], w_modules = [], w_unopenable = [], w_broken = []\<rparr>, no_kwargs) =
     ((new_report_gen ToStdout [], \<lparr>w_files = [''tpl/template.txt'' \<mapsto> ''ok'' @ [CHR 0x0A]], w_stdout = [], w_stderr = [], w_modules = [], w_unopenable = [], w_broken = []\<rparr>\<lparr>w_stdout := ''b'' @ [CHR 0x27] @ ''ok'' @ [CHR 0x5C, CHR ''n''] @ [CHR 0x27, CHR 0x0A]\<rparr>, no_kwargs), None)"
proof -
  have "generate_reports (\<lparr>lib_dump = (\<lambda>m ks t. (''{}'', None)), lib_render = (\<lambda>src g t. Inr src)\<rparr> :: nat report_lib) (Some ''tpl'') Inr (PDict [])
      (new_report_gen ToStdout [], \<lparr>w_files = [''tpl/template.txt'' \<mapsto> ''ok'' @ [CHR 0x0A]], w_stdout = [], w_stderr = [], w_modules = [], w_unopenable = [], w_broken = []\<rparr>, no_kwargs) =
     ((new_report_gen ToStdout [], \<lparr>w_files = [''tpl/template.txt'' \<mapsto> ''ok'' @ [CHR 0x0A]], w_stdout = [], w_stderr = [], w_modules = [], w_unopenable = [], w_broken = []\<rparr>\<lparr>w_stdout := w_stdout \<lparr>w_files = [''tpl/template.txt'' \<mapsto> ''ok'' @ [CHR 0x0A]], w_stdout = [], w_stderr = [], w_modules = [], w_unopenable = [], w_broken = []\<rparr> @ bytes_repr (utf8_encode (''ok'' @ [CHR 0x0A])) @ [CHR 0x0A]\<rparr>, no_kwargs), None)"
    using text_report_to_stream [of Inr "PDict []" "PDict []" "\<lparr>w_files = [''tpl/template.txt'' \<mapsto> ''ok'' @ [CHR 0x0A]], w_stdout = [], w_stderr = [], w_modules = [], w_unopenable = [], w_broken = []\<rparr>" "''tpl''" "''ok'' @ [CHR 0x0A]" "\<lparr>lib_dump = (\<lambda>m ks t. (''{}'', None)), lib_render = (\<lambda>src g t. Inr src)\<rparr> :: nat report_lib" "''ok'' @ [CHR 0x0A]"]
    by (simp add: path_join_def)
  moreover have "bytes_repr (utf8_encode (''ok'' @ [CHR 0x0A])) = ''b'' @ [CHR 0x27] @ ''ok'' @ [CHR 0x5C, CHR ''n''] @ [CHR 0x27]"
    by (simp add: bytes_repr_def utf8_encode_def utf8_char_def repr_byte_def char_of_eq_iff Let_def)
  ultimately show ?thesis by simp
qed

theorem generate_reports_outputs_only_witness:
  "unchanged_outside [OutFile ''r.json'', OutFile ''r.pickle''] \<lparr>w_files = Map.empty, w_stdout = [], w_stderr = [], w_modules = [''json'', ''pickle''], w_unopenable = [], w_broken = []\<rparr>
     (fst (snd (fst (generate_reports (\<lparr>lib_dump = (\<lambda>m ks t. (''{}'', None)), lib_render = (\<lambda>src g t. Inr src)\<rparr> :: nat report_lib) None Inr (PDict [])
        (new_report_gen (ToPath ''r'') [''json'', ''pickle''], \<lparr>w_files = Map.empty, w_stdout = [], w_stderr = [], w_modules = [''json'', ''pickle''], w_unopenable = [], w_broken = []\<rparr>, no_kwargs)))))"
proof -
  let ?g = "generate_reports (\<lparr>lib_dump = (\<lambda>m ks t. (''{}'', None)), lib_render = (\<lambda>src g t. Inr src)\<rparr> :: nat report_lib) None Inr (PDict [])
              (new_report_gen (ToPath ''r'') [''json'', ''pickle''], \<lparr>w_files = Map.empty, w_stdout = [], w_stderr = [], w_modules = [''json'', ''pickle''], w_unopenable = [], w_broken = []\<rparr>, no_kwargs)"
  have "?g = ((fst (fst ?g), fst (snd (fst ?g)), snd (snd (fst ?g))), snd ?g)" by simp
  from generate_reports_outputs_only [OF this]
  show ?thesis by (simp add: new_report_gen_def report_init_def)
qed

end
