(* ===== verification/Derived.thy ===== *)
theory Derived
  imports ReportIO
begin














section \<open>Summaries built from typed data\<close>





section \<open>Lemmas\<close>









end
