(* ===== verification/Paper.thy ===== *)
theory Paper
  imports Prelude "HOL-Library.Product_Lexorder"
begin

text \<open>
  \<open>src/paper/workflow/bin/show_simulated_accuracy.py\<close>. The \<open>tex\<close> branch: the rows with
  4 threads and no quality cutoff are kept, the derived columns are added, the table is
  melted into long form over the ten value columns, each row gets its level (\<open>pct\<close>,
  \<open>reads\<close> or \<open>bases\<close>) from the column name, the column names are replaced by their
  display names, the long table is pivoted (mean per cell), and datasets and programs
  are optionally relabelled. Then \<open>main\<close>: the outputs of the three formats in their
  fixed order. A table row is a record of the columns the script reads; pandas division
  of integer columns is exact here, with its infinities and NaN for a zero divisor.
  Parsing the command line and the input file, the contents of the text and pickle
  outputs, the float formatting of error rates and the Mako template are given at their
  interface.
\<close>

record sim_row =
  dataset :: string
  program :: string
  threads :: int
  qcut :: int
  nonadapter_trimmed :: int
  adapter_overtrimmed :: int
  adapter_untrimmed :: int
  adapter_undertrimmed :: int
  retained_reads :: int
  overtrimmed_bases :: int
  undertrimmed_bases :: int
  total_ref_bases :: int

datatype pdnum = Fin rat | PosInf | NegInf | NaN

text \<open>Division of two integer Series elements.\<close>

definition pd_div :: "int \<Rightarrow> int \<Rightarrow> pdnum" where
  "pd_div a b =
     (if b \<noteq> 0 then Fin (of_int a / of_int b)
      else if 0 < a then PosInf else if a < 0 then NegInf else NaN)"

definition adapter_cols :: "string list" where
  "adapter_cols = [''non-adapter reads trimmed'', ''adapter reads overtrimmed'',
                   ''total adapter reads undertrimmed'']"

definition adapter_pct_cols :: "string list" where
  "adapter_pct_cols = map (\<lambda>c. ''pct'' @ c) adapter_cols"

definition base_cols :: "string list" where
  "base_cols = [''overtrimmed bases'', ''undertrimmed bases'']"

definition total_cols :: "string list" where
  "total_cols = [''reads total error'', ''bases total error'']"

definition all_cols :: "string list" where
  "all_cols = adapter_cols @ adapter_pct_cols @ base_cols @ total_cols"

definition new_cols :: "string list" where
  "new_cols = [''Wrongly Trimmed'', ''Over-trimmed'', ''Under-trimmed'',
               ''Wrongly Trimmed'', ''Over-trimmed'', ''Under-trimmed'',
               ''Over-trimmed'', ''Under-trimmed'', ''Total Error'', ''Total Error'']"

text \<open>\<open>col_map = dict(zip(all_cols, new_cols))\<close>, applied by \<open>replace\<close>: a name that is
  not a key stays as it is.\<close>

definition col_map :: "string \<Rightarrow> string" where
  "col_map v = (case map_of (zip all_cols new_cols) v of Some n \<Rightarrow> n | None \<Rightarrow> v)"

text \<open>\<open>textable[(textable.threads==4) & (textable.qcut==0)]\<close>.\<close>

definition select_rows :: "sim_row list \<Rightarrow> sim_row list" where
  "select_rows rows = filter (\<lambda>r. threads r = 4 \<and> qcut r = 0) rows"

text \<open>The value of a column after the derived columns of lines 72--78 are added.\<close>

definition col_value :: "sim_row \<Rightarrow> string \<Rightarrow> pdnum" where
  "col_value r c =
     (let adapter = [nonadapter_trimmed r, adapter_overtrimmed r,
                     adapter_untrimmed r + adapter_undertrimmed r]
      in if c = ''non-adapter reads trimmed'' then Fin (of_int (adapter ! 0))
         else if c = ''adapter reads overtrimmed'' then Fin (of_int (adapter ! 1))
         else if c = ''total adapter reads undertrimmed'' then Fin (of_int (adapter ! 2))
         else if c = ''pctnon-adapter reads trimmed'' then pd_div (adapter ! 0) (retained_reads r)
         else if c = ''pctadapter reads overtrimmed'' then pd_div (adapter ! 1) (retained_reads r)
         else if c = ''pcttotal adapter reads undertrimmed'' then pd_div (adapter ! 2) (retained_reads r)
         else if c = ''overtrimmed bases'' then Fin (of_int (overtrimmed_bases r))
         else if c = ''undertrimmed bases'' then Fin (of_int (undertrimmed_bases r))
         else if c = ''reads total error'' then pd_div (sum_list adapter) (retained_reads r)
         else if c = ''bases total error'' then
           pd_div (overtrimmed_bases r + undertrimmed_bases r) (total_ref_bases r)
         else NaN)"

text \<open>\<open>melt(id_vars=['dataset', 'program'], value_vars=all_cols)\<close>: column by column,
  each column over all rows.\<close>

definition melt :: "sim_row list \<Rightarrow> (string \<times> string \<times> string \<times> pdnum) list" where
  "melt rows = concat (map (\<lambda>c. map (\<lambda>r. (dataset r, program r, c, col_value r c)) rows) all_cols)"

definition contains :: "string \<Rightarrow> string \<Rightarrow> bool" where
  "contains p s = list_ex (\<lambda>i. take (length p) (drop i s) = p) [0..<Suc (length s)]"

text \<open>\<open>to_level(var)\<close>.\<close>

definition to_level :: "string \<Rightarrow> string" where
  "to_level v = (if contains ''pct'' v then ''pct'' else if contains ''reads'' v then ''reads'' else ''bases'')"

text \<open>The long table of line 91: dataset, program, level, display name, value.\<close>

definition tex_long :: "sim_row list \<Rightarrow> (string \<times> string \<times> string \<times> string \<times> pdnum) list" where
  "tex_long rows =
     map (\<lambda>(d, p, v, x). (d, p, to_level v, col_map v, x)) (melt (select_rows rows))"

section \<open>The pivot and the relabelling\<close>

text \<open>The mean \<open>pivot_table\<close> takes of a cell: NaN values are skipped, no value left is
  NaN, infinities of both signs give NaN.\<close>

definition pd_mean :: "pdnum list \<Rightarrow> pdnum" where
  "pd_mean xs =
     (let ys = filter (\<lambda>x. x \<noteq> NaN) xs
      in if ys = [] then NaN
         else if PosInf \<in> set ys \<and> NegInf \<in> set ys then NaN
         else if PosInf \<in> set ys then PosInf
         else if NegInf \<in> set ys then NegInf
         else Fin (sum_list (map (\<lambda>x. case x of Fin q \<Rightarrow> q | _ \<Rightarrow> 0) ys) / of_nat (length ys)))"

type_synonym pivot = "((string \<times> string) \<times> ((string \<times> string) \<times> pdnum) list) list"

definition pivot_cell ::
  "(string \<times> string \<times> string \<times> string \<times> pdnum) list \<Rightarrow> string \<times> string \<Rightarrow> string \<times> string \<Rightarrow> pdnum" where
  "pivot_cell long r c = pd_mean (map (\<lambda>(d, p, l, n, x). x) (filter (\<lambda>(d, p, l, n, x). (d, p) = r \<and> (l, n) = c) long))"

text \<open>Lines 93--95: \<open>pivot_table(index=['dataset', 'program'], columns=['datalevel',
  'variable'])\<close> with the default mean, rows and columns in sorted order, a column whose
  cells are all NaN dropped, then \<open>sort_index()\<close> and \<open>droplevel(0)\<close> of the \<open>value\<close>
  level: a row per (dataset, program), a cell per (level, display name).\<close>

definition tex_pivot :: "(string \<times> string \<times> string \<times> string \<times> pdnum) list \<Rightarrow> pivot" where
  "tex_pivot long =
     (let rows = sort (remdups (map (\<lambda>(d, p, l, n, x). (d, p)) long));
          cols = filter (\<lambda>c. list_ex (\<lambda>r. pivot_cell long r c \<noteq> NaN) rows)
                   (sort (remdups (map (\<lambda>(d, p, l, n, x). (l, n)) long)))
      in map (\<lambda>r. (r, map (\<lambda>c. (c, pivot_cell long r c)) cols)) rows)"

text \<open>\<open>index.set_levels(new, level)\<close> after mapping each value of that index level
  (its sorted distinct values): a missing key of the lookup table is a \<open>KeyError\<close>,
  two values mapped to the same label a \<open>ValueError\<close> (level values must be unique);
  otherwise each row's value is replaced in place and the rows keep their order.\<close>

definition relabel_level ::
  "(string \<Rightarrow> string option) \<Rightarrow> ((string \<times> string) \<Rightarrow> string) \<Rightarrow> (string \<Rightarrow> (string \<times> string) \<Rightarrow> string \<times> string)
   \<Rightarrow> pivot \<Rightarrow> py_error + pivot" where
  "relabel_level lookup get put pv =
     (let vals = sort (remdups (map (\<lambda>row. get (fst row)) pv))
      in if \<exists>v\<in>set vals. lookup v = None then Inl KeyError
         else if \<not> distinct (map (\<lambda>v. the (lookup v)) vals) then Inl ValueError
         else Inr (map (\<lambda>(k, cells). (put (the (lookup (get k))) k, cells)) pv))"

text \<open>Lines 98--105: the error-rate table grouped by \<open>Requested\<close> with the mean of
  \<open>Actual\<close>; a dataset becomes \<open>str(round(actual, 3))\<close>, whose float formatting is the
  parameter \<open>rate_str\<close>.\<close>

definition rate_lookup :: "(rat \<Rightarrow> string) \<Rightarrow> (string \<times> rat) list \<Rightarrow> string \<Rightarrow> string option" where
  "rate_lookup rate_str tbl x =
     (let vs = map snd (filter (\<lambda>(r, a). r = x) tbl)
      in if vs = [] then None else Some (rate_str (sum_list vs / of_nat (length vs))))"

definition relabel_datasets :: "(rat \<Rightarrow> string) \<Rightarrow> (string \<times> rat) list \<Rightarrow> pivot \<Rightarrow> py_error + pivot" where
  "relabel_datasets rate_str tbl = relabel_level (rate_lookup rate_str tbl) fst (\<lambda>v (d, p). (v, p))"

text \<open>Lines 108--114: \<open>tool_name_table.loc[x, 'DisplayName']\<close> by profile name.\<close>

definition relabel_programs :: "(string \<times> string) list \<Rightarrow> pivot \<Rightarrow> py_error + pivot" where
  "relabel_programs tbl = relabel_level (map_of tbl) snd (\<lambda>v (d, p). (d, v))"

section \<open>The script\<close>

text \<open>The parsed command line (lines 9--24); reading the input table (lines 26--27) gives
  the rows.\<close>

record paper_args =
  pa_input :: string
  pa_output :: "string option"
  pa_name :: string
  pa_caption :: string
  pa_error_rate_file :: "string option"
  pa_tool_name_file :: "string option"
  pa_formats :: "string list"

definition paper_defaults :: paper_args where
  "paper_defaults =
     \<lparr>pa_input = ''-'', pa_output = None, pa_name = ''table'', pa_caption = [],
      pa_error_rate_file = None, pa_tool_name_file = None, pa_formats = [''tex'']\<rparr>"

datatype paper_write = CsvOut string | PickleOut string | TexOut string string

text \<open>\<open>args.output + ext\<close>: \<open>None\<close> (no \<open>-o\<close>) is a \<open>TypeError\<close>.\<close>

definition out_name :: "string option \<Rightarrow> string \<Rightarrow> py_error + string" where
  "out_name output ext = (case output of None \<Rightarrow> Inl TypeError | Some f \<Rightarrow> Inr (f @ ext))"

text \<open>The \<open>tex\<close> branch (lines 38--127): the pivot, the optional relabelling, then the
  output name, and the rendering, whose exception is caught and printed after the file
  was opened, leaving it empty. \<open>render\<close> is the Mako template given the name, the
  caption and the table.\<close>

definition paper_tex ::
  "(string \<Rightarrow> string \<Rightarrow> pivot \<Rightarrow> py_error + string) \<Rightarrow> (rat \<Rightarrow> string) \<Rightarrow> paper_args \<Rightarrow> sim_row list
   \<Rightarrow> (string \<times> rat) list \<Rightarrow> (string \<times> string) list \<Rightarrow> py_error + paper_write" where
  "paper_tex render rate_str args rows rates tools =
     (let pv0 = tex_pivot (tex_long rows);
          pv1 = (if pa_error_rate_file args = None then Inr pv0 else relabel_datasets rate_str rates pv0);
          pv2 = (case pv1 of Inl e \<Rightarrow> Inl e
                 | Inr pv \<Rightarrow> if pa_tool_name_file args = None then Inr pv else relabel_programs tools pv)
      in case pv2 of
           Inl e \<Rightarrow> Inl e
         | Inr pv \<Rightarrow>
             (case out_name (pa_output args) ''.tex'' of
                Inl e \<Rightarrow> Inl e
              | Inr f \<Rightarrow> Inr (TexOut f (case render (pa_name args) (pa_caption args) pv of Inl _ \<Rightarrow> [] | Inr t \<Rightarrow> t))))"

text \<open>\<open>main()\<close> after parsing: the outputs in the order txt, pickle, tex whatever the
  order of \<open>--formats\<close>, and the exception that ended the run.\<close>

definition paper_main ::
  "(string \<Rightarrow> string \<Rightarrow> pivot \<Rightarrow> py_error + string) \<Rightarrow> (rat \<Rightarrow> string) \<Rightarrow> paper_args \<Rightarrow> sim_row list
   \<Rightarrow> (string \<times> rat) list \<Rightarrow> (string \<times> string) list \<Rightarrow> paper_write list \<times> py_error option" where
  "paper_main render rate_str args rows rates tools =
     (let fs = pa_formats args;
          txt = (if ''txt'' \<in> set fs then map_sum id (\<lambda>f. [CsvOut f]) (out_name (pa_output args) ''.txt'') else Inr [])
      in case txt of
           Inl e \<Rightarrow> ([], Some e)
         | Inr w1 \<Rightarrow>
             (let pk = (if ''pickle'' \<in> set fs then map_sum id (\<lambda>f. [PickleOut f]) (out_name (pa_output args) ''.pickle'') else Inr [])
              in case pk of
                   Inl e \<Rightarrow> (w1, Some e)
                 | Inr w2 \<Rightarrow>
                     (if ''tex'' \<in> set fs then
                        (case paper_tex render rate_str args rows rates tools of
                           Inl e \<Rightarrow> (w1 @ w2, Some e)
                         | Inr t \<Rightarrow> (w1 @ w2 @ [t], None))
                      else (w1 @ w2, None))))"

section \<open>Properties of the accuracy table\<close>

lemma length_all_cols [simp]: "length all_cols = 10"
  by (simp add: all_cols_def adapter_cols_def adapter_pct_cols_def base_cols_def total_cols_def)

lemma paper_main_no_output:
  assumes "pa_output args = None" and "''txt'' \<in> set (pa_formats args) \<or> ''pickle'' \<in> set (pa_formats args)"
  shows "paper_main render rate_str args rows rates tools = ([], Some TypeError)"
  using assms by (cases "''txt'' \<in> set (pa_formats args)") (simp_all add: paper_main_def out_name_def Let_def)

lemma paper_main_outputs:
  assumes "pa_output args = Some f" and "paper_tex render rate_str args rows rates tools = Inr t"
  shows "paper_main render rate_str args rows rates tools =
           ((if ''txt'' \<in> set (pa_formats args) then [CsvOut (f @ ''.txt'')] else [])
            @ (if ''pickle'' \<in> set (pa_formats args) then [PickleOut (f @ ''.pickle'')] else [])
            @ (if ''tex'' \<in> set (pa_formats args) then [t] else []), None)"
  using assms by (simp add: paper_main_def out_name_def)

lemma paper_tex_name:
  assumes "paper_tex render rate_str args rows rates tools = Inr t"
  shows "\<exists>f txt. pa_output args = Some f \<and> t = TexOut (f @ ''.tex'') txt"
  using assms by (auto simp: paper_tex_def out_name_def Let_def split: sum.splits option.splits if_splits)

lemma pd_mean_single: "pd_mean [x] = x"
  by (cases x) (simp_all add: pd_mean_def)

lemma distinct_level_keys: "distinct (map (\<lambda>v. (to_level v, col_map v)) all_cols)"
  by (simp add: all_cols_def adapter_cols_def adapter_pct_cols_def base_cols_def total_cols_def
                to_level_def contains_def col_map_def new_cols_def)

lemma tex_long_by_column:
  "tex_long rows =
     concat (map (\<lambda>c. map (\<lambda>r. (dataset r, program r, to_level c, col_map c, col_value r c)) (select_rows rows)) all_cols)"
  by (simp add: tex_long_def melt_def map_concat comp_def)

lemma pivot_cell_single:
  assumes dk: "distinct (map (\<lambda>r. (dataset r, program r)) (select_rows rows))"
    and r: "r \<in> set (select_rows rows)" and c: "c \<in> set all_cols"
  shows "pivot_cell (tex_long rows) (dataset r, program r) (to_level c, col_map c) = col_value r c"
proof -
  let ?R = "select_rows rows"
  let ?P = "\<lambda>(d, p, l, n, x :: pdnum). (d, p) = (dataset r, program r) \<and> (l, n) = (to_level c, col_map c)"
  have inj: "inj_on (\<lambda>v. (to_level v, col_map v)) (set all_cols)"
    using distinct_level_keys by (simp add: distinct_map)
  have col: "filter ?P (map (\<lambda>r'. (dataset r', program r', to_level c', col_map c', col_value r' c')) ?R) =
             (if (to_level c', col_map c') = (to_level c, col_map c) then [(dataset r, program r, to_level c, col_map c, col_value r c)] else [])"
    if c': "c' \<in> set all_cols" for c'
  proof (cases "(to_level c', col_map c') = (to_level c, col_map c)")
    case True
    then have "c' = c" using inj c c' by (auto dest: inj_onD)
    have "filter (\<lambda>r'. (dataset r', program r') = (dataset r, program r)) ?R = [r]"
      using filter_key_unique [OF dk r] by simp
    then show ?thesis using True \<open>c' = c\<close> by (simp add: filter_map comp_def)
  next
    case False
    then show ?thesis by (simp add: filter_map comp_def filter_empty_conv)
  qed
  have one: "filter (\<lambda>c'. (to_level c', col_map c') = (to_level c, col_map c)) all_cols = [c]"
    using filter_key_unique [OF distinct_level_keys c] by simp
  have "filter ?P (tex_long rows) =
          concat (map (\<lambda>c'. if (to_level c', col_map c') = (to_level c, col_map c)
                             then [(dataset r, program r, to_level c, col_map c, col_value r c)] else []) all_cols)"
    unfolding tex_long_by_column filter_concat map_map comp_def
    using col by (intro arg_cong [where f = concat] map_cong) simp_all
  also have "\<dots> = [(dataset r, program r, to_level c, col_map c, col_value r c)]"
    by (simp only: concat_map_single one) simp
  finally show ?thesis by (simp add: pivot_cell_def pd_mean_single)
qed

text \<open>C35. With one selected row per dataset and program, the pivoted table shows, in
  the row of (dataset, program), under the column (level, display name) of a source
  column, exactly that row's value of the column (when it is not NaN): the pivot's mean
  never mixes two source columns or two rows.\<close>

theorem tex_pivot_shows_value:
  assumes dk: "distinct (map (\<lambda>r. (dataset r, program r)) (select_rows rows))"
    and r: "r \<in> set (select_rows rows)" and c: "c \<in> set all_cols" and v: "col_value r c \<noteq> NaN"
  shows "\<exists>cells. map_of (tex_pivot (tex_long rows)) (dataset r, program r) = Some cells \<and>
                map_of cells (to_level c, col_map c) = Some (col_value r c)"
proof -
  let ?L = "tex_long rows"
  let ?rows = "sort (remdups (map (\<lambda>(d, p, l, n, x). (d, p)) ?L))"
  let ?cols = "filter (\<lambda>c'. list_ex (\<lambda>k. pivot_cell ?L k c' \<noteq> NaN) ?rows)
                 (sort (remdups (map (\<lambda>(d, p, l, n, x). (l, n)) ?L)))"
  have e: "(dataset r, program r, to_level c, col_map c, col_value r c) \<in> set ?L"
    using r c by (auto simp: tex_long_by_column)
  have cell: "pivot_cell ?L (dataset r, program r) (to_level c, col_map c) = col_value r c"
    by (rule pivot_cell_single [OF dk r c])
  have k: "(dataset r, program r) \<in> set ?rows"
    using e by force
  have cc: "(to_level c, col_map c) \<in> set ?cols"
    using e k cell v by (force simp: list_ex_iff)
  have "map_of (tex_pivot ?L) (dataset r, program r) =
          Some (map (\<lambda>c'. (c', pivot_cell ?L (dataset r, program r) c')) ?cols)"
    using k by (simp add: tex_pivot_def Let_def map_of_graph)
  moreover have "map_of (map (\<lambda>c'. (c', pivot_cell ?L (dataset r, program r) c')) ?cols) (to_level c, col_map c) =
                   Some (col_value r c)"
    using cc cell by (simp add: map_of_graph)
  ultimately show ?thesis by blast
qed

theorem tex_pivot_shows_value_witness:
  "\<exists>cells. map_of (tex_pivot (tex_long [\<lparr>dataset = ''d1'', program = ''atropos'', threads = 4, qcut = 0,
                     nonadapter_trimmed = 1, adapter_overtrimmed = 2, adapter_untrimmed = 1,
                     adapter_undertrimmed = 1, retained_reads = 100, overtrimmed_bases = 7,
                     undertrimmed_bases = 3, total_ref_bases = 1000\<rparr>])) (''d1'', ''atropos'') = Some cells \<and>
     map_of cells (''reads'', ''Total Error'') = Some (Fin (1 / 20))"
proof -
  have h: "distinct (map (\<lambda>r. (dataset r, program r)) (select_rows [\<lparr>dataset = ''d1'', program = ''atropos'', threads = 4, qcut = 0,
                     nonadapter_trimmed = 1, adapter_overtrimmed = 2, adapter_untrimmed = 1,
                     adapter_undertrimmed = 1, retained_reads = 100, overtrimmed_bases = 7,
                     undertrimmed_bases = 3, total_ref_bases = 1000\<rparr>]))"
    "\<lparr>dataset = ''d1'', program = ''atropos'', threads = 4, qcut = 0,
                     nonadapter_trimmed = 1, adapter_overtrimmed = 2, adapter_untrimmed = 1,
                     adapter_undertrimmed = 1, retained_reads = 100, overtrimmed_bases = 7,
                     undertrimmed_bases = 3, total_ref_bases = 1000\<rparr> \<in> set (select_rows [\<lparr>dataset = ''d1'', program = ''atropos'', threads = 4, qcut = 0,
                     nonadapter_trimmed = 1, adapter_overtrimmed = 2, adapter_untrimmed = 1,
                     adapter_undertrimmed = 1, retained_reads = 100, overtrimmed_bases = 7,
                     undertrimmed_bases = 3, total_ref_bases = 1000\<rparr>])" "''reads total error'' \<in> set all_cols"
    "col_value \<lparr>dataset = ''d1'', program = ''atropos'', threads = 4, qcut = 0,
                     nonadapter_trimmed = 1, adapter_overtrimmed = 2, adapter_untrimmed = 1,
                     adapter_undertrimmed = 1, retained_reads = 100, overtrimmed_bases = 7,
                     undertrimmed_bases = 3, total_ref_bases = 1000\<rparr> ''reads total error'' \<noteq> NaN"
    by (simp_all add: select_rows_def all_cols_def total_cols_def col_value_def pd_div_def)
  have l: "to_level ''reads total error'' = ''reads''" "col_map ''reads total error'' = ''Total Error''"
    by (simp_all add: to_level_def contains_def col_map_def all_cols_def adapter_cols_def
                      adapter_pct_cols_def base_cols_def total_cols_def new_cols_def)
  have v: "col_value \<lparr>dataset = ''d1'', program = ''atropos'', threads = 4, qcut = 0,
                     nonadapter_trimmed = 1, adapter_overtrimmed = 2, adapter_untrimmed = 1,
                     adapter_undertrimmed = 1, retained_reads = 100, overtrimmed_bases = 7,
                     undertrimmed_bases = 3, total_ref_bases = 1000\<rparr> ''reads total error'' = Fin (1 / 20)"
    by (simp add: col_value_def pd_div_def)
  from tex_pivot_shows_value [OF h] l v show ?thesis by simp
qed

text \<open>The long table has ten entries per selected row, column by column: for each
  value column, one entry per selected row in table order.\<close>

theorem tex_long_shape:
  "length (tex_long rows) = 10 * length (select_rows rows) \<and>
   map (\<lambda>(d, p, l, n, x). (d, p)) (tex_long rows) =
     concat (replicate 10 (map (\<lambda>r. (dataset r, program r)) (select_rows rows)))"
proof -
  have "map (\<lambda>(d, p, l, n, x). (d, p)) (tex_long rows) =
        concat (map (\<lambda>c. map (\<lambda>r. (dataset r, program r)) (select_rows rows)) all_cols)"
    by (simp add: tex_long_def melt_def map_concat comp_def split_def)
  moreover have "concat (map (\<lambda>c. map (\<lambda>r. (dataset r, program r)) (select_rows rows)) all_cols) =
        concat (replicate 10 (map (\<lambda>r. (dataset r, program r)) (select_rows rows)))"
    by (simp only: map_replicate_const length_all_cols)
  ultimately have eq: "map (\<lambda>(d, p, l, n, x). (d, p)) (tex_long rows) =
     concat (replicate 10 (map (\<lambda>r. (dataset r, program r)) (select_rows rows)))" by simp
  have cr: "length (concat (replicate n xs)) = n * length xs" for n and xs :: "'b list"
    by (induction n) auto
  have "length (tex_long rows) = length (map (\<lambda>(d, p, l, n, x). (d, p)) (tex_long rows))" by simp
  also have "\<dots> = 10 * length (select_rows rows)" by (simp only: eq cr length_map)
  finally have "length (tex_long rows) = 10 * length (select_rows rows)" .
  with eq show ?thesis by blast
qed

text \<open>C37. The entry the table shows as reads-level Total Error is a proportion of the
  retained reads, not a count like the other entries of that level.\<close>

theorem reads_total_error_ratio:
  assumes "threads r = 4" and "qcut r = 0" and "retained_reads r \<noteq> 0"
  shows "(dataset r, program r, ''reads'', ''Total Error'',
          Fin (of_int (nonadapter_trimmed r + adapter_overtrimmed r + (adapter_untrimmed r + adapter_undertrimmed r))
               / of_int (retained_reads r))) \<in> set (tex_long [r])"
proof -
  have "(dataset r, program r, ''reads total error'', col_value r ''reads total error'') \<in> set (melt [r])"
    by (simp add: melt_def all_cols_def total_cols_def)
  moreover have "col_value r ''reads total error'' =
      Fin (of_int (nonadapter_trimmed r + adapter_overtrimmed r + (adapter_untrimmed r + adapter_undertrimmed r))
           / of_int (retained_reads r))"
    using assms(3) by (simp add: col_value_def pd_div_def add.assoc)
  moreover have "to_level ''reads total error'' = ''reads''" and "col_map ''reads total error'' = ''Total Error''"
    by (simp_all add: to_level_def contains_def col_map_def all_cols_def adapter_cols_def
                      adapter_pct_cols_def base_cols_def total_cols_def new_cols_def)
  ultimately show ?thesis
    using assms(1,2) by (force simp: tex_long_def select_rows_def)
qed

theorem reads_total_error_ratio_witness:
  "(''d1'', ''atropos'', ''reads'', ''Total Error'', Fin (1 / 20)) \<in>
     set (tex_long [\<lparr>dataset = ''d1'', program = ''atropos'', threads = 4, qcut = 0,
                     nonadapter_trimmed = 1, adapter_overtrimmed = 2, adapter_untrimmed = 1,
                     adapter_undertrimmed = 1, retained_reads = 100, overtrimmed_bases = 7,
                     undertrimmed_bases = 3, total_ref_bases = 1000\<rparr>])"
  using reads_total_error_ratio [of "\<lparr>dataset = ''d1'', program = ''atropos'', threads = 4, qcut = 0,
                     nonadapter_trimmed = 1, adapter_overtrimmed = 2, adapter_untrimmed = 1,
                     adapter_undertrimmed = 1, retained_reads = 100, overtrimmed_bases = 7,
                     undertrimmed_bases = 3, total_ref_bases = 1000\<rparr>"]
  by simp

end
