(* ===== verification/Cli.thy ===== *)
theory Cli
  imports Prelude "HOL-Library.Word"
begin

text \<open>
  \<open>src/atropos/scripts/atropos.py\<close>, the command-line entry point: importing the module
  runs \<open>check_importability()\<close>, and \<open>main(args)\<close> ends the process with
  \<open>sys.exit(execute_cli(args))\<close>. Both called functions live in \<open>atropos\<close> outside
  \<open>src/\<close> and are given at their interface: \<open>check_importability\<close> either returns or ends
  the process with an outcome, \<open>execute_cli\<close> returns the value handed to \<open>sys.exit\<close> or
  raises. What the process reports is its 8-bit exit status and the text it writes to
  standard error, as CPython's handling of \<open>SystemExit\<close> produces them.
\<close>

text \<open>The argument of \<open>sys.exit\<close>: \<open>None\<close>, an integer (\<open>bool\<close> included), or any other
  object, represented by its \<open>str\<close>.\<close>

datatype exit_arg = ExitNone | ExitInt int | ExitObj string

datatype err_out = ErrText string | Traceback py_error

record proc_outcome =
  exit_status :: "8 word"
  stderr_out :: "err_out list"

text \<open>CPython's \<open>_Py_HandleSystemExit\<close>: \<open>None\<close> is status 0; an integer is read as a
  C \<open>long long\<close> (out of range: -1) and passed to \<open>exit\<close>, which keeps its low eight
  bits; any other object is printed to standard error and gives status 1.\<close>

definition sys_exit :: "exit_arg \<Rightarrow> proc_outcome" where
  "sys_exit a =
     (case a of
        ExitNone \<Rightarrow> \<lparr>exit_status = 0, stderr_out = []\<rparr>
      | ExitInt n \<Rightarrow>
          \<lparr>exit_status = (if - (2 ^ 63) \<le> n \<and> n < 2 ^ 63 then word_of_int n else word_of_int (- 1)),
           stderr_out = []\<rparr>
      | ExitObj s \<Rightarrow> \<lparr>exit_status = 1, stderr_out = [ErrText (s @ [CHR 0x0A])]\<rparr>)"

text \<open>\<open>main(args)\<close>: an exception of \<open>execute_cli\<close> is not caught, so the interpreter
  prints its traceback and exits with status 1.\<close>

definition main :: "(string list \<Rightarrow> py_error + exit_arg) \<Rightarrow> string list \<Rightarrow> proc_outcome" where
  "main execute_cli args =
     (case execute_cli args of
        Inl e \<Rightarrow> \<lparr>exit_status = 1, stderr_out = [Traceback e]\<rparr>
      | Inr a \<Rightarrow> sys_exit a)"

text \<open>Running the script: the import-time check, then \<open>main()\<close> with its default
  \<open>sys.argv[1:]\<close>, taken from the command line \<open>argv\<close> when \<open>main\<close> is defined.\<close>

definition run_script ::
  "proc_outcome option \<Rightarrow> (string list \<Rightarrow> py_error + exit_arg) \<Rightarrow> string list \<Rightarrow> proc_outcome" where
  "run_script check execute_cli argv =
     (case check of Some out \<Rightarrow> out | None \<Rightarrow> main execute_cli (drop 1 argv))"

section \<open>Exit status\<close>

lemma word_of_int_eq_0_iff_dvd: "(word_of_int n :: 8 word) = 0 \<longleftrightarrow> (256::int) dvd n"
  by (simp add: word_of_int_eq_0_iff take_bit_eq_0_iff)

text \<open>C40. The script reports success (status 0, nothing on standard error) exactly when
  the import check passes and execute_cli returns None or an integer within a C long long
  that is a multiple of 256: the status keeps only the low eight bits, so a command that
  returns 256 reports success and one that returns -1 reports 255.\<close>

theorem run_script_success:
  "run_script check execute_cli argv = \<lparr>exit_status = 0, stderr_out = []\<rparr> \<longleftrightarrow>
     (check = Some \<lparr>exit_status = 0, stderr_out = []\<rparr>) \<or>
     (check = None \<and>
      (execute_cli (drop 1 argv) = Inr ExitNone \<or>
       (\<exists>n. execute_cli (drop 1 argv) = Inr (ExitInt n) \<and> - (2 ^ 63) \<le> n \<and> n < 2 ^ 63 \<and> (256::int) dvd n)))"
  by (auto simp: run_script_def main_def sys_exit_def word_of_int_eq_0_iff_dvd
           split: option.splits sum.splits exit_arg.splits)


theorem run_script_success_witness:
  "run_script None (\<lambda>args. Inr (ExitInt 256)) [''atropos'', ''trim''] = \<lparr>exit_status = 0, stderr_out = []\<rparr>"
  using run_script_success [of None "\<lambda>args. Inr (ExitInt 256)" "[''atropos'', ''trim'']"] by simp

end
